theory Spec2Isabelle
  imports Complex_Main "HOL-Library.Multiset"
begin

section \<open>The cloth simulation of \<^verbatim>\<open>src/sails.ts\<close>\<close>

text \<open>
  The embedding follows \<^verbatim>\<open>FabricSimulationComponent\<close>, \<^verbatim>\<open>Particle\<close> and
  \<^verbatim>\<open>Constraint\<close>. The renderer, the mesh, the browser's timers and the tween engine
  are external collaborators and are not part of the state.
\<close>

subsection \<open>JavaScript numbers\<close>

text \<open>
  A JavaScript \<^verbatim>\<open>number\<close> is a finite value, one of the two infinities, or NaN.
  The special values follow IEEE 754 as JavaScript applies it. Finite arithmetic is
  idealised: \<open>Num r\<close> carries a real number, operations on finite values are exact
  (no rounding, no overflow to an infinity), and the sign of a zero is not kept, so a
  finite nonzero value divided by zero is read with the sign of the dividend. The
  rounding of binary64 is added in a subsection of its own below, for the two
  properties that depend on it.
\<close>

datatype jsnum = Num real | PInf | NInf | NaN

fun js_neg :: "jsnum \<Rightarrow> jsnum" where
  "js_neg (Num a) = Num (- a)"
| "js_neg PInf = NInf"
| "js_neg NInf = PInf"
| "js_neg NaN = NaN"

fun js_add :: "jsnum \<Rightarrow> jsnum \<Rightarrow> jsnum" where
  "js_add (Num a) (Num b) = Num (a + b)"
| "js_add NaN _ = NaN"
| "js_add _ NaN = NaN"
| "js_add PInf NInf = NaN"
| "js_add NInf PInf = NaN"
| "js_add PInf _ = PInf"
| "js_add _ PInf = PInf"
| "js_add NInf _ = NInf"
| "js_add _ NInf = NInf"

definition js_sub :: "jsnum \<Rightarrow> jsnum \<Rightarrow> jsnum" where
  "js_sub a b = js_add a (js_neg b)"

fun js_mul :: "jsnum \<Rightarrow> jsnum \<Rightarrow> jsnum" where
  "js_mul (Num a) (Num b) = Num (a * b)"
| "js_mul NaN _ = NaN"
| "js_mul _ NaN = NaN"
| "js_mul PInf (Num b) = (if b = 0 then NaN else if 0 < b then PInf else NInf)"
| "js_mul NInf (Num b) = (if b = 0 then NaN else if 0 < b then NInf else PInf)"
| "js_mul (Num a) PInf = (if a = 0 then NaN else if 0 < a then PInf else NInf)"
| "js_mul (Num a) NInf = (if a = 0 then NaN else if 0 < a then NInf else PInf)"
| "js_mul PInf PInf = PInf"
| "js_mul PInf NInf = NInf"
| "js_mul NInf PInf = NInf"
| "js_mul NInf NInf = PInf"

fun js_div :: "jsnum \<Rightarrow> jsnum \<Rightarrow> jsnum" where
  "js_div (Num a) (Num b) =
     (if b = 0 then (if a = 0 then NaN else if 0 < a then PInf else NInf)
      else Num (a / b))"
| "js_div NaN _ = NaN"
| "js_div _ NaN = NaN"
| "js_div (Num a) PInf = Num 0"
| "js_div (Num a) NInf = Num 0"
| "js_div PInf (Num b) = (if 0 \<le> b then PInf else NInf)"
| "js_div NInf (Num b) = (if 0 \<le> b then NInf else PInf)"
| "js_div PInf PInf = NaN"
| "js_div PInf NInf = NaN"
| "js_div NInf PInf = NaN"
| "js_div NInf NInf = NaN"

text \<open>\<^verbatim>\<open>Math.sqrt\<close>, \<^verbatim>\<open>Math.abs\<close>, \<^verbatim>\<open>isNaN\<close>.\<close>

fun js_sqrt :: "jsnum \<Rightarrow> jsnum" where
  "js_sqrt (Num a) = (if a < 0 then NaN else Num (sqrt a))"
| "js_sqrt PInf = PInf"
| "js_sqrt NInf = NaN"
| "js_sqrt NaN = NaN"

fun js_abs :: "jsnum \<Rightarrow> jsnum" where
  "js_abs (Num a) = Num \<bar>a\<bar>"
| "js_abs PInf = PInf"
| "js_abs NInf = PInf"
| "js_abs NaN = NaN"

fun isNaN :: "jsnum \<Rightarrow> bool" where
  "isNaN NaN = True"
| "isNaN _ = False"

text \<open>The comparisons \<^verbatim>\<open>a > b\<close> and \<^verbatim>\<open>a <= b\<close>: false as soon as an operand is NaN.\<close>

fun js_gt :: "jsnum \<Rightarrow> jsnum \<Rightarrow> bool" where
  "js_gt (Num a) (Num b) = (b < a)"
| "js_gt NaN _ = False"
| "js_gt _ NaN = False"
| "js_gt PInf PInf = False"
| "js_gt PInf _ = True"
| "js_gt NInf _ = False"
| "js_gt (Num a) NInf = True"
| "js_gt (Num a) PInf = False"

fun js_le :: "jsnum \<Rightarrow> jsnum \<Rightarrow> bool" where
  "js_le (Num a) (Num b) = (a \<le> b)"
| "js_le NaN _ = False"
| "js_le _ NaN = False"
| "js_le NInf _ = True"
| "js_le _ PInf = True"
| "js_le PInf _ = False"
| "js_le (Num a) NInf = False"

text \<open>\<^verbatim>\<open>Math.max\<close> and \<^verbatim>\<open>Math.min\<close> of two arguments: NaN when either is NaN.\<close>

definition js_max :: "jsnum \<Rightarrow> jsnum \<Rightarrow> jsnum" where
  "js_max a b = (if isNaN a \<or> isNaN b then NaN else if js_gt a b then a else b)"

definition js_min :: "jsnum \<Rightarrow> jsnum \<Rightarrow> jsnum" where
  "js_min a b = (if isNaN a \<or> isNaN b then NaN else if js_gt a b then b else a)"

text \<open>\<^verbatim>\<open>a || b\<close> on numbers: \<open>b\<close> when \<open>a\<close> is falsy, that is zero or NaN.\<close>

definition js_or :: "jsnum \<Rightarrow> jsnum \<Rightarrow> jsnum" where
  "js_or a b = (if a = Num 0 \<or> isNaN a then b else a)"

subsection \<open>\<^verbatim>\<open>THREE.Vector3\<close>\<close>

text \<open>
  The methods of the three.js vector the simulation calls, componentwise as the
  library defines them. \<^verbatim>\<open>divideScalar(s)\<close> is \<^verbatim>\<open>multiplyScalar(1 / s)\<close> and
  \<^verbatim>\<open>normalize()\<close> is \<^verbatim>\<open>divideScalar(length() || 1)\<close> there. Vectors are values, so
  \<^verbatim>\<open>clone()\<close> and \<^verbatim>\<open>copy()\<close> are the identity.
\<close>

datatype vector3 = Vector3 (vx: jsnum) (vy: jsnum) (vz: jsnum)

definition addVectors :: "vector3 \<Rightarrow> vector3 \<Rightarrow> vector3" where
  "addVectors a b = Vector3 (js_add (vx a) (vx b)) (js_add (vy a) (vy b)) (js_add (vz a) (vz b))"

definition subVectors :: "vector3 \<Rightarrow> vector3 \<Rightarrow> vector3" where
  "subVectors a b = Vector3 (js_sub (vx a) (vx b)) (js_sub (vy a) (vy b)) (js_sub (vz a) (vz b))"

definition multiplyScalar :: "vector3 \<Rightarrow> jsnum \<Rightarrow> vector3" where
  "multiplyScalar a s = Vector3 (js_mul (vx a) s) (js_mul (vy a) s) (js_mul (vz a) s)"

definition divideScalar :: "vector3 \<Rightarrow> jsnum \<Rightarrow> vector3" where
  "divideScalar a s = multiplyScalar a (js_div (Num 1) s)"

definition vlength :: "vector3 \<Rightarrow> jsnum" where
  "vlength a =
     js_sqrt (js_add (js_add (js_mul (vx a) (vx a)) (js_mul (vy a) (vy a))) (js_mul (vz a) (vz a)))"

definition normalize_vec :: "vector3 \<Rightarrow> vector3" where
  "normalize_vec a = divideScalar a (js_or (vlength a) (Num 1))"

definition zero3 :: vector3 where
  "zero3 = Vector3 (Num 0) (Num 0) (Num 0)"

subsection \<open>Particles and constraints\<close>

record particle =
  position :: vector3
  oldPosition :: vector3
  acceleration :: vector3
  mass :: jsnum
  pinned :: bool

text \<open>The constructor of \<^verbatim>\<open>Particle\<close>.\<close>

definition new_Particle :: "vector3 \<Rightarrow> jsnum \<Rightarrow> particle" where
  "new_Particle pos m =
     \<lparr>position = pos, oldPosition = pos, acceleration = zero3, mass = m, pinned = False\<rparr>"

definition addForce :: "vector3 \<Rightarrow> particle \<Rightarrow> particle" where
  "addForce force p =
     (let acc = divideScalar force (mass p)
      in if \<not> isNaN (vx acc) \<and> \<not> isNaN (vy acc) \<and> \<not> isNaN (vz acc)
         then p\<lparr>acceleration := addVectors (acceleration p) acc\<rparr>
         else p)"

text \<open>
  A constraint holds its two particles by reference. The particles live in the
  component's array and are never reordered, so a reference is the particle's index in
  that array; \<open>createCloth\<close> below only makes references inside the array.
\<close>

record constraint =
  p1 :: nat
  p2 :: nat
  distance :: jsnum

definition new_Constraint :: "nat \<Rightarrow> nat \<Rightarrow> jsnum \<Rightarrow> constraint" where
  "new_Constraint i j d = \<lparr>p1 = i, p2 = j, distance = d\<rparr>"

text \<open>
  \<^verbatim>\<open>Constraint.satisfy\<close>, on the particle array. The second update reads the array
  after the first, as the source reads \<^verbatim>\<open>this.p2.position\<close> after it has changed
  \<^verbatim>\<open>this.p1.position\<close>.
\<close>

definition satisfy :: "constraint \<Rightarrow> particle list \<Rightarrow> particle list" where
  "satisfy c ps =
     (let p1p2 = subVectors (position (ps ! p2 c)) (position (ps ! p1 c));
          currentDist = vlength p1p2
      in if currentDist = Num 0 \<or> isNaN currentDist then ps
         else
           let correction = multiplyScalar p1p2 (js_sub (Num 1) (js_div (distance c) currentDist));
               correctionHalf = multiplyScalar correction (Num 0.5);
               ps1 = (if \<not> pinned (ps ! p1 c)
                      then ps[p1 c := (ps ! p1 c)\<lparr>position := addVectors (position (ps ! p1 c)) correctionHalf\<rparr>]
                      else ps);
               ps2 = (if \<not> pinned (ps1 ! p2 c)
                      then ps1[p2 c := (ps1 ! p2 c)\<lparr>position := subVectors (position (ps1 ! p2 c)) correctionHalf\<rparr>]
                      else ps1)
           in ps2)"

subsection \<open>The component\<close>

text \<open>
  The fields of \<^verbatim>\<open>FabricSimulationComponent\<close> the simulation reads and writes. The
  segment counts are loop bounds and so natural numbers.
\<close>

record component =
  initialPositions :: "vector3 list"
  clothWidth :: jsnum
  clothHeight :: jsnum
  segmentsW :: nat
  segmentsH :: nat
  particles :: "particle list"
  constraints :: "constraint list"
  windForce :: vector3
  restDistance :: jsnum
  previousScrollY :: jsnum
  scrollVelocity :: jsnum
  isSimulationActive :: bool

definition DAMPING :: jsnum where
  "DAMPING = Num 0.02"

definition DRAG :: jsnum where
  "DRAG = js_sub (Num 1) DAMPING"

definition MASS :: jsnum where
  "MASS = Num 0.1"

definition MAX_DISPLACEMENT :: jsnum where
  "MAX_DISPLACEMENT = Num 5"

definition maxScrollVelocity :: jsnum where
  "maxScrollVelocity = Num 15"

definition timeStep :: jsnum where
  "timeStep = js_div (Num 1) (Num 60)"

definition js_nat :: "nat \<Rightarrow> jsnum" where
  "js_nat n = Num (real n)"

text \<open>\<^verbatim>\<open>index(u, v)\<close>.\<close>

definition index :: "component \<Rightarrow> nat \<Rightarrow> nat \<Rightarrow> nat" where
  "index s u v = u + v * (segmentsW s + 1)"

subsubsection \<open>\<^verbatim>\<open>createCloth\<close>\<close>

definition clothFunction :: "component \<Rightarrow> jsnum \<Rightarrow> jsnum \<Rightarrow> vector3" where
  "clothFunction s u v =
     Vector3 (js_mul (js_sub u (Num 0.5)) (clothWidth s))
             (js_mul (js_sub v (Num 0.5)) (clothHeight s))
             (Num 0)"

text \<open>The position the particle loop computes for the grid point \<open>(u, v)\<close>.\<close>

definition grid_pos :: "component \<Rightarrow> nat \<Rightarrow> nat \<Rightarrow> vector3" where
  "grid_pos s u v =
     clothFunction s (js_div (js_nat u) (js_nat (segmentsW s))) (js_div (js_nat v) (js_nat (segmentsH s)))"

text \<open>The particle the loop body pushes: the top row \<open>v = 0\<close> is pinned.\<close>

definition grid_particle :: "component \<Rightarrow> nat \<Rightarrow> nat \<Rightarrow> particle" where
  "grid_particle s u v =
     (let particle = new_Particle (grid_pos s u v) MASS
      in if v = 0 then particle\<lparr>pinned := True\<rparr> else particle)"

text \<open>
  The particle loop, \<^verbatim>\<open>for v in 0..segmentsH\<close>, \<^verbatim>\<open>for u in 0..segmentsW\<close>, pushes
  onto \<^verbatim>\<open>initialPositions\<close> and \<^verbatim>\<open>particles\<close>.
\<close>

definition create_particles :: "component \<Rightarrow> vector3 list \<times> particle list" where
  "create_particles s =
     fold (\<lambda>v. fold (\<lambda>u (ips, ps). (ips @ [grid_pos s u v], ps @ [grid_particle s u v]))
                     [0..<Suc (segmentsW s)])
          [0..<Suc (segmentsH s)] ([], [])"

text \<open>
  The three constraint loops: the structural loop pushes, for each \<open>(u, v)\<close> with
  \<open>u < segmentsW\<close> and \<open>v < segmentsH\<close>, the link to the right neighbour and then the
  link to the neighbour below; then come the links of the last row and those of the
  last column.
\<close>

definition create_constraints :: "component \<Rightarrow> constraint list" where
  "create_constraints s =
     (let cs1 = fold (\<lambda>v. fold (\<lambda>u cs.
                   cs @ [new_Constraint (index s u v) (index s (u + 1) v) (restDistance s),
                         new_Constraint (index s u v) (index s u (v + 1)) (restDistance s)])
                 [0..<segmentsW s])
               [0..<segmentsH s] [];
          cs2 = fold (\<lambda>u cs.
                   cs @ [new_Constraint (index s u (segmentsH s)) (index s (u + 1) (segmentsH s))
                           (restDistance s)])
                 [0..<segmentsW s] cs1;
          cs3 = fold (\<lambda>v cs.
                   cs @ [new_Constraint (index s (segmentsW s) v) (index s (segmentsW s) (v + 1))
                           (restDistance s)])
                 [0..<segmentsH s] cs2
      in cs3)"

definition createCloth :: "component \<Rightarrow> component" where
  "createCloth s =
     (let (ips, ps) = create_particles s
      in s\<lparr>particles := ps, constraints := create_constraints s, initialPositions := ips\<rparr>)"

text \<open>
  The field initialisers and the constructor, which computes \<^verbatim>\<open>restDistance\<close>, followed
  by the \<^verbatim>\<open>createCloth\<close> call of \<^verbatim>\<open>ngOnInit\<close>.
\<close>

definition constructed :: component where
  "constructed =
     \<lparr>initialPositions = [], clothWidth = Num 60, clothHeight = Num 50,
      segmentsW = 40, segmentsH = 30, particles = [], constraints = [],
      windForce = zero3,
      restDistance = js_mul (js_div (Num 60) (js_nat 40)) (Num 0.9),
      previousScrollY = Num 0, scrollVelocity = Num 0, isSimulationActive = False\<rparr>"

definition ngOnInit :: component where
  "ngOnInit = createCloth constructed"

subsubsection \<open>\<^verbatim>\<open>simulate\<close>\<close>

text \<open>
  The body of the force loop for one unpinned particle, in its two stages: the three
  \<^verbatim>\<open>addForce\<close> calls, then the Verlet update with the displacement clamp and the commit.
\<close>

definition gravity :: vector3 where
  "gravity = Vector3 (Num 0) (Num (- 0.2)) (Num 0)"

definition accumulate_forces :: "vector3 \<Rightarrow> particle \<Rightarrow> particle" where
  "accumulate_forces wind p =
     (let pa = addForce gravity p;
          windEffect = Vector3 (Num 0) (Num 0) (vy wind);
          pb = addForce windEffect pa;
          flatteningForce = Vector3 (Num 0) (Num 0) (js_mul (js_neg (vz (position pb))) (Num 0.02))
      in addForce flatteningForce pb)"

text \<open>\<^verbatim>\<open>newPos\<close> before the clamp.\<close>

definition verlet_newPos :: "particle \<Rightarrow> vector3" where
  "verlet_newPos p =
     addVectors
       (addVectors (position p) (multiplyScalar (subVectors (position p) (oldPosition p)) DRAG))
       (multiplyScalar (acceleration p) (js_mul timeStep timeStep))"

definition integrate :: "particle \<Rightarrow> particle" where
  "integrate p =
     (let newPos = verlet_newPos p;
          displacement = subVectors newPos (position p);
          newPos' = (if js_gt (vlength displacement) MAX_DISPLACEMENT
                     then addVectors (position p)
                            (multiplyScalar (normalize_vec displacement) MAX_DISPLACEMENT)
                     else newPos)
      in p\<lparr>oldPosition := position p, position := newPos', acceleration := zero3\<rparr>)"

definition step_particle :: "vector3 \<Rightarrow> particle \<Rightarrow> particle" where
  "step_particle wind p = (if \<not> pinned p then integrate (accumulate_forces wind p) else p)"

text \<open>One relaxation pass visits the constraints in array order; there are five passes.\<close>

definition relax_pass :: "constraint list \<Rightarrow> particle list \<Rightarrow> particle list" where
  "relax_pass cs ps = fold satisfy cs ps"

definition numIterations :: nat where
  "numIterations = 5"

definition relax :: "constraint list \<Rightarrow> particle list \<Rightarrow> particle list" where
  "relax cs ps = fold (\<lambda>i. relax_pass cs) [0..<numIterations] ps"

fun checkSimulationExploded :: "particle list \<Rightarrow> bool" where
  "checkSimulationExploded [] = False"
| "checkSimulationExploded (p # ps) =
     (if isNaN (vx (position p)) \<or> isNaN (vy (position p)) \<or> isNaN (vz (position p)) \<or>
         js_gt (js_abs (vx (position p))) (Num 1000) \<or>
         js_gt (js_abs (vy (position p))) (Num 1000) \<or>
         js_gt (js_abs (vz (position p))) (Num 1000)
      then True
      else checkSimulationExploded ps)"

definition fullReset :: "component \<Rightarrow> component" where
  "fullReset s = (createCloth s)\<lparr>windForce := zero3, isSimulationActive := False\<rparr>"

text \<open>The state after the force loop and the relaxation, before the explosion check.\<close>

definition relaxed :: "component \<Rightarrow> component" where
  "relaxed s =
     s\<lparr>particles := relax (constraints s) (map (step_particle (windForce s)) (particles s))\<rparr>"

definition simulate :: "component \<Rightarrow> component" where
  "simulate s =
     (let s' = relaxed s
      in if checkSimulationExploded (particles s') then fullReset s' else s')"

text \<open>\<^verbatim>\<open>animate\<close>: one frame; the request for the next frame is left to the browser.\<close>

definition animate :: "component \<Rightarrow> component" where
  "animate s = (if \<not> isSimulationActive s then s else simulate s)"

subsubsection \<open>\<^verbatim>\<open>isClothStable\<close>\<close>

fun isClothStable :: "particle list \<Rightarrow> bool" where
  "isClothStable [] = True"
| "isClothStable (p # ps) =
     (if \<not> pinned p
      then (let velocity = vlength (subVectors (position p) (oldPosition p));
                zVelocity = js_abs (js_sub (vz (position p)) (vz (oldPosition p)))
            in if js_gt velocity (Num 0.01) \<or> js_gt zVelocity (Num 0.05) then False
               else isClothStable ps)
      else isClothStable ps)"

subsubsection \<open>\<^verbatim>\<open>handleScroll\<close>\<close>

text \<open>
  The scroll handler gets \<^verbatim>\<open>window.scrollY\<close> as its argument. The call of
  \<^verbatim>\<open>gsap.to(this.windForce, {y, duration})\<close> is returned as a value: the target and the
  duration of the tween, or \<open>None\<close> when the handler makes no such call. The timer it
  arms is not modelled.
\<close>

record tween =
  target_y :: jsnum
  duration :: jsnum

definition handleScroll :: "jsnum \<Rightarrow> component \<Rightarrow> tween option \<times> component" where
  "handleScroll currentScrollY s =
     (let sa = s\<lparr>scrollVelocity := js_sub currentScrollY (previousScrollY s)\<rparr>;
          sb = sa\<lparr>scrollVelocity :=
                 js_max (js_neg maxScrollVelocity) (js_min maxScrollVelocity (scrollVelocity sa))\<rparr>;
          (tw, sc) =
            (if js_gt (js_abs (scrollVelocity sb)) (Num 1)
             then (let scaledVelocity = js_mul (scrollVelocity sb) (Num 0.15)
                   in (Some \<lparr>target_y = scaledVelocity, duration = Num 0.2\<rparr>,
                       if \<not> isSimulationActive sb
                       then animate (sb\<lparr>isSimulationActive := True\<rparr>)
                       else sb))
             else (None, sb))
      in (tw, sc\<lparr>previousScrollY := currentScrollY\<rparr>))"

subsection \<open>Notions the properties are stated with\<close>

text \<open>
  The half correction \<^verbatim>\<open>correctionHalf\<close> that \<open>satisfy\<close> computes for a constraint on a
  particle array.
\<close>

definition correctionHalf_of :: "constraint \<Rightarrow> particle list \<Rightarrow> vector3" where
  "correctionHalf_of c ps =
     (let p1p2 = subVectors (position (ps ! p2 c)) (position (ps ! p1 c))
      in multiplyScalar (multiplyScalar p1p2 (js_sub (Num 1) (js_div (distance c) (vlength p1p2)))) (Num 0.5))"

text \<open>
  \<open>pin_same ps ps'\<close>: the arrays have the same particles pinned, and every pinned
  particle of \<open>ps\<close> is unchanged in \<open>ps'\<close>.
\<close>

definition pin_same :: "particle list \<Rightarrow> particle list \<Rightarrow> bool" where
  "pin_same ps ps' \<longleftrightarrow>
     length ps' = length ps \<and>
     (\<forall>k<length ps. pinned (ps' ! k) = pinned (ps ! k) \<and> (pinned (ps ! k) \<longrightarrow> ps' ! k = ps ! k))"

text \<open>
  Any number of \<open>simulate\<close> calls: before each call the wind force may have been set to
  any vector, as the tween engine does between frames.
\<close>

fun run :: "vector3 list \<Rightarrow> component \<Rightarrow> component" where
  "run [] s = s"
| "run (w # ws) s = run ws (simulate (s\<lparr>windForce := w\<rparr>))"

text \<open>
  \<open>built s\<close>: the particles of \<open>s\<close> are pinned where \<open>createCloth\<close> pins them, and the pinned
  ones are where \<open>createCloth\<close> puts them. \<open>createCloth\<close> establishes it and \<open>simulate\<close>
  keeps it; nothing is asked of the unpinned particles.
\<close>

definition built :: "component \<Rightarrow> bool" where
  "built s \<longleftrightarrow>
     map pinned (particles s) = map pinned (snd (create_particles s)) \<and>
     (\<forall>k<length (particles s). pinned (particles s ! k) \<longrightarrow>
        position (particles s ! k) = position (snd (create_particles s) ! k))"

text \<open>The link of \<open>(u, v)\<close> to its right neighbour and the link to its neighbour below.\<close>

definition hlink :: "component \<Rightarrow> nat \<Rightarrow> nat \<Rightarrow> constraint" where
  "hlink s u v = new_Constraint (index s u v) (index s (u + 1) v) (restDistance s)"

definition vlink :: "component \<Rightarrow> nat \<Rightarrow> nat \<Rightarrow> constraint" where
  "vlink s u v = new_Constraint (index s u v) (index s u (v + 1)) (restDistance s)"

text \<open>All horizontal links in row-major order, and all vertical links in row-major order.\<close>

definition horizontal_links :: "component \<Rightarrow> constraint list" where
  "horizontal_links s =
     concat (map (\<lambda>v. map (\<lambda>u. hlink s u v) [0..<segmentsW s]) [0..<Suc (segmentsH s)])"

definition vertical_links :: "component \<Rightarrow> constraint list" where
  "vertical_links s =
     concat (map (\<lambda>v. map (\<lambda>u. vlink s u v) [0..<Suc (segmentsW s)]) [0..<segmentsH s])"

text \<open>
  The order the three loops of \<open>createCloth\<close> push in: the two links of each \<open>(u, v)\<close>
  together, row by row; then the horizontal links of the last row; then the vertical
  links of the last column.
\<close>

definition insertion_order :: "component \<Rightarrow> constraint list" where
  "insertion_order s =
     concat (map (\<lambda>v. concat (map (\<lambda>u. [hlink s u v, vlink s u v]) [0..<segmentsW s]))
               [0..<segmentsH s])
     @ map (\<lambda>u. hlink s u (segmentsH s)) [0..<segmentsW s]
     @ map (\<lambda>v. vlink s (segmentsW s) v) [0..<segmentsH s]"

text \<open>
  The explosion test of the specification, on one position: a coordinate is not
  finite, or its magnitude is above 1000.
\<close>

fun non_finite :: "jsnum \<Rightarrow> bool" where
  "non_finite (Num a) = False"
| "non_finite _ = True"

fun magnitude_exceeds :: "real \<Rightarrow> jsnum \<Rightarrow> bool" where
  "magnitude_exceeds b (Num a) = (b < \<bar>a\<bar>)"
| "magnitude_exceeds b _ = False"

definition out_of_bounds :: "vector3 \<Rightarrow> bool" where
  "out_of_bounds v \<longleftrightarrow>
     (non_finite (vx v) \<or> magnitude_exceeds 1000 (vx v)) \<or>
     (non_finite (vy v) \<or> magnitude_exceeds 1000 (vy v)) \<or>
     (non_finite (vz v) \<or> magnitude_exceeds 1000 (vz v))"


text \<open>
  The Verlet formula of the specification with its constants written out: the new
  position of a particle for a given acceleration.
\<close>

definition verlet_formula :: "particle \<Rightarrow> vector3 \<Rightarrow> vector3" where
  "verlet_formula p acc =
     addVectors
       (addVectors (position p) (multiplyScalar (subVectors (position p) (oldPosition p)) (Num 0.98)))
       (multiplyScalar acc (Num ((1 / 60)\<^sup>2)))"

text \<open>The two speeds the stability test compares, and vectors with three finite coordinates.\<close>

definition velocity :: "particle \<Rightarrow> jsnum" where
  "velocity p = vlength (subVectors (position p) (oldPosition p))"

definition zVelocity :: "particle \<Rightarrow> jsnum" where
  "zVelocity p = js_abs (js_sub (vz (position p)) (vz (oldPosition p)))"

definition finite3 :: "vector3 \<Rightarrow> bool" where
  "finite3 v \<longleftrightarrow> \<not> non_finite (vx v) \<and> \<not> non_finite (vy v) \<and> \<not> non_finite (vz v)"

text \<open>The scroll delta after the clamp to \<open>[-15, 15]\<close>.\<close>

definition clamped_delta :: "jsnum \<Rightarrow> component \<Rightarrow> jsnum" where
  "clamped_delta currentScrollY s =
     js_max (js_neg (Num 15)) (js_min (Num 15) (js_sub currentScrollY (previousScrollY s)))"

text \<open>Every particle has a finite position and a finite old position.\<close>

definition finite_particles :: "particle list \<Rightarrow> bool" where
  "finite_particles ps \<longleftrightarrow> (\<forall>p\<in>set ps. finite3 (position p) \<and> finite3 (oldPosition p))"

subsection \<open>Binary64 rounding\<close>

text \<open>
  The engine computes with IEEE 754 binary64: the exact result of every operation on
  finite values is rounded to the nearest representable number, ties to the even
  significand, and a result of magnitude \<open>2 ^ 1024\<close> or more becomes an infinity. The bound
  of the displacement clamp and the midpoint of a correction depend on this rounding,
  so the functions they involve are written again with the rounding made explicit.

  \<open>round_half_even\<close> rounds a real to the nearest integer, a tie to the even one.
  \<open>ulp_exponent x\<close> is the exponent of the last place of the binary64 numbers around
  \<open>x\<close>: 52 below the binade of \<open>x\<close>, and never below \<open>-1074\<close>, the exponent of the
  subnormal numbers. \<open>round64\<close> is the rounding itself. As everywhere in this theory the
  sign of a zero is not kept.
\<close>

definition round_half_even :: "real \<Rightarrow> int" where
  "round_half_even x =
     (if x - of_int \<lfloor>x\<rfloor> < 1 / 2 then \<lfloor>x\<rfloor>
      else if 1 / 2 < x - of_int \<lfloor>x\<rfloor> then \<lfloor>x\<rfloor> + 1
      else if even \<lfloor>x\<rfloor> then \<lfloor>x\<rfloor> else \<lfloor>x\<rfloor> + 1)"

definition ulp_exponent :: "real \<Rightarrow> int" where
  "ulp_exponent x = max (\<lfloor>log 2 \<bar>x\<bar>\<rfloor> - 52) (- 1074)"

definition round64 :: "real \<Rightarrow> jsnum" where
  "round64 x =
     (if x = 0 then Num 0
      else let q = ulp_exponent x;
               y = of_int (round_half_even (x / 2 powi q)) * 2 powi q
           in if 2 ^ 1024 \<le> \<bar>y\<bar> then (if 0 < x then PInf else NInf) else Num y)"

text \<open>
  The arithmetic operators with a rounding \<open>rnd\<close> applied to every result computed from
  finite operands; the special values are handled as before. With \<open>rnd = Num\<close> these are
  the idealised operators above, with \<open>rnd = round64\<close> the operators of the engine.
\<close>

definition fl_add :: "(real \<Rightarrow> jsnum) \<Rightarrow> jsnum \<Rightarrow> jsnum \<Rightarrow> jsnum" where
  "fl_add rnd a b = (case (a, b) of (Num x, Num y) \<Rightarrow> rnd (x + y) | _ \<Rightarrow> js_add a b)"

definition fl_sub :: "(real \<Rightarrow> jsnum) \<Rightarrow> jsnum \<Rightarrow> jsnum \<Rightarrow> jsnum" where
  "fl_sub rnd a b = fl_add rnd a (js_neg b)"

definition fl_mul :: "(real \<Rightarrow> jsnum) \<Rightarrow> jsnum \<Rightarrow> jsnum \<Rightarrow> jsnum" where
  "fl_mul rnd a b = (case (a, b) of (Num x, Num y) \<Rightarrow> rnd (x * y) | _ \<Rightarrow> js_mul a b)"

definition fl_div :: "(real \<Rightarrow> jsnum) \<Rightarrow> jsnum \<Rightarrow> jsnum \<Rightarrow> jsnum" where
  "fl_div rnd a b =
     (case (a, b) of (Num x, Num y) \<Rightarrow> (if y = 0 then js_div a b else rnd (x / y))
      | _ \<Rightarrow> js_div a b)"

definition fl_sqrt :: "(real \<Rightarrow> jsnum) \<Rightarrow> jsnum \<Rightarrow> jsnum" where
  "fl_sqrt rnd a = (case a of Num x \<Rightarrow> (if x < 0 then NaN else rnd (sqrt x)) | _ \<Rightarrow> js_sqrt a)"

text \<open>The methods of \<^verbatim>\<open>THREE.Vector3\<close> over these operators.\<close>

definition addVectors_fl :: "(real \<Rightarrow> jsnum) \<Rightarrow> vector3 \<Rightarrow> vector3 \<Rightarrow> vector3" where
  "addVectors_fl rnd a b =
     Vector3 (fl_add rnd (vx a) (vx b)) (fl_add rnd (vy a) (vy b)) (fl_add rnd (vz a) (vz b))"

definition subVectors_fl :: "(real \<Rightarrow> jsnum) \<Rightarrow> vector3 \<Rightarrow> vector3 \<Rightarrow> vector3" where
  "subVectors_fl rnd a b =
     Vector3 (fl_sub rnd (vx a) (vx b)) (fl_sub rnd (vy a) (vy b)) (fl_sub rnd (vz a) (vz b))"

definition multiplyScalar_fl :: "(real \<Rightarrow> jsnum) \<Rightarrow> vector3 \<Rightarrow> jsnum \<Rightarrow> vector3" where
  "multiplyScalar_fl rnd a s =
     Vector3 (fl_mul rnd (vx a) s) (fl_mul rnd (vy a) s) (fl_mul rnd (vz a) s)"

definition divideScalar_fl :: "(real \<Rightarrow> jsnum) \<Rightarrow> vector3 \<Rightarrow> jsnum \<Rightarrow> vector3" where
  "divideScalar_fl rnd a s = multiplyScalar_fl rnd a (fl_div rnd (Num 1) s)"

definition vlength_fl :: "(real \<Rightarrow> jsnum) \<Rightarrow> vector3 \<Rightarrow> jsnum" where
  "vlength_fl rnd a =
     fl_sqrt rnd (fl_add rnd (fl_add rnd (fl_mul rnd (vx a) (vx a)) (fl_mul rnd (vy a) (vy a)))
                            (fl_mul rnd (vz a) (vz a)))"

definition normalize_fl :: "(real \<Rightarrow> jsnum) \<Rightarrow> vector3 \<Rightarrow> vector3" where
  "normalize_fl rnd a = divideScalar_fl rnd a (js_or (vlength_fl rnd a) (Num 1))"

text \<open>
  \<^verbatim>\<open>Particle.addForce\<close> and \<^verbatim>\<open>Constraint.satisfy\<close> over these operators. A decimal literal
  of the source is rounded where it is read.
\<close>

definition addForce_fl :: "(real \<Rightarrow> jsnum) \<Rightarrow> vector3 \<Rightarrow> particle \<Rightarrow> particle" where
  "addForce_fl rnd force p =
     (let acc = divideScalar_fl rnd force (mass p)
      in if \<not> isNaN (vx acc) \<and> \<not> isNaN (vy acc) \<and> \<not> isNaN (vz acc)
         then p\<lparr>acceleration := addVectors_fl rnd (acceleration p) acc\<rparr>
         else p)"

definition satisfy_fl :: "(real \<Rightarrow> jsnum) \<Rightarrow> constraint \<Rightarrow> particle list \<Rightarrow> particle list" where
  "satisfy_fl rnd c ps =
     (let p1p2 = subVectors_fl rnd (position (ps ! p2 c)) (position (ps ! p1 c));
          currentDist = vlength_fl rnd p1p2
      in if currentDist = Num 0 \<or> isNaN currentDist then ps
         else
           let correction = multiplyScalar_fl rnd p1p2
                 (fl_sub rnd (Num 1) (fl_div rnd (distance c) currentDist));
               correctionHalf = multiplyScalar_fl rnd correction (Num 0.5);
               ps1 = (if \<not> pinned (ps ! p1 c)
                      then ps[p1 c := (ps ! p1 c)\<lparr>position :=
                             addVectors_fl rnd (position (ps ! p1 c)) correctionHalf\<rparr>]
                      else ps);
               ps2 = (if \<not> pinned (ps1 ! p2 c)
                      then ps1[p2 c := (ps1 ! p2 c)\<lparr>position :=
                             subVectors_fl rnd (position (ps1 ! p2 c)) correctionHalf\<rparr>]
                      else ps1)
           in ps2)"

text \<open>
  The constants \<^verbatim>\<open>DRAG = 1 - DAMPING\<close> and \<^verbatim>\<open>timeStep = 1 / 60\<close>, the force loop and the
  integration loop of \<^verbatim>\<open>simulate\<close> for one particle, over these operators.
\<close>

definition DRAG_fl :: "(real \<Rightarrow> jsnum) \<Rightarrow> jsnum" where
  "DRAG_fl rnd = fl_sub rnd (Num 1) (rnd 0.02)"

definition timeStep_fl :: "(real \<Rightarrow> jsnum) \<Rightarrow> jsnum" where
  "timeStep_fl rnd = fl_div rnd (Num 1) (Num 60)"

definition accumulate_forces_fl :: "(real \<Rightarrow> jsnum) \<Rightarrow> vector3 \<Rightarrow> particle \<Rightarrow> particle" where
  "accumulate_forces_fl rnd wind p =
     (let pa = addForce_fl rnd (Vector3 (Num 0) (rnd (- 0.2)) (Num 0)) p;
          windEffect = Vector3 (Num 0) (Num 0) (vy wind);
          pb = addForce_fl rnd windEffect pa;
          flatteningForce =
            Vector3 (Num 0) (Num 0) (fl_mul rnd (js_neg (vz (position pb))) (rnd 0.02))
      in addForce_fl rnd flatteningForce pb)"

definition verlet_newPos_fl :: "(real \<Rightarrow> jsnum) \<Rightarrow> particle \<Rightarrow> vector3" where
  "verlet_newPos_fl rnd p =
     addVectors_fl rnd
       (addVectors_fl rnd (position p)
          (multiplyScalar_fl rnd (subVectors_fl rnd (position p) (oldPosition p)) (DRAG_fl rnd)))
       (multiplyScalar_fl rnd (acceleration p) (fl_mul rnd (timeStep_fl rnd) (timeStep_fl rnd)))"

definition integrate_fl :: "(real \<Rightarrow> jsnum) \<Rightarrow> particle \<Rightarrow> particle" where
  "integrate_fl rnd p =
     (let newPos = verlet_newPos_fl rnd p;
          displacement = subVectors_fl rnd newPos (position p);
          newPos' = (if js_gt (vlength_fl rnd displacement) MAX_DISPLACEMENT
                     then addVectors_fl rnd (position p)
                            (multiplyScalar_fl rnd (normalize_fl rnd displacement) MAX_DISPLACEMENT)
                     else newPos)
      in p\<lparr>oldPosition := position p, position := newPos', acceleration := zero3\<rparr>)"

definition step_particle_fl :: "(real \<Rightarrow> jsnum) \<Rightarrow> vector3 \<Rightarrow> particle \<Rightarrow> particle" where
  "step_particle_fl rnd wind p =
     (if \<not> pinned p then integrate_fl rnd (accumulate_forces_fl rnd wind p) else p)"

text \<open>
  The half correction of \<open>satisfy\<close> and the displacement of the integration loop before
  the clamp, as the rounded code computes them.
\<close>

definition correctionHalf_fl :: "(real \<Rightarrow> jsnum) \<Rightarrow> constraint \<Rightarrow> particle list \<Rightarrow> vector3" where
  "correctionHalf_fl rnd c ps =
     (let p1p2 = subVectors_fl rnd (position (ps ! p2 c)) (position (ps ! p1 c))
      in multiplyScalar_fl rnd
           (multiplyScalar_fl rnd p1p2
              (fl_sub rnd (Num 1) (fl_div rnd (distance c) (vlength_fl rnd p1p2))))
           (Num 0.5))"

definition unclamped_displacement :: "(real \<Rightarrow> jsnum) \<Rightarrow> vector3 \<Rightarrow> particle \<Rightarrow> vector3" where
  "unclamped_displacement rnd wind p =
     subVectors_fl rnd (verlet_newPos_fl rnd (accumulate_forces_fl rnd wind p)) (position p)"

text \<open>
  Exact quantities of computed vectors. \<open>val\<close> is the real number a finite value stands
  for. \<open>exact_diff\<close> is the difference of two vectors and \<open>exact_length_sq\<close> the squared
  Euclidean length, both without rounding; \<open>nrm\<close> is the Euclidean length of three
  reals; \<open>scaled_to m d\<close> is \<open>d\<close> scaled to length \<open>m\<close>.
\<close>

definition val :: "jsnum \<Rightarrow> real" where
  "val a = (case a of Num x \<Rightarrow> x | _ \<Rightarrow> 0)"

definition exact_length_sq :: "vector3 \<Rightarrow> real" where
  "exact_length_sq a = (val (vx a))\<^sup>2 + (val (vy a))\<^sup>2 + (val (vz a))\<^sup>2"

definition exact_diff :: "vector3 \<Rightarrow> vector3 \<Rightarrow> vector3" where
  "exact_diff a b = Vector3 (Num (val (vx a) - val (vx b))) (Num (val (vy a) - val (vy b)))
                            (Num (val (vz a) - val (vz b)))"

definition nrm :: "real \<Rightarrow> real \<Rightarrow> real \<Rightarrow> real" where
  "nrm a b c = sqrt (a\<^sup>2 + b\<^sup>2 + c\<^sup>2)"

definition scaled_to :: "real \<Rightarrow> vector3 \<Rightarrow> vector3" where
  "scaled_to m d =
     Vector3 (Num (m * val (vx d) / sqrt (exact_length_sq d)))
             (Num (m * val (vy d) / sqrt (exact_length_sq d)))
             (Num (m * val (vz d) / sqrt (exact_length_sq d)))"

text \<open>
  One coordinate \<open>sel\<close> of the sum of two positions \<open>a\<close>, \<open>b\<close> is kept up to rounding
  when they become \<open>a'\<close>, \<open>b'\<close> by a half correction \<open>h\<close>: the exact sum changes by no
  more than the rounding errors of the two updates, each at most \<open>1 / 2 ^ 53\<close> of the exact
  result plus half the smallest subnormal number.
\<close>

definition sum_within_rounding ::
  "(vector3 \<Rightarrow> jsnum) \<Rightarrow> vector3 \<Rightarrow> vector3 \<Rightarrow> vector3 \<Rightarrow> vector3 \<Rightarrow> vector3 \<Rightarrow> bool" where
  "sum_within_rounding sel a b h a' b' \<longleftrightarrow>
     \<bar>(val (sel a') + val (sel b')) - (val (sel a) + val (sel b))\<bar>
       \<le> (\<bar>val (sel a) + val (sel h)\<bar> + \<bar>val (sel b) - val (sel h)\<bar>) / 2 ^ 53 + 1 / 2 ^ 1074"

text \<open>A value that is a nonnegative finite number or \<open>+\<infinity>\<close>.\<close>

fun nonneg_or_PInf :: "jsnum \<Rightarrow> bool" where
  "nonneg_or_PInf (Num x) = (0 \<le> x)"
| "nonneg_or_PInf PInf = True"
| "nonneg_or_PInf NInf = False"
| "nonneg_or_PInf NaN = False"

section \<open>Properties\<close>

subsection \<open>Numbers and vectors\<close>

lemma vlength_self_diff: "vlength (subVectors v v) = Num 0 \<or> vlength (subVectors v v) = NaN"
proof -
  obtain x y z where v: "v = Vector3 x y z" by (cases v)
  show ?thesis unfolding v vlength_def subVectors_def js_sub_def
    by (cases x; cases y; cases z; simp)
qed


subsection \<open>\<^verbatim>\<open>Constraint.satisfy\<close>\<close>

lemma satisfy_degenerate:
  "vlength (subVectors (position (ps ! p2 c)) (position (ps ! p1 c))) = Num 0 \<or>
   isNaN (vlength (subVectors (position (ps ! p2 c)) (position (ps ! p1 c)))) \<Longrightarrow> satisfy c ps = ps"
  by (simp add: satisfy_def)

lemma satisfy_length [simp]: "length (satisfy c ps) = length ps"
  by (simp add: satisfy_def Let_def)

lemma satisfy_distinct_ends:
  assumes "\<not> (vlength (subVectors (position (ps ! p2 c)) (position (ps ! p1 c))) = Num 0 \<or>
   isNaN (vlength (subVectors (position (ps ! p2 c)) (position (ps ! p1 c)))))"
  shows "p1 c \<noteq> p2 c"
proof
  assume "p1 c = p2 c"
  with assms vlength_self_diff [of "position (ps ! p2 c)"] show False by auto
qed

lemma satisfy_moves:
  assumes d: "\<not> (vlength (subVectors (position (ps ! p2 c)) (position (ps ! p1 c))) = Num 0 \<or>
   isNaN (vlength (subVectors (position (ps ! p2 c)) (position (ps ! p1 c)))))"
    and i: "p1 c < length ps" and j: "p2 c < length ps"
  shows "satisfy c ps ! p1 c =
           (if pinned (ps ! p1 c) then ps ! p1 c
            else (ps ! p1 c)\<lparr>position := addVectors (position (ps ! p1 c)) (correctionHalf_of c ps)\<rparr>)"
    and "satisfy c ps ! p2 c =
           (if pinned (ps ! p2 c) then ps ! p2 c
            else (ps ! p2 c)\<lparr>position := subVectors (position (ps ! p2 c)) (correctionHalf_of c ps)\<rparr>)"
    and "k \<noteq> p1 c \<Longrightarrow> k \<noteq> p2 c \<Longrightarrow> satisfy c ps ! k = ps ! k"
proof -
  have ne: "p1 c \<noteq> p2 c" using satisfy_distinct_ends [OF d] .
  show "satisfy c ps ! p1 c =
           (if pinned (ps ! p1 c) then ps ! p1 c
            else (ps ! p1 c)\<lparr>position := addVectors (position (ps ! p1 c)) (correctionHalf_of c ps)\<rparr>)"
    using d i j ne by (simp add: satisfy_def Let_def correctionHalf_of_def)
  show "satisfy c ps ! p2 c =
           (if pinned (ps ! p2 c) then ps ! p2 c
            else (ps ! p2 c)\<lparr>position := subVectors (position (ps ! p2 c)) (correctionHalf_of c ps)\<rparr>)"
    using d i j ne by (simp add: satisfy_def Let_def correctionHalf_of_def)
  show "k \<noteq> p1 c \<Longrightarrow> k \<noteq> p2 c \<Longrightarrow> satisfy c ps ! k = ps ! k"
    using d by (simp add: satisfy_def Let_def)
qed


subsection \<open>Pinned particles\<close>

lemma pin_same_refl: "pin_same ps ps"
  by (simp add: pin_same_def)

lemma pin_same_trans: "pin_same ps ps' \<Longrightarrow> pin_same ps' ps'' \<Longrightarrow> pin_same ps ps''"
  by (simp add: pin_same_def)

lemma nth_update_within: "k < length xs \<Longrightarrow> xs[i := x] ! k = (if k = i then x else xs ! k)"
  by (cases "k = i") simp_all

lemma move_pin_same:
  "pin_same ps (if \<not> pinned (ps ! i) then ps[i := (ps ! i)\<lparr>position := v\<rparr>] else ps)"
  by (auto simp add: pin_same_def nth_update_within)

lemma satisfy_pin_same: "pin_same ps (satisfy c ps)"
proof (cases "vlength (subVectors (position (ps ! p2 c)) (position (ps ! p1 c))) = Num 0 \<or>
   isNaN (vlength (subVectors (position (ps ! p2 c)) (position (ps ! p1 c))))")
  case True
  then show ?thesis by (simp add: satisfy_degenerate pin_same_refl)
next
  case False
  define h where "h = correctionHalf_of c ps"
  define ps1 where "ps1 = (if \<not> pinned (ps ! p1 c)
      then ps[p1 c := (ps ! p1 c)\<lparr>position := addVectors (position (ps ! p1 c)) h\<rparr>] else ps)"
  have eq: "satisfy c ps = (if \<not> pinned (ps1 ! p2 c)
      then ps1[p2 c := (ps1 ! p2 c)\<lparr>position := subVectors (position (ps1 ! p2 c)) h\<rparr>] else ps1)"
    using False unfolding ps1_def h_def
    by (simp add: satisfy_def Let_def correctionHalf_of_def)
  have "pin_same ps ps1" unfolding ps1_def by (rule move_pin_same)
  moreover have "pin_same ps1 (satisfy c ps)" unfolding eq by (rule move_pin_same)
  ultimately show ?thesis by (rule pin_same_trans)
qed

lemma relax_pass_pin_same: "pin_same ps (relax_pass cs ps)"
  unfolding relax_pass_def
proof (induction cs arbitrary: ps)
  case Nil
  show ?case by (simp add: pin_same_refl)
next
  case (Cons c cs)
  have "pin_same ps (satisfy c ps)" by (rule satisfy_pin_same)
  moreover have "pin_same (satisfy c ps) (fold satisfy cs (satisfy c ps))" by (rule Cons.IH)
  ultimately show ?case by (simp add: pin_same_trans)
qed

lemma fold_pin_same:
  "(\<And>x ps. pin_same ps (f x ps)) \<Longrightarrow> pin_same ps (fold f xs ps)"
proof (induction xs arbitrary: ps)
  case Nil
  show ?case by (simp add: pin_same_refl)
next
  case (Cons x xs)
  have "pin_same ps (f x ps)" by (rule Cons.prems)
  moreover have "pin_same (f x ps) (fold f xs (f x ps))" using Cons.IH Cons.prems by blast
  ultimately show ?case by (simp add: pin_same_trans)
qed

lemma relax_pin_same: "pin_same ps (relax cs ps)"
  unfolding relax_def by (rule fold_pin_same) (rule relax_pass_pin_same)

lemma addForce_pinned [simp]: "pinned (addForce f p) = pinned p"
  by (simp add: addForce_def Let_def)

lemma step_particle_pinned [simp]: "pinned (step_particle w p) = pinned p"
  by (simp add: step_particle_def integrate_def accumulate_forces_def Let_def)

lemma step_particle_pinned_id: "pinned p \<Longrightarrow> step_particle w p = p"
  by (simp add: step_particle_def)

lemma force_loop_pin_same: "pin_same ps (map (step_particle w) ps)"
  by (simp add: pin_same_def step_particle_pinned_id)

lemma relaxed_pin_same: "pin_same (particles s) (particles (relaxed s))"
  unfolding relaxed_def
  using pin_same_trans [OF force_loop_pin_same relax_pin_same] by simp

lemma create_particles_cong:
  "clothWidth s' = clothWidth s \<Longrightarrow> clothHeight s' = clothHeight s \<Longrightarrow>
   segmentsW s' = segmentsW s \<Longrightarrow> segmentsH s' = segmentsH s \<Longrightarrow>
   create_particles s' = create_particles s"
  by (simp add: create_particles_def grid_pos_def grid_particle_def clothFunction_def)

lemma particles_createCloth: "particles (createCloth s) = snd (create_particles s)"
  by (simp add: createCloth_def split: prod.splits)

lemma create_particles_createCloth: "create_particles (createCloth s) = create_particles s"
  by (rule create_particles_cong) (simp_all add: createCloth_def split: prod.splits)

lemma create_particles_relaxed: "create_particles (relaxed s) = create_particles s"
  by (rule create_particles_cong) (simp_all add: relaxed_def)

lemma built_createCloth: "built (createCloth s)"
  by (simp add: built_def particles_createCloth create_particles_createCloth)

lemma particles_fullReset: "particles (fullReset s) = snd (create_particles s)"
  by (simp add: fullReset_def particles_createCloth)

lemma create_particles_fullReset: "create_particles (fullReset s) = create_particles s"
  by (rule create_particles_cong) (simp_all add: fullReset_def createCloth_def split: prod.splits)

lemma create_particles_simulate: "create_particles (simulate s) = create_particles s"
  by (simp add: simulate_def Let_def create_particles_fullReset create_particles_relaxed)

lemma built_pin_same:
  assumes "built s" and "pin_same (particles s) (particles s')"
    and "create_particles s' = create_particles s"
  shows "built s'"
proof -
  have len: "length (particles s') = length (particles s)"
    and same: "\<And>k. k < length (particles s) \<Longrightarrow> pinned (particles s' ! k) = pinned (particles s ! k)"
    and pos: "\<And>k. k < length (particles s) \<Longrightarrow> pinned (particles s ! k) \<Longrightarrow> particles s' ! k = particles s ! k"
    using assms(2) by (simp_all add: pin_same_def)
  have "map pinned (particles s') = map pinned (particles s)"
    by (rule nth_equalityI) (simp_all add: len same)
  then show ?thesis
    using assms(1,3) len same pos by (simp add: built_def)
qed

lemma simulate_pin_same:
  assumes "built s"
  shows "length (particles (simulate s)) = length (particles s)"
    and "k < length (particles s) \<Longrightarrow> pinned (particles (simulate s) ! k) = pinned (particles s ! k)"
    and "k < length (particles s) \<Longrightarrow> pinned (particles s ! k) \<Longrightarrow>
         position (particles (simulate s) ! k) = position (particles s ! k)"
    and "built (simulate s)"
proof -
  let ?r = "relaxed s"
  have ps: "pin_same (particles s) (particles ?r)" by (rule relaxed_pin_same)
  have br: "built ?r" by (rule built_pin_same [OF assms ps create_particles_relaxed])
  have mp: "map pinned (particles s) = map pinned (snd (create_particles s))"
    using assms by (simp add: built_def)
  then have len: "length (particles s) = length (snd (create_particles s))"
    by (metis length_map)
  have pk: "\<And>k. k < length (particles s) \<Longrightarrow> pinned (snd (create_particles s) ! k) = pinned (particles s ! k)"
    using mp len by (metis nth_map)
  show "length (particles (simulate s)) = length (particles s)"
    using ps len by (simp add: simulate_def Let_def particles_fullReset create_particles_relaxed pin_same_def)
  show "k < length (particles s) \<Longrightarrow> pinned (particles (simulate s) ! k) = pinned (particles s ! k)"
    using ps pk by (simp add: simulate_def Let_def particles_fullReset create_particles_relaxed pin_same_def)
  show "k < length (particles s) \<Longrightarrow> pinned (particles s ! k) \<Longrightarrow>
         position (particles (simulate s) ! k) = position (particles s ! k)"
    using ps assms by (simp add: simulate_def Let_def particles_fullReset create_particles_relaxed pin_same_def built_def)
  show "built (simulate s)"
  proof (cases "checkSimulationExploded (particles ?r)")
    case True
    then have "simulate s = fullReset ?r" by (simp add: simulate_def)
    then show ?thesis
      by (simp add: built_def particles_fullReset create_particles_fullReset)
  next
    case False
    then have "simulate s = ?r" by (simp add: simulate_def)
    then show ?thesis using br by simp
  qed
qed

lemma built_wind: "built (s\<lparr>windForce := w\<rparr>) = built s"
proof -
  have "create_particles (s\<lparr>windForce := w\<rparr>) = create_particles s"
    by (rule create_particles_cong) simp_all
  then show ?thesis by (simp add: built_def)
qed


subsection \<open>The grid \<open>createCloth\<close> builds\<close>

lemma fold_push: "fold (\<lambda>x acc. acc @ f x) xs acc = acc @ concat (map f xs)"
  by (induction xs arbitrary: acc) simp_all

lemma fold_fold_push:
  "fold (\<lambda>y. fold (\<lambda>x acc. acc @ f x y) xs) ys acc
   = acc @ concat (map (\<lambda>y. concat (map (\<lambda>x. f x y) xs)) ys)"
  by (induction ys arbitrary: acc) (simp_all add: fold_push)

lemma fold_push2:
  "fold (\<lambda>x (as, bs). (as @ [g x], bs @ [h x])) xs (as, bs) = (as @ map g xs, bs @ map h xs)"
  by (induction xs arbitrary: as bs) simp_all

lemma fold_fold_push2:
  "fold (\<lambda>y. fold (\<lambda>x (as, bs). (as @ [g x y], bs @ [h x y])) xs) ys (as, bs)
   = (as @ concat (map (\<lambda>y. map (\<lambda>x. g x y) xs) ys),
      bs @ concat (map (\<lambda>y. map (\<lambda>x. h x y) xs) ys))"
  by (induction ys arbitrary: as bs) (simp_all add: fold_push2)

lemma create_particles_eq:
  "create_particles s =
     (concat (map (\<lambda>v. map (\<lambda>u. grid_pos s u v) [0..<Suc (segmentsW s)]) [0..<Suc (segmentsH s)]),
      concat (map (\<lambda>v. map (\<lambda>u. grid_particle s u v) [0..<Suc (segmentsW s)]) [0..<Suc (segmentsH s)]))"
  unfolding create_particles_def by (simp only: fold_fold_push2) simp

lemma create_constraints_eq: "create_constraints s = insertion_order s"
  unfolding create_constraints_def insertion_order_def Let_def hlink_def vlink_def
  by (simp only: fold_fold_push fold_push) simp

lemma length_grid: "length (concat (map (\<lambda>v. map (\<lambda>u. f u v) [0..<n]) [0..<m])) = n * m"
  by (induction m) simp_all

lemma nth_grid:
  "u < n \<Longrightarrow> v < m \<Longrightarrow> concat (map (\<lambda>v. map (\<lambda>u. f u v) [0..<n]) [0..<m]) ! (u + v * n) = f u v"
proof (induction m)
  case 0
  then show ?case by simp
next
  case (Suc m)
  let ?g = "concat (map (\<lambda>v. map (\<lambda>u. f u v) [0..<n]) [0..<m])"
  have len: "length ?g = n * m" by (rule length_grid)
  show ?case
  proof (cases "v < m")
    case True
    then have "Suc v \<le> m" by simp
    then have "n * Suc v \<le> n * m" by (rule mult_le_mono2)
    with Suc.prems(1) have "u + v * n < n * m" by (simp add: algebra_simps)
    then show ?thesis using Suc.IH [OF Suc.prems(1) True] len by (simp add: nth_append)
  next
    case False
    with Suc.prems(2) have "v = m" by simp
    then show ?thesis using Suc.prems(1) len by (simp add: nth_append algebra_simps)
  qed
qed

lemma position_grid_particle [simp]: "position (grid_particle s u v) = grid_pos s u v"
  by (simp add: grid_particle_def new_Particle_def Let_def)

lemma pinned_grid_particle [simp]: "pinned (grid_particle s u v) = (v = 0)"
  by (simp add: grid_particle_def new_Particle_def Let_def)

lemma grid_positions:
  "map position (snd (create_particles s)) = fst (create_particles s)"
  by (simp add: create_particles_eq map_concat comp_def del: upt_Suc)

lemma created_length: "length (snd (create_particles s)) = (segmentsW s + 1) * (segmentsH s + 1)"
  using length_grid [of "\<lambda>u v. grid_particle s u v" "Suc (segmentsW s)" "Suc (segmentsH s)"]
  by (simp add: create_particles_eq)

lemma created_nth:
  assumes "u \<le> segmentsW s" and "v \<le> segmentsH s"
  shows "snd (create_particles s) ! index s u v = grid_particle s u v"
  using nth_grid [of u "Suc (segmentsW s)" v "Suc (segmentsH s)" "\<lambda>u v. grid_particle s u v"] assms
  by (simp add: create_particles_eq index_def)


lemma particles_ngOnInit_0:
  "0 < length (particles ngOnInit) \<and> pinned (particles ngOnInit ! 0)"
proof -
  have "snd (create_particles constructed) ! index constructed 0 0 = grid_particle constructed 0 0"
    by (rule created_nth) simp_all
  then show ?thesis
    by (simp add: ngOnInit_def particles_createCloth created_length index_def)
qed


subsection \<open>The explosion check and the reset\<close>

lemma exploded_coordinate:
  "isNaN c \<or> js_gt (js_abs c) (Num 1000) \<longleftrightarrow> non_finite c \<or> magnitude_exceeds 1000 c"
  by (cases c) simp_all

lemma checkSimulationExploded_iff:
  "checkSimulationExploded ps \<longleftrightarrow> (\<exists>p\<in>set ps. out_of_bounds (position p))"
proof (induction ps)
  case Nil
  show ?case by simp
next
  case (Cons p ps)
  have "out_of_bounds (position p) \<longleftrightarrow>
     isNaN (vx (position p)) \<or> isNaN (vy (position p)) \<or> isNaN (vz (position p)) \<or>
     js_gt (js_abs (vx (position p))) (Num 1000) \<or>
     js_gt (js_abs (vy (position p))) (Num 1000) \<or>
     js_gt (js_abs (vz (position p))) (Num 1000)"
    unfolding out_of_bounds_def
    using exploded_coordinate [of "vx (position p)", symmetric]
      exploded_coordinate [of "vy (position p)", symmetric]
      exploded_coordinate [of "vz (position p)", symmetric]
    by blast
  then show ?case using Cons.IH by simp
qed

lemma simulate_exploded:
  "checkSimulationExploded (particles (relaxed s)) \<Longrightarrow> simulate s = fullReset (relaxed s)"
  by (simp add: simulate_def)

lemma fullReset_fields:
  "windForce (fullReset s) = zero3" "\<not> isSimulationActive (fullReset s)"
  "initialPositions (fullReset s) = fst (create_particles s)"
  "constraints (fullReset s) = create_constraints s"
  by (simp_all add: fullReset_def createCloth_def split: prod.splits)

lemma create_constraints_cong:
  "segmentsW s' = segmentsW s \<Longrightarrow> segmentsH s' = segmentsH s \<Longrightarrow> restDistance s' = restDistance s \<Longrightarrow>
   create_constraints s' = create_constraints s"
  by (simp add: create_constraints_def index_def)

lemma pinned_survives_relaxed:
  assumes "k < length (particles s)" and "pinned (particles s ! k)"
  shows "particles (relaxed s) ! k = particles s ! k \<and> k < length (particles (relaxed s))"
  using relaxed_pin_same [of s] assms by (simp add: pin_same_def)

subsection \<open>The constraint array\<close>

lemma mset_pairs: "mset (concat (map (\<lambda>u. [f u, g u]) us)) = mset (map f us) + mset (map g us)"
  by (induction us) simp_all

lemma mset_concat_pairs:
  "mset (concat (map (\<lambda>v. concat (map (\<lambda>u. [f u v, g u v]) us)) vs))
   = mset (concat (map (\<lambda>v. map (\<lambda>u. f u v) us) vs)) + mset (concat (map (\<lambda>v. map (\<lambda>u. g u v) us) vs))"
  by (induction vs) (simp_all add: mset_pairs)

lemma mset_concat_snoc:
  "mset (concat (map (\<lambda>v. F v @ [g v]) vs)) = mset (concat (map F vs)) + mset (map g vs)"
  by (induction vs) simp_all

lemma mset_insertion_order:
  "mset (insertion_order s) = mset (horizontal_links s) + mset (vertical_links s)"
  unfolding insertion_order_def horizontal_links_def vertical_links_def
  by (simp add: mset_concat_pairs mset_concat_snoc)

lemma grid_index_inj:
  fixes n :: nat
  assumes "u < n" and "u' < n" and eq: "u + v * n = u' + v' * n"
  shows "u = u' \<and> v = v'"
proof -
  have "(u + v * n) mod n = u" "(u' + v' * n) mod n = u'"
    using assms(1,2) by (simp_all only: mod_mult_self1 mod_less)
  with eq have u: "u = u'" by simp
  with eq have "v * n = v' * n" by simp
  moreover have "0 < n" using assms(1) by simp
  ultimately have "v = v'" by simp
  with u show ?thesis by simp
qed

lemma index_inj:
  assumes "u \<le> segmentsW s" and "u' \<le> segmentsW s" and "index s u v = index s u' v'"
  shows "u = u' \<and> v = v'"
proof (rule grid_index_inj)
  show "u < segmentsW s + 1" "u' < segmentsW s + 1" using assms(1,2) by simp_all
  show "u + v * (segmentsW s + 1) = u' + v' * (segmentsW s + 1)"
    using assms(3) by (simp only: index_def)
qed

lemma grid_as_product:
  "concat (map (\<lambda>v. map (\<lambda>u. f u v) us) vs) = map (\<lambda>(v, u). f u v) (List.product vs us)"
  by (induction vs) simp_all

lemma distinct_horizontal_links: "distinct (horizontal_links s)"
proof -
  have "inj_on (\<lambda>(v, u). hlink s u v) (set (List.product [0..<Suc (segmentsH s)] [0..<segmentsW s]))"
  proof (rule inj_onI, clarify)
    fix v u v' u'
    assume "(v, u) \<in> set (List.product [0..<Suc (segmentsH s)] [0..<segmentsW s])"
      and "(v', u') \<in> set (List.product [0..<Suc (segmentsH s)] [0..<segmentsW s])"
      and eq: "hlink s u v = hlink s u' v'"
    then have "u \<le> segmentsW s" "u' \<le> segmentsW s" by simp_all
    moreover from eq have "index s u v = index s u' v'" by (simp add: hlink_def new_Constraint_def)
    ultimately have "u = u' \<and> v = v'" by (rule index_inj)
    then show "v = v' \<and> u = u'" by simp
  qed
  then show ?thesis
    unfolding horizontal_links_def grid_as_product
    by (simp add: distinct_map distinct_product del: upt_Suc)
qed

lemma distinct_vertical_links: "distinct (vertical_links s)"
proof -
  have "inj_on (\<lambda>(v, u). vlink s u v) (set (List.product [0..<segmentsH s] [0..<Suc (segmentsW s)]))"
  proof (rule inj_onI, clarify)
    fix v u v' u'
    assume "(v, u) \<in> set (List.product [0..<segmentsH s] [0..<Suc (segmentsW s)])"
      and "(v', u') \<in> set (List.product [0..<segmentsH s] [0..<Suc (segmentsW s)])"
      and eq: "vlink s u v = vlink s u' v'"
    then have "u \<le> segmentsW s" "u' \<le> segmentsW s" by auto
    moreover from eq have "index s u v = index s u' v'" by (simp add: vlink_def new_Constraint_def)
    ultimately have "u = u' \<and> v = v'" by (rule index_inj)
    then show "v = v' \<and> u = u'" by simp
  qed
  then show ?thesis
    unfolding vertical_links_def grid_as_product
    by (simp add: distinct_map distinct_product del: upt_Suc)
qed

lemma set_horizontal_links:
  "set (horizontal_links s) = {hlink s u v | u v. u < segmentsW s \<and> v \<le> segmentsH s}"
  unfolding horizontal_links_def by (fastforce simp del: upt_Suc simp add: less_Suc_eq_le)

lemma set_vertical_links:
  "set (vertical_links s) = {vlink s u v | u v. u \<le> segmentsW s \<and> v < segmentsH s}"
  unfolding vertical_links_def by (fastforce simp del: upt_Suc simp add: less_Suc_eq_le)

lemma links_disjoint: "set (horizontal_links s) \<inter> set (vertical_links s) = {}"
proof -
  have False if "u < segmentsW s" "u' \<le> segmentsW s" "hlink s u v = vlink s u' v'" for u v u' v'
  proof -
    from that(3) have a: "index s u v = index s u' v'" and b: "index s (u + 1) v = index s u' (v' + 1)"
      by (simp_all add: hlink_def vlink_def new_Constraint_def)
    from that(1,2) a have "u = u' \<and> v = v'" by (intro index_inj) simp_all
    with b that(1) show False by (simp add: index_def)
  qed
  then show ?thesis unfolding set_horizontal_links set_vertical_links by blast
qed

lemma distinct_insertion_order: "distinct (insertion_order s)"
proof -
  have "distinct (horizontal_links s @ vertical_links s)"
    by (simp add: distinct_horizontal_links distinct_vertical_links links_disjoint)
  moreover have "mset (insertion_order s) = mset (horizontal_links s @ vertical_links s)"
    by (simp add: mset_insertion_order)
  ultimately show ?thesis
    using mset_eq_imp_distinct_iff [of "insertion_order s" "horizontal_links s @ vertical_links s"]
    by simp
qed

lemma constraints_createCloth: "constraints (createCloth s) = insertion_order s"
  by (simp add: createCloth_def create_constraints_eq split: prod.splits)

lemma insertion_order_second:
  assumes "0 < segmentsW s" and "0 < segmentsH s"
  shows "insertion_order s ! 1 = vlink s 0 0"
proof -
  from assms obtain w h where "segmentsW s = Suc w" "segmentsH s = Suc h"
    by (cases "segmentsW s"; cases "segmentsH s") simp_all
  then show ?thesis by (simp add: insertion_order_def upt_conv_Cons del: upt_Suc)
qed

lemma insertion_order_third:
  assumes "1 < segmentsW s" and "0 < segmentsH s"
  shows "insertion_order s ! 2 = hlink s 1 0"
proof -
  from assms obtain w h where "segmentsW s = Suc (Suc w)" "segmentsH s = Suc h"
    by (cases "segmentsW s"; cases "segmentsW s - 1"; cases "segmentsH s") simp_all
  then show ?thesis by (simp add: insertion_order_def upt_conv_Cons numeral_2_eq_2 del: upt_Suc)
qed

lemma row_major_second:
  assumes "1 < segmentsW s"
  shows "(horizontal_links s @ vertical_links s) ! 1 = hlink s 1 0"
proof -
  from assms obtain w where "segmentsW s = Suc (Suc w)"
    by (cases "segmentsW s"; cases "segmentsW s - 1") simp_all
  then show ?thesis by (simp add: horizontal_links_def upt_conv_Cons del: upt_Suc)
qed

subsection \<open>Forces and integration\<close>

lemma addForce_fields [simp]:
  "position (addForce f p) = position p" "oldPosition (addForce f p) = oldPosition p"
  "mass (addForce f p) = mass p"
  by (simp_all add: addForce_def Let_def)

lemma accumulate_forces_fields [simp]:
  "position (accumulate_forces w p) = position p" "oldPosition (accumulate_forces w p) = oldPosition p"
  "mass (accumulate_forces w p) = mass p" "pinned (accumulate_forces w p) = pinned p"
  by (simp_all add: accumulate_forces_def Let_def)

lemma DRAG_value: "DRAG = Num 0.98"
  by (simp add: DRAG_def DAMPING_def js_sub_def)

lemma timeStep_squared: "js_mul timeStep timeStep = Num ((1 / 60)\<^sup>2)"
  by (simp add: timeStep_def power2_eq_square)



lemma verlet_newPos_formula:
  "verlet_newPos (accumulate_forces w p) = verlet_formula p (acceleration (accumulate_forces w p))"
  by (simp add: verlet_newPos_def verlet_formula_def DRAG_value timeStep_squared)

lemma sqrt_25: "sqrt 25 = 5"
  by (rule real_sqrt_unique) simp_all

lemma sqrt_not_above_5: "x \<le> 25 \<Longrightarrow> \<not> 5 < sqrt x"
proof -
  assume "x \<le> 25"
  then have "sqrt x \<le> sqrt 25" by (simp only: real_sqrt_le_iff)
  then show ?thesis by (simp add: sqrt_25)
qed

lemma integrate_fields:
  "oldPosition (integrate q) = position q"
  "position (integrate q) =
     (if js_gt (vlength (subVectors (verlet_newPos q) (position q))) (Num 5)
      then addVectors (position q)
             (multiplyScalar (normalize_vec (subVectors (verlet_newPos q) (position q))) (Num 5))
      else verlet_newPos q)"
  by (simp_all add: integrate_def Let_def MAX_DISPLACEMENT_def)

subsection \<open>Stability and scrolling\<close>

lemma isClothStable_exceeds:
  "isClothStable ps \<longleftrightarrow>
     (\<forall>p\<in>set ps. \<not> pinned p \<longrightarrow> \<not> js_gt (velocity p) (Num 0.01) \<and> \<not> js_gt (zVelocity p) (Num 0.05))"
  by (induction ps) (auto simp add: velocity_def zVelocity_def Let_def)

lemma finite3_Num: "finite3 v \<Longrightarrow> \<exists>a b c. v = Vector3 (Num a) (Num b) (Num c)"
  by (cases v; cases "vx v"; cases "vy v"; cases "vz v"; simp add: finite3_def)

lemma finite_velocity:
  assumes "finite3 (position p)" and "finite3 (oldPosition p)"
  shows "js_le (velocity p) (Num t) \<longleftrightarrow> \<not> js_gt (velocity p) (Num t)"
    and "js_le (zVelocity p) (Num u) \<longleftrightarrow> \<not> js_gt (zVelocity p) (Num u)"
proof -
  from assms obtain a b c a' b' c' where
    P: "position p = Vector3 (Num a) (Num b) (Num c)" and O: "oldPosition p = Vector3 (Num a') (Num b') (Num c')"
    using finite3_Num by blast
  have nonneg: "0 \<le> (a - a') * (a - a') + (b - b') * (b - b') + (c - c') * (c - c')"
    by (intro add_nonneg_nonneg zero_le_square)
  then have "\<not> (a - a') * (a - a') + (b - b') * (b - b') + (c - c') * (c - c') < 0"
    by linarith
  then have "velocity p = Num (sqrt ((a - a') * (a - a') + (b - b') * (b - b') + (c - c') * (c - c')))"
    by (simp add: velocity_def P O subVectors_def js_sub_def vlength_def)
  then show "js_le (velocity p) (Num t) \<longleftrightarrow> \<not> js_gt (velocity p) (Num t)"
    by auto
  show "js_le (zVelocity p) (Num u) \<longleftrightarrow> \<not> js_gt (zVelocity p) (Num u)"
    by (auto simp add: zVelocity_def P O js_sub_def)
qed

lemma handleScroll_tween:
  "fst (handleScroll y s) =
     (if js_gt (js_abs (clamped_delta y s)) (Num 1)
      then Some \<lparr>target_y = js_mul (clamped_delta y s) (Num 0.15), duration = Num 0.2\<rparr>
      else None)"
  by (simp add: handleScroll_def clamped_delta_def maxScrollVelocity_def Let_def split: prod.splits)

lemma clamped_delta_Num:
  "js_sub y (previousScrollY s) = Num d \<Longrightarrow> clamped_delta y s = Num (max (- 15) (min 15 d))"
  by (simp add: clamped_delta_def js_max_def js_min_def)

subsection \<open>References stay inside the array; coordinates stay finite\<close>

lemma index_bound:
  assumes "u \<le> segmentsW s" and "v \<le> segmentsH s"
  shows "index s u v < (segmentsW s + 1) * (segmentsH s + 1)"
proof -
  have "u + v * (segmentsW s + 1) < (segmentsW s + 1) + v * (segmentsW s + 1)"
    using assms(1) by simp
  also have "\<dots> = (v + 1) * (segmentsW s + 1)" by simp
  also have "\<dots> \<le> (segmentsH s + 1) * (segmentsW s + 1)"
    using assms(2) by (intro mult_le_mono1) simp
  finally show ?thesis by (simp add: index_def mult.commute)
qed

lemma set_insertion_order:
  "set (insertion_order s) = set (horizontal_links s) \<union> set (vertical_links s)"
proof -
  have "set_mset (mset (insertion_order s)) = set_mset (mset (horizontal_links s) + mset (vertical_links s))"
    by (simp only: mset_insertion_order)
  then show ?thesis by simp
qed

lemma createCloth_refs_in_range:
  assumes "c \<in> set (constraints (createCloth s))"
  shows "p1 c < length (particles (createCloth s)) \<and> p2 c < length (particles (createCloth s))"
proof -
  have len: "length (particles (createCloth s)) = (segmentsW s + 1) * (segmentsH s + 1)"
    by (simp add: particles_createCloth created_length)
  from assms have "c \<in> set (horizontal_links s) \<or> c \<in> set (vertical_links s)"
    by (simp add: constraints_createCloth set_insertion_order)
  then show ?thesis
  proof
    assume "c \<in> set (horizontal_links s)"
    then obtain u v where c: "c = hlink s u v" and u: "u < segmentsW s" and v: "v \<le> segmentsH s"
      unfolding set_horizontal_links by blast
    have "index s u v < (segmentsW s + 1) * (segmentsH s + 1)"
      using u v by (intro index_bound) simp_all
    moreover have "index s (u + 1) v < (segmentsW s + 1) * (segmentsH s + 1)"
      using u v by (intro index_bound) simp_all
    ultimately show ?thesis by (simp add: c hlink_def new_Constraint_def len)
  next
    assume "c \<in> set (vertical_links s)"
    then obtain u v where c: "c = vlink s u v" and u: "u \<le> segmentsW s" and v: "v < segmentsH s"
      unfolding set_vertical_links by blast
    have "index s u v < (segmentsW s + 1) * (segmentsH s + 1)"
      using u v by (intro index_bound) simp_all
    moreover have "index s u (v + 1) < (segmentsW s + 1) * (segmentsH s + 1)"
      using u v by (intro index_bound) simp_all
    ultimately show ?thesis by (simp add: c vlink_def new_Constraint_def len)
  qed
qed

lemma links_createCloth:
  "horizontal_links (createCloth s) = horizontal_links s"
  "vertical_links (createCloth s) = vertical_links s"
  by (simp_all add: horizontal_links_def vertical_links_def hlink_def vlink_def index_def
        createCloth_def split: prod.splits)

lemma map_move_old:
  "map oldPosition (if \<not> pinned (ps ! i) then ps[i := (ps ! i)\<lparr>position := v\<rparr>] else ps)
   = map oldPosition ps"
proof (cases "i < length ps")
  case True
  then have "(map oldPosition ps)[i := oldPosition (ps ! i)] = map oldPosition ps"
    by (simp add: list_update_same_conv)
  then show ?thesis by (simp add: map_update)
next
  case False
  then have "ps[i := (ps ! i)\<lparr>position := v\<rparr>] = ps" by (simp add: list_update_beyond)
  then show ?thesis by simp
qed

lemma satisfy_oldPosition: "map oldPosition (satisfy c ps) = map oldPosition ps"
proof (cases "vlength (subVectors (position (ps ! p2 c)) (position (ps ! p1 c))) = Num 0 \<or>
   isNaN (vlength (subVectors (position (ps ! p2 c)) (position (ps ! p1 c))))")
  case True
  then show ?thesis by (simp add: satisfy_degenerate)
next
  case False
  define h where "h = correctionHalf_of c ps"
  define ps1 where "ps1 = (if \<not> pinned (ps ! p1 c)
      then ps[p1 c := (ps ! p1 c)\<lparr>position := addVectors (position (ps ! p1 c)) h\<rparr>] else ps)"
  have eq: "satisfy c ps = (if \<not> pinned (ps1 ! p2 c)
      then ps1[p2 c := (ps1 ! p2 c)\<lparr>position := subVectors (position (ps1 ! p2 c)) h\<rparr>] else ps1)"
    using False unfolding ps1_def h_def
    by (simp add: satisfy_def Let_def correctionHalf_of_def)
  have "map oldPosition ps1 = map oldPosition ps" unfolding ps1_def by (rule map_move_old)
  moreover have "map oldPosition (satisfy c ps) = map oldPosition ps1" unfolding eq by (rule map_move_old)
  ultimately show ?thesis by simp
qed

lemma relax_pass_oldPosition: "map oldPosition (relax_pass cs ps) = map oldPosition ps"
  unfolding relax_pass_def
  by (induction cs arbitrary: ps) (simp_all add: satisfy_oldPosition)

lemma fold_oldPosition:
  "(\<And>x ps. map oldPosition (f x ps) = map oldPosition ps) \<Longrightarrow>
   map oldPosition (fold f xs ps) = map oldPosition ps"
  by (induction xs arbitrary: ps) simp_all

lemma relax_oldPosition: "map oldPosition (relax cs ps) = map oldPosition ps"
  unfolding relax_def by (rule fold_oldPosition) (rule relax_pass_oldPosition)

lemma step_particle_oldPosition:
  "oldPosition (step_particle w p) = (if pinned p then oldPosition p else position p)"
  by (simp add: step_particle_def integrate_fields)

lemma not_exploded_finite:
  assumes "\<not> checkSimulationExploded ps" and "p \<in> set ps"
  shows "finite3 (position p)"
  using assms by (auto simp add: checkSimulationExploded_iff out_of_bounds_def finite3_def)

lemma simulate_finite:
  assumes "finite_particles (particles s)" and "finite_particles (snd (create_particles s))"
  shows "finite_particles (particles (simulate s))"
proof (cases "checkSimulationExploded (particles (relaxed s))")
  case True
  then show ?thesis
    using assms(2) by (simp add: simulate_exploded particles_fullReset create_particles_relaxed)
next
  case False
  let ?ps = "particles (relaxed s)"
  have sim: "simulate s = relaxed s" using False by (simp add: simulate_def)
  have old: "map oldPosition ?ps = map oldPosition (map (step_particle (windForce s)) (particles s))"
    by (simp add: relaxed_def relax_oldPosition)
  have "finite3 (oldPosition p)" if "p \<in> set ?ps" for p
  proof -
    from that have "oldPosition p \<in> set (map oldPosition ?ps)" by simp
    then obtain q where q: "q \<in> set (particles s)" and "oldPosition p = oldPosition (step_particle (windForce s) q)"
      unfolding old by auto
    then show ?thesis using assms(1) by (simp add: step_particle_oldPosition finite_particles_def)
  qed
  then show ?thesis
    using not_exploded_finite [OF False] by (simp add: sim finite_particles_def)
qed

lemma run_finite:
  "finite_particles (particles s) \<Longrightarrow> finite_particles (snd (create_particles s)) \<Longrightarrow>
   finite_particles (particles (run ws s))"
proof (induction ws arbitrary: s)
  case Nil
  then show ?case by simp
next
  case (Cons w ws)
  let ?s = "s\<lparr>windForce := w\<rparr>"
  have cp: "create_particles ?s = create_particles s" by (rule create_particles_cong) simp_all
  have "finite_particles (particles (simulate ?s))"
    by (rule simulate_finite) (simp_all add: Cons.prems cp)
  moreover have "finite_particles (snd (create_particles (simulate ?s)))"
    by (simp add: create_particles_simulate cp Cons.prems)
  ultimately show ?case using Cons.IH by simp
qed

lemma grid_pos_constructed:
  "finite3 (grid_pos constructed u v)"
  by (simp add: grid_pos_def clothFunction_def constructed_def js_nat_def js_sub_def finite3_def)

lemma created_finite: "finite_particles (snd (create_particles constructed))"
  unfolding finite_particles_def
proof
  fix p assume "p \<in> set (snd (create_particles constructed))"
  then obtain u v where "p = grid_particle constructed u v"
    by (auto simp add: create_particles_eq simp del: upt_Suc)
  then show "finite3 (position p) \<and> finite3 (oldPosition p)"
    by (simp add: grid_particle_def new_Particle_def Let_def grid_pos_constructed)
qed

lemma run_ngOnInit_finite: "finite_particles (particles (run ws ngOnInit))"
  by (rule run_finite)
     (simp_all add: ngOnInit_def particles_createCloth create_particles_createCloth created_finite)

lemma stable_test_on_reached_states:
  "isClothStable (particles (run ws ngOnInit)) \<longleftrightarrow>
     (\<forall>p\<in>set (particles (run ws ngOnInit)). \<not> pinned p \<longrightarrow>
        js_le (velocity p) (Num 0.01) \<and> js_le (zVelocity p) (Num 0.05))"
  using run_ngOnInit_finite [of ws]
  by (simp add: isClothStable_exceeds finite_velocity finite_particles_def)

lemma run_pinned:
  "built s \<Longrightarrow> k < length (particles s) \<Longrightarrow> pinned (particles s ! k) \<Longrightarrow>
   k < length (particles (run ws s)) \<and> pinned (particles (run ws s) ! k) \<and>
   position (particles (run ws s) ! k) = position (particles s ! k)"
proof (induction ws arbitrary: s)
  case Nil
  then show ?case by simp
next
  case (Cons w ws)
  let ?s = "s\<lparr>windForce := w\<rparr>"
  have b: "built ?s" using Cons.prems(1) by (simp add: built_wind)
  have k: "k < length (particles ?s)" and p: "pinned (particles ?s ! k)"
    using Cons.prems by simp_all
  note sim = simulate_pin_same [OF b]
  have "k < length (particles (run ws (simulate ?s))) \<and> pinned (particles (run ws (simulate ?s)) ! k) \<and>
   position (particles (run ws (simulate ?s)) ! k) = position (particles (simulate ?s) ! k)"
    using Cons.IH [OF sim(4)] sim(1) sim(2) [OF k] k p by simp
  then show ?case using sim(3) [OF k p] by simp
qed

subsection \<open>Binary64 rounding\<close>

text \<open>
  Rounding to the nearest integer is off by at most a half, and \<open>round64\<close> by at most half
  a unit in the last place. Two rules evaluate \<open>round64\<close> on a given number from its
  significand \<open>m\<close> and exponent \<open>q\<close>.
\<close>

lemma round_half_even_error: "\<bar>of_int (round_half_even x) - x\<bar> \<le> 1 / 2"
  unfolding round_half_even_def by (auto simp add: abs_le_iff)

lemma round_half_even_near:
  assumes "\<bar>x - of_int m\<bar> < 1 / 2"
  shows "round_half_even x = m"
proof -
  have "\<bar>of_int (round_half_even x) - x\<bar> \<le> 1 / 2" by (rule round_half_even_error)
  with assms have "\<bar>of_int (round_half_even x) - (of_int m :: real)\<bar> < 1" by linarith
  then have "\<bar>round_half_even x - m\<bar> < 1"
    by (metis of_int_abs of_int_diff of_int_less_iff of_int_1)
  then show ?thesis by linarith
qed

lemma round_half_even_nonneg: "0 \<le> x \<Longrightarrow> 0 \<le> round_half_even x"
  unfolding round_half_even_def by auto

lemma round_half_even_nonpos: "x \<le> 0 \<Longrightarrow> round_half_even x \<le> 0"
proof -
  assume x: "x \<le> 0"
  have "\<bar>of_int (round_half_even x) - x\<bar> \<le> 1 / 2" by (rule round_half_even_error)
  with x have "of_int (round_half_even x) < (1::real)" by linarith
  then show ?thesis by linarith
qed

lemma round64_zero [simp]: "round64 0 = Num 0"
  by (simp add: round64_def)

lemma floor_log2_binade:
  assumes "2 powi e \<le> \<bar>x\<bar>" and "\<bar>x\<bar> < 2 powi (e + 1)"
  shows "\<lfloor>log 2 \<bar>x\<bar>\<rfloor> = e"
proof -
  have "(0::real) < 2 powi e" by simp
  then have pos: "0 < \<bar>x\<bar>" using assms(1) by linarith
  have eq: "(2::real) powr real_of_int k = 2 powi k" for k
    using powr_real_of_int' [of 2 k] by simp
  have "2 powr real_of_int e \<le> \<bar>x\<bar> \<and> \<bar>x\<bar> < 2 powr real_of_int (e + 1)"
    using assms by (simp only: eq)
  then show ?thesis using floor_log_eq_powr_iff [OF pos, of 2 e] by simp
qed

lemma binade_bounds:
  assumes "x \<noteq> 0"
  shows "2 powi \<lfloor>log 2 \<bar>x\<bar>\<rfloor> \<le> \<bar>x\<bar>" and "\<bar>x\<bar> < 2 powi (\<lfloor>log 2 \<bar>x\<bar>\<rfloor> + 1)"
proof -
  have pos: "0 < \<bar>x\<bar>" using assms by simp
  have eq: "(2::real) powr real_of_int k = 2 powi k" for k
    using powr_real_of_int' [of 2 k] by simp
  have "2 powr real_of_int \<lfloor>log 2 \<bar>x\<bar>\<rfloor> \<le> \<bar>x\<bar> \<and>
        \<bar>x\<bar> < 2 powr real_of_int (\<lfloor>log 2 \<bar>x\<bar>\<rfloor> + 1)"
    using floor_log_eq_powr_iff [OF pos, of 2 "\<lfloor>log 2 \<bar>x\<bar>\<rfloor>"] by simp
  then show "2 powi \<lfloor>log 2 \<bar>x\<bar>\<rfloor> \<le> \<bar>x\<bar>" and "\<bar>x\<bar> < 2 powi (\<lfloor>log 2 \<bar>x\<bar>\<rfloor> + 1)"
    by (simp_all only: eq)
qed

text \<open>Evaluation: a value in a known binade, not on a tie.\<close>

lemma round64_binade:
  assumes u: "u = 2 powi q" and q: "- 1074 \<le> q"
    and lo: "2 ^ 52 * u \<le> \<bar>x\<bar>" and hi: "\<bar>x\<bar> < 2 ^ 53 * u"
    and m: "round_half_even (x / u) = m"
    and fin: "\<bar>of_int m * u\<bar> < 2 ^ 1024"
  shows "round64 x = Num (of_int m * u)"
proof -
  have upos: "0 < u" unfolding u by simp
  have "2 ^ 52 * u = 2 powi (q + 52)" "2 ^ 53 * u = 2 powi (q + 52 + 1)"
    unfolding u by (simp_all add: power_int_add)
  with lo hi have "\<lfloor>log 2 \<bar>x\<bar>\<rfloor> = q + 52" by (intro floor_log2_binade) simp_all
  then have ue: "ulp_exponent x = q" using q by (simp add: ulp_exponent_def)
  have x0: "x \<noteq> 0" using lo upos by auto
  show ?thesis using x0 fin m by (simp add: round64_def ue u [symmetric] Let_def)
qed

lemma scaled_distance:
  fixes x u :: real
  assumes "0 < u"
  shows "\<bar>x / u - of_int m\<bar> = \<bar>x - of_int m * u\<bar> / u"
  using assms by (simp add: field_simps abs_mult [symmetric] abs_divide)

lemma round64_normal:
  assumes u: "u = 2 powi q" and q: "- 1074 \<le> q"
    and lo: "2 ^ 52 * u \<le> \<bar>x\<bar>" and hi: "\<bar>x\<bar> < 2 ^ 53 * u"
    and near: "\<bar>x - of_int m * u\<bar> < u / 2"
    and fin: "\<bar>of_int m * u\<bar> < 2 ^ 1024"
  shows "round64 x = Num (of_int m * u)"
proof -
  have upos: "0 < u" unfolding u by simp
  have "\<bar>x / u - of_int m\<bar> = \<bar>x - of_int m * u\<bar> / u" by (rule scaled_distance [OF upos])
  also have "\<dots> < (u / 2) / u" using near upos by (simp add: divide_strict_right_mono)
  also have "\<dots> = 1 / 2" using upos by simp
  finally have "round_half_even (x / u) = m" by (rule round_half_even_near)
  then show ?thesis by (rule round64_binade [OF u q lo hi _ fin])
qed

lemma round_half_even_tie:
  assumes "\<bar>x - of_int m\<bar> = 1 / 2" and "even m"
  shows "round_half_even x = m"
proof (cases "x = of_int m + 1 / 2")
  case True
  have "\<lfloor>x\<rfloor> = m" unfolding True by linarith
  then show ?thesis using assms(2) True by (simp add: round_half_even_def)
next
  case False
  with assms(1) have x: "x = of_int m - 1 / 2" by (simp add: abs_if split: if_splits)
  have f: "\<lfloor>x\<rfloor> = m - 1" unfolding x by linarith
  have o: "odd (m - 1)" using assms(2) by simp
  have r: "x - of_int (m - 1) = 1 / 2" unfolding x by simp
  show ?thesis unfolding round_half_even_def f r using o by simp
qed

lemma round64_tieI:
  assumes z: "z = of_int m * u" and u: "u = 2 powi q" and q: "- 1074 \<le> q"
    and lo: "2 ^ 52 * u \<le> \<bar>x\<bar>" and hi: "\<bar>x\<bar> < 2 ^ 53 * u"
    and tie: "\<bar>x - of_int m * u\<bar> = u / 2" and even: "even m"
    and fin: "\<bar>of_int m * u\<bar> < 2 ^ 1024"
  shows "round64 x = Num z"
proof -
  have upos: "0 < u" unfolding u by simp
  have "\<bar>x / u - of_int m\<bar> = \<bar>x - of_int m * u\<bar> / u" by (rule scaled_distance [OF upos])
  also have "\<dots> = 1 / 2" using tie upos by simp
  finally have "round_half_even (x / u) = m" using even by (rule round_half_even_tie)
  then show ?thesis unfolding z by (rule round64_binade [OF u q lo hi _ fin])
qed

lemma round64_error:
  assumes "round64 x = Num y"
  shows "\<bar>y - x\<bar> \<le> \<bar>x\<bar> / 2 ^ 53 + 1 / 2 ^ 1075"
proof (cases "x = 0")
  case True
  with assms show ?thesis by simp
next
  case False
  define q where "q = ulp_exponent x"
  define u :: real where "u = 2 powi q"
  have upos: "0 < u" by (simp add: u_def)
  have y: "y = of_int (round_half_even (x / u)) * u"
    using assms False by (simp add: round64_def Let_def q_def u_def split: if_splits)
  have "\<bar>of_int (round_half_even (x / u)) - x / u\<bar> \<le> 1 / 2" by (rule round_half_even_error)
  then have "\<bar>of_int (round_half_even (x / u)) - x / u\<bar> * u \<le> 1 / 2 * u"
    using upos by (intro mult_right_mono) simp_all
  moreover have "\<bar>of_int (round_half_even (x / u)) - x / u\<bar> * u = \<bar>y - x\<bar>"
  proof -
    have "y - x = (of_int (round_half_even (x / u)) - x / u) * u"
      using upos by (simp add: y field_simps)
    then show ?thesis using upos by (simp add: abs_mult)
  qed
  ultimately have err: "\<bar>y - x\<bar> \<le> u / 2" by simp
  show ?thesis
  proof (cases "- 1074 \<le> \<lfloor>log 2 \<bar>x\<bar>\<rfloor> - 52")
    case True
    then have "q = \<lfloor>log 2 \<bar>x\<bar>\<rfloor> - 52" by (simp add: q_def ulp_exponent_def)
    then have "u * 2 ^ 52 = 2 powi \<lfloor>log 2 \<bar>x\<bar>\<rfloor>"
      by (simp add: u_def power_int_diff)
    also have "\<dots> \<le> \<bar>x\<bar>" using binade_bounds(1) [OF False] .
    finally have "u / 2 \<le> \<bar>x\<bar> / 2 ^ 53" by (simp add: field_simps)
    moreover have "(0::real) \<le> 1 / 2 ^ 1075" by simp
    ultimately show ?thesis using err by linarith
  next
    case False
    then have "q = - 1074" by (simp add: q_def ulp_exponent_def)
    then have "u / 2 = 1 / 2 ^ 1075"
      by (simp add: u_def power_int_minus field_simps)
    moreover have "0 \<le> \<bar>x\<bar> / 2 ^ 53" by simp
    ultimately show ?thesis using err by linarith
  qed
qed

lemma round64_sign:
  assumes "round64 x = Num y"
  shows "(0 \<le> x \<longrightarrow> 0 \<le> y) \<and> (x \<le> 0 \<longrightarrow> y \<le> 0)"
proof (cases "x = 0")
  case True
  with assms show ?thesis by simp
next
  case False
  define u :: real where "u = 2 powi ulp_exponent x"
  have upos: "0 < u" by (simp add: u_def)
  have y: "y = of_int (round_half_even (x / u)) * u"
    using assms False by (simp add: round64_def Let_def u_def split: if_splits)
  show ?thesis
  proof (intro conjI impI)
    assume "0 \<le> x"
    then have "0 \<le> round_half_even (x / u)" using upos by (intro round_half_even_nonneg) simp
    then show "0 \<le> y" using upos by (simp add: y)
  next
    assume "x \<le> 0"
    then have "round_half_even (x / u) \<le> 0"
      using upos by (intro round_half_even_nonpos) (simp add: divide_nonpos_pos)
    then show "y \<le> 0" using upos by (simp add: y mult_nonpos_nonneg)
  qed
qed

lemma round64_normalI:
  assumes "z = of_int m * u" and "u = 2 powi q" and "- 1074 \<le> q"
    and "2 ^ 52 * u \<le> \<bar>x\<bar>" and "\<bar>x\<bar> < 2 ^ 53 * u"
    and "\<bar>x - of_int m * u\<bar> < u / 2"
    and "\<bar>of_int m * u\<bar> < 2 ^ 1024"
  shows "round64 x = Num z"
  unfolding assms(1) using assms(2-) by (rule round64_normal)

lemma round64_sqrtI:
  assumes z: "z = of_int m * u" and u: "u = 2 powi q" and q: "- 1074 \<le> q"
    and lo: "(2 ^ 52 * u)\<^sup>2 \<le> X" and hi: "X < (2 ^ 53 * u)\<^sup>2"
    and below: "((of_int m - 1 / 2) * u)\<^sup>2 < X" and above: "X < ((of_int m + 1 / 2) * u)\<^sup>2"
    and m: "1 \<le> m"
    and fin: "\<bar>of_int m * u\<bar> < 2 ^ 1024"
  shows "round64 (sqrt X) = Num z"
proof -
  have upos: "0 < u" unfolding u by simp
  have m1: "(1::real) \<le> of_int m" using m by simp
  have a: "2 ^ 52 * u \<le> sqrt X"
    using lo upos by (intro real_le_rsqrt) simp
  have b: "sqrt X < 2 ^ 53 * u"
    using hi upos by (intro real_less_lsqrt) simp_all
  have c: "(of_int m - 1 / 2) * u < sqrt X"
    using below by (intro real_less_rsqrt) simp
  have d: "sqrt X < (of_int m + 1 / 2) * u"
    using above upos m1 by (intro real_less_lsqrt) simp_all
  have "0 < 2 ^ 52 * u" using upos by simp
  then have pos: "0 \<le> sqrt X" using a by linarith
  define t where "t = of_int m * u"
  define s where "s = sqrt X"
  have "(of_int m - 1 / 2) * u = t - u / 2" "(of_int m + 1 / 2) * u = t + u / 2"
    by (simp_all add: algebra_simps t_def)
  with c d have "t - u / 2 < s" "s < t + u / 2" by (simp_all add: s_def)
  then have "\<bar>s - t\<bar> < u / 2" by linarith
  then have near: "\<bar>sqrt X - of_int m * u\<bar> < u / 2" by (simp add: s_def t_def)
  show ?thesis
    by (rule round64_normalI [OF z u q _ _ near fin]) (use a b pos in simp_all)
qed

text \<open>Without rounding the functions are the idealised ones.\<close>

lemma fl_exact [simp]:
  "fl_add Num a b = js_add a b" "fl_sub Num a b = js_sub a b" "fl_mul Num a b = js_mul a b"
  "fl_div Num a b = js_div a b" "fl_sqrt Num a = js_sqrt a"
  by (cases a; cases b; simp add: fl_add_def fl_sub_def fl_mul_def fl_div_def fl_sqrt_def js_sub_def)+

lemma vector_fl_exact [simp]:
  "addVectors_fl Num a b = addVectors a b" "subVectors_fl Num a b = subVectors a b"
  "multiplyScalar_fl Num a s = multiplyScalar a s" "divideScalar_fl Num a s = divideScalar a s"
  "vlength_fl Num a = vlength a" "normalize_fl Num a = normalize_vec a"
  by (simp_all add: addVectors_fl_def subVectors_fl_def multiplyScalar_fl_def divideScalar_fl_def
        vlength_fl_def normalize_fl_def addVectors_def subVectors_def multiplyScalar_def
        divideScalar_def vlength_def normalize_vec_def)

lemma satisfy_fl_exact: "satisfy_fl Num c ps = satisfy c ps"
  by (simp add: satisfy_fl_def satisfy_def Let_def)

lemma addForce_fl_exact [simp]: "addForce_fl Num f p = addForce f p"
  by (simp add: addForce_fl_def addForce_def Let_def)

lemma accumulate_forces_fl_exact [simp]: "accumulate_forces_fl Num wind p = accumulate_forces wind p"
  by (simp add: accumulate_forces_fl_def accumulate_forces_def gravity_def)

lemma constants_fl_exact [simp]: "DRAG_fl Num = DRAG" "timeStep_fl Num = timeStep"
  by (simp_all add: DRAG_fl_def DRAG_def DAMPING_def timeStep_fl_def timeStep_def)

lemma verlet_newPos_fl_exact [simp]: "verlet_newPos_fl Num p = verlet_newPos p"
  by (simp add: verlet_newPos_fl_def verlet_newPos_def)

lemma integrate_fl_exact [simp]: "integrate_fl Num p = integrate p"
  by (simp add: integrate_fl_def integrate_def Let_def)

lemma step_particle_fl_exact: "step_particle_fl Num wind p = step_particle wind p"
  by (simp add: step_particle_fl_def step_particle_def)

text \<open>A finite result has finite operands, and is the rounded exact result.\<close>

lemma val_Num [simp]: "val (Num x) = x"
  by (simp add: val_def)

lemma fl_add_Num:
  assumes "fl_add round64 a b = Num z"
  shows "\<exists>x y. a = Num x \<and> b = Num y \<and> round64 (x + y) = Num z"
  using assms by (cases a; cases b; simp add: fl_add_def)

lemma fl_sub_Num:
  assumes "fl_sub round64 a b = Num z"
  shows "\<exists>x y. a = Num x \<and> b = Num y \<and> round64 (x - y) = Num z"
  using assms by (cases a; cases b; simp add: fl_sub_def fl_add_def)

lemma fl_mul_Num:
  assumes "fl_mul round64 a b = Num z"
  shows "\<exists>x y. a = Num x \<and> b = Num y \<and> round64 (x * y) = Num z"
  using assms by (cases a; cases b; simp add: fl_mul_def split: if_splits)

lemma coordinate_drift:
  assumes a: "fl_add round64 a h = Num a'" and b: "fl_sub round64 b h = Num b'"
  shows "\<bar>(a' + b') - (val a + val b)\<bar> \<le> (\<bar>val a + val h\<bar> + \<bar>val b - val h\<bar>) / 2 ^ 53 + 1 / 2 ^ 1074"
proof -
  from fl_add_Num [OF a] obtain x k where ax: "a = Num x" and hk: "h = Num k"
    and ra: "round64 (x + k) = Num a'" by blast
  from fl_sub_Num [OF b] hk obtain y where by': "b = Num y" and rb: "round64 (y - k) = Num b'"
    by auto
  have e1: "\<bar>a' - (x + k)\<bar> \<le> \<bar>x + k\<bar> / 2 ^ 53 + 1 / 2 ^ 1075" by (rule round64_error [OF ra])
  have e2: "\<bar>b' - (y - k)\<bar> \<le> \<bar>y - k\<bar> / 2 ^ 53 + 1 / 2 ^ 1075" by (rule round64_error [OF rb])
  have "(a' + b') - (x + y) = (a' - (x + k)) + (b' - (y - k))" by simp
  then have "\<bar>(a' + b') - (x + y)\<bar> \<le> \<bar>a' - (x + k)\<bar> + \<bar>b' - (y - k)\<bar>" by linarith
  also have "\<dots> \<le> (\<bar>x + k\<bar> / 2 ^ 53 + 1 / 2 ^ 1075) + (\<bar>y - k\<bar> / 2 ^ 53 + 1 / 2 ^ 1075)"
    using e1 e2 by linarith
  also have "\<dots> = (\<bar>x + k\<bar> + \<bar>y - k\<bar>) / 2 ^ 53 + 1 / 2 ^ 1074"
    by (simp add: add_divide_distrib)
  finally show ?thesis by (simp add: ax by' hk)
qed

lemma vlength_fl_self_diff:
  "vlength_fl round64 (subVectors_fl round64 v v) = Num 0 \<or>
   vlength_fl round64 (subVectors_fl round64 v v) = NaN"
proof -
  obtain x y z where v: "v = Vector3 x y z" by (cases v)
  show ?thesis unfolding v vlength_fl_def subVectors_fl_def
    by (cases x; cases y; cases z; simp add: fl_sub_def fl_add_def fl_mul_def fl_sqrt_def)
qed

lemma satisfy_fl_degenerate:
  "vlength_fl rnd (subVectors_fl rnd (position (ps ! p2 c)) (position (ps ! p1 c))) = Num 0 \<or>
   isNaN (vlength_fl rnd (subVectors_fl rnd (position (ps ! p2 c)) (position (ps ! p1 c))))
   \<Longrightarrow> satisfy_fl rnd c ps = ps"
  by (simp add: satisfy_fl_def)

lemma satisfy_fl_moves:
  assumes d: "\<not> (vlength_fl rnd (subVectors_fl rnd (position (ps ! p2 c)) (position (ps ! p1 c))) = Num 0 \<or>
   isNaN (vlength_fl rnd (subVectors_fl rnd (position (ps ! p2 c)) (position (ps ! p1 c)))))"
    and i: "p1 c < length ps" and j: "p2 c < length ps" and ne: "p1 c \<noteq> p2 c"
  shows "satisfy_fl rnd c ps ! p1 c =
           (if pinned (ps ! p1 c) then ps ! p1 c
            else (ps ! p1 c)\<lparr>position := addVectors_fl rnd (position (ps ! p1 c)) (correctionHalf_fl rnd c ps)\<rparr>)"
    and "satisfy_fl rnd c ps ! p2 c =
           (if pinned (ps ! p2 c) then ps ! p2 c
            else (ps ! p2 c)\<lparr>position := subVectors_fl rnd (position (ps ! p2 c)) (correctionHalf_fl rnd c ps)\<rparr>)"
  using d i j ne by (simp_all add: satisfy_fl_def Let_def correctionHalf_fl_def)

lemma finite3_coords:
  assumes "finite3 v"
  shows "\<exists>a b c. vx v = Num a \<and> vy v = Num b \<and> vz v = Num c"
  using finite3_Num [OF assms] by auto

subsection \<open>The Euclidean length under rounding\<close>

lemma nrm_nonneg: "0 \<le> nrm a b c"
  by (simp add: nrm_def)

lemma nrm_triangle: "nrm (a + x) (b + y) (c + z) \<le> nrm a b c + nrm x y z"
proof -
  let ?r1 = "sqrt (a\<^sup>2 + b\<^sup>2)" and ?r2 = "sqrt (x\<^sup>2 + y\<^sup>2)"
  have "sqrt ((a + x)\<^sup>2 + (b + y)\<^sup>2) \<le> ?r1 + ?r2"
    by (rule real_sqrt_sum_squares_triangle_ineq)
  then have "(sqrt ((a + x)\<^sup>2 + (b + y)\<^sup>2))\<^sup>2 \<le> (?r1 + ?r2)\<^sup>2"
    by (rule power_mono) simp
  then have "(a + x)\<^sup>2 + (b + y)\<^sup>2 + (c + z)\<^sup>2 \<le> (?r1 + ?r2)\<^sup>2 + (c + z)\<^sup>2"
    by simp
  then have "nrm (a + x) (b + y) (c + z) \<le> sqrt ((?r1 + ?r2)\<^sup>2 + (c + z)\<^sup>2)"
    unfolding nrm_def by (rule real_sqrt_le_mono)
  also have "\<dots> \<le> sqrt (?r1\<^sup>2 + c\<^sup>2) + sqrt (?r2\<^sup>2 + z\<^sup>2)"
    by (rule real_sqrt_sum_squares_triangle_ineq)
  also have "\<dots> = nrm a b c + nrm x y z"
    by (simp add: nrm_def)
  finally show ?thesis .
qed

lemma nrm_scale: "nrm (k * a) (k * b) (k * c) = \<bar>k\<bar> * nrm a b c"
proof -
  have "(k * a)\<^sup>2 + (k * b)\<^sup>2 + (k * c)\<^sup>2 = k\<^sup>2 * (a\<^sup>2 + b\<^sup>2 + c\<^sup>2)"
    by (simp add: power_mult_distrib distrib_left)
  then show ?thesis by (simp add: nrm_def real_sqrt_mult)
qed

lemma nrm_abs: "nrm \<bar>a\<bar> \<bar>b\<bar> \<bar>c\<bar> = nrm a b c"
  by (simp add: nrm_def)

lemma square_mono_abs:
  fixes a x :: real
  assumes "\<bar>a\<bar> \<le> x"
  shows "a\<^sup>2 \<le> x\<^sup>2"
proof -
  have "\<bar>a\<bar> \<le> \<bar>x\<bar>" using assms by linarith
  then show ?thesis by (simp add: abs_le_square_iff)
qed

lemma nrm_mono:
  assumes "\<bar>a\<bar> \<le> x" and "\<bar>b\<bar> \<le> y" and "\<bar>c\<bar> \<le> z"
  shows "nrm a b c \<le> nrm x y z"
proof -
  have "a\<^sup>2 + b\<^sup>2 + c\<^sup>2 \<le> x\<^sup>2 + y\<^sup>2 + z\<^sup>2"
    using square_mono_abs [OF assms(1)] square_mono_abs [OF assms(2)] square_mono_abs [OF assms(3)]
    by linarith
  then show ?thesis unfolding nrm_def by (rule real_sqrt_le_mono)
qed

lemma nrm_const:
  assumes "0 \<le> h"
  shows "nrm h h h \<le> 2 * h"
proof -
  have "h\<^sup>2 + h\<^sup>2 + h\<^sup>2 \<le> (2 * h)\<^sup>2"
    by (simp add: power_mult_distrib)
  then have "nrm h h h \<le> sqrt ((2 * h)\<^sup>2)"
    unfolding nrm_def by (rule real_sqrt_le_mono)
  also have "\<dots> = 2 * h" using assms by (simp only: real_sqrt_abs)
  finally show ?thesis .
qed

lemma nrm_zero [simp]: "nrm 0 0 0 = 0"
  by (simp add: nrm_def)

lemma nrm_perturb:
  assumes e1: "\<bar>x1 - y1\<bar> \<le> e * \<bar>w1\<bar> + h" and e2: "\<bar>x2 - y2\<bar> \<le> e * \<bar>w2\<bar> + h"
    and e3: "\<bar>x3 - y3\<bar> \<le> e * \<bar>w3\<bar> + h" and e: "0 \<le> e" and h: "0 \<le> h"
  shows "nrm x1 x2 x3 \<le> nrm y1 y2 y3 + e * nrm w1 w2 w3 + 2 * h"
proof -
  have "nrm x1 x2 x3 = nrm (y1 + (x1 - y1)) (y2 + (x2 - y2)) (y3 + (x3 - y3))" by simp
  also have "\<dots> \<le> nrm y1 y2 y3 + nrm (x1 - y1) (x2 - y2) (x3 - y3)"
    by (rule nrm_triangle)
  also have "nrm (x1 - y1) (x2 - y2) (x3 - y3) \<le> nrm (e * \<bar>w1\<bar> + h) (e * \<bar>w2\<bar> + h) (e * \<bar>w3\<bar> + h)"
    by (rule nrm_mono [OF e1 e2 e3])
  also have "nrm (e * \<bar>w1\<bar> + h) (e * \<bar>w2\<bar> + h) (e * \<bar>w3\<bar> + h)
      \<le> nrm (e * \<bar>w1\<bar>) (e * \<bar>w2\<bar>) (e * \<bar>w3\<bar>) + nrm h h h"
    by (rule nrm_triangle)
  also have "nrm (e * \<bar>w1\<bar>) (e * \<bar>w2\<bar>) (e * \<bar>w3\<bar>) = e * nrm w1 w2 w3"
    using e by (simp add: nrm_scale nrm_abs)
  also have "nrm h h h \<le> 2 * h" by (rule nrm_const [OF h])
  finally show ?thesis by simp
qed

lemma length_core:
  fixes a b c sa sb sc t S l e h :: real
  assumes e: "0 \<le> e" "e \<le> 1" and h: "0 \<le> h"
    and sa: "\<bar>sa - a\<^sup>2\<bar> \<le> e * a\<^sup>2 + h" and sb: "\<bar>sb - b\<^sup>2\<bar> \<le> e * b\<^sup>2 + h"
    and sc: "\<bar>sc - c\<^sup>2\<bar> \<le> e * c\<^sup>2 + h"
    and nn: "0 \<le> sa" "0 \<le> sb" "0 \<le> sc" "0 \<le> t" "0 \<le> S"
    and t: "\<bar>t - (sa + sb)\<bar> \<le> e * (sa + sb) + h"
    and S: "\<bar>S - (t + sc)\<bar> \<le> e * (t + sc) + h"
    and l: "\<bar>l - sqrt S\<bar> \<le> e * sqrt S + h"
  shows "(1 - e) ^ 3 * nrm a b c \<le> l + h + sqrt (5 * h)"
proof -
  define w where "w = 1 - e"
  define N2 where "N2 = a\<^sup>2 + b\<^sup>2 + c\<^sup>2"
  have w: "0 \<le> w" "w \<le> 1" using e by (simp_all add: w_def)
  have N2: "0 \<le> N2" by (simp add: N2_def)
  have ew: "e = 1 - w" by (simp add: w_def)
  have s1: "w * N2 - 3 * h \<le> sa + sb + sc"
  proof -
    have "w * N2 = (a\<^sup>2 - e * a\<^sup>2) + (b\<^sup>2 - e * b\<^sup>2) + (c\<^sup>2 - e * c\<^sup>2)"
      by (simp add: w_def N2_def algebra_simps)
    then show ?thesis using sa sb sc by linarith
  qed
  have wsc: "w * sc \<le> sc" using w nn(3) by (simp add: mult_left_le_one_le)
  have wh: "w * h \<le> h" using w h by (simp add: mult_left_le_one_le)
  have s2: "w\<^sup>2 * N2 - 4 * h \<le> t + sc"
  proof -
    have "w * (w * N2 - 3 * h) \<le> w * (sa + sb + sc)"
      using s1 w(1) by (rule mult_left_mono)
    then have "w\<^sup>2 * N2 - 3 * (w * h) \<le> w * (sa + sb) + w * sc"
      by (simp add: algebra_simps power2_eq_square)
    moreover have "w * (sa + sb) - h \<le> t"
    proof -
      have "w * (sa + sb) = (sa + sb) - e * (sa + sb)" by (simp add: w_def algebra_simps)
      then show ?thesis using t by linarith
    qed
    ultimately show ?thesis using wsc wh by linarith
  qed
  have s3: "w ^ 3 * N2 - 5 * h \<le> S"
  proof -
    have "w * (w\<^sup>2 * N2 - 4 * h) \<le> w * (t + sc)"
      using s2 w(1) by (rule mult_left_mono)
    then have "w ^ 3 * N2 - 4 * (w * h) \<le> w * (t + sc)"
      by (simp add: algebra_simps power2_eq_square power3_eq_cube)
    moreover have "w * (t + sc) - h \<le> S"
    proof -
      have "w * (t + sc) = (t + sc) - e * (t + sc)" by (simp add: w_def algebra_simps)
      then show ?thesis using S by linarith
    qed
    ultimately show ?thesis using wh by linarith
  qed
  have "(w\<^sup>2 * nrm a b c)\<^sup>2 = w * (w ^ 3 * N2)"
    by (simp add: nrm_def N2_def power_mult_distrib power2_eq_square power3_eq_cube)
  also have "\<dots> \<le> 1 * (w ^ 3 * N2)"
    using w N2 by (intro mult_right_mono) simp_all
  also have "\<dots> \<le> S + 5 * h" using s3 by simp
  finally have "sqrt ((w\<^sup>2 * nrm a b c)\<^sup>2) \<le> sqrt (S + 5 * h)"
    by (rule real_sqrt_le_mono)
  then have "w\<^sup>2 * nrm a b c \<le> sqrt (S + 5 * h)"
    using w nrm_nonneg [of a b c] by simp
  also have "\<dots> \<le> sqrt S + sqrt (5 * h)"
    using nn(5) h by (intro sqrt_add_le_add_sqrt) simp_all
  finally have r: "w\<^sup>2 * nrm a b c \<le> sqrt S + sqrt (5 * h)" .
  have "w * (w\<^sup>2 * nrm a b c) \<le> w * (sqrt S + sqrt (5 * h))"
    using r w(1) by (rule mult_left_mono)
  moreover have "w * sqrt (5 * h) \<le> sqrt (5 * h)"
    using w h by (simp add: mult_left_le_one_le)
  moreover have "w * sqrt S - h \<le> l"
  proof -
    have "w * sqrt S = sqrt S - e * sqrt S" by (simp add: w_def algebra_simps)
    then show ?thesis using l by linarith
  qed
  moreover have "w * (w\<^sup>2 * nrm a b c) = w ^ 3 * nrm a b c"
    by (simp only: power2_eq_square power3_eq_cube mult.assoc)
  moreover have "w * (sqrt S + sqrt (5 * h)) = w * sqrt S + w * sqrt (5 * h)"
    by (rule distrib_left)
  ultimately have "w ^ 3 * nrm a b c \<le> l + h + sqrt (5 * h)"
    by linarith
  then show ?thesis by (simp add: w_def)
qed

lemma round64_cases: "(\<exists>y. round64 x = Num y) \<or> round64 x = PInf \<or> round64 x = NInf"
  by (simp add: round64_def Let_def)

lemma round64_bounded:
  assumes "round64 x = Num y"
  shows "\<bar>y\<bar> < 2 ^ 1024"
  using assms by (simp add: round64_def Let_def split: if_splits)

lemma round64_nonneg:
  assumes "0 \<le> x"
  shows "nonneg_or_PInf (round64 x)"
proof (cases "round64 x")
  case (Num y)
  with round64_sign [of x y] assms show ?thesis by simp
next
  case PInf
  then show ?thesis by simp
next
  case NInf
  with assms show ?thesis by (simp add: round64_def Let_def split: if_splits)
next
  case NaN
  with round64_cases [of x] show ?thesis by simp
qed

lemma fl_mul_self_nonneg: "c \<noteq> NaN \<Longrightarrow> nonneg_or_PInf (fl_mul round64 c c)"
  by (cases c) (simp_all add: fl_mul_def round64_nonneg)

lemma fl_add_nonneg:
  "nonneg_or_PInf a \<Longrightarrow> nonneg_or_PInf b \<Longrightarrow> nonneg_or_PInf (fl_add round64 a b)"
  by (cases a; cases b) (simp_all add: fl_add_def round64_nonneg)

lemma fl_sqrt_nonneg: "nonneg_or_PInf a \<Longrightarrow> nonneg_or_PInf (fl_sqrt round64 a)"
  by (cases a) (simp_all add: fl_sqrt_def round64_nonneg)

lemma vlength_fl_nonneg:
  assumes "vx d \<noteq> NaN" and "vy d \<noteq> NaN" and "vz d \<noteq> NaN"
  shows "nonneg_or_PInf (vlength_fl round64 d)"
  unfolding vlength_fl_def
  by (intro fl_sqrt_nonneg fl_add_nonneg fl_mul_self_nonneg assms)

lemma fl_sqrt_Num:
  assumes "fl_sqrt round64 a = Num z"
  shows "\<exists>x. a = Num x \<and> 0 \<le> x \<and> round64 (sqrt x) = Num z"
  using assms by (cases a) (simp_all add: fl_sqrt_def split: if_splits)

lemma round64_relative:
  assumes "round64 x = Num y"
  shows "\<bar>y - x\<bar> \<le> (1 / 2 ^ 53) * \<bar>x\<bar> + 1 / 2 ^ 1075"
  using round64_error [OF assms] by simp

lemma sqrt_tiny: "1 / 2 ^ 1075 + sqrt (5 * (1 / 2 ^ 1075)) \<le> (1 / 2 ^ 535 :: real)"
proof -
  have "(5 * (1 / 2 ^ 1075) :: real) \<le> (1 / 2 ^ 536)\<^sup>2"
    by (simp add: power_divide)
  then have "sqrt (5 * (1 / 2 ^ 1075)) \<le> sqrt ((1 / 2 ^ 536 :: real)\<^sup>2)"
    by (rule real_sqrt_le_mono)
  also have "\<dots> = 1 / 2 ^ 536" by (simp only: real_sqrt_abs) simp
  finally have "sqrt (5 * (1 / 2 ^ 1075)) \<le> (1 / 2 ^ 536 :: real)" .
  moreover have "(1 / 2 ^ 1075 + 1 / 2 ^ 536 :: real) \<le> 1 / 2 ^ 535" by simp
  ultimately show ?thesis by linarith
qed

lemma vlength_fl_Num:
  assumes "vlength_fl round64 d = Num l"
  shows "\<exists>a b c. d = Vector3 (Num a) (Num b) (Num c) \<and> 0 \<le> l \<and> l < 2 ^ 1024 \<and>
           (1 - 1 / 2 ^ 53) ^ 3 * nrm a b c \<le> l + 1 / 2 ^ 535"
proof -
  obtain d1 d2 d3 where d: "d = Vector3 d1 d2 d3" by (cases d)
  define e :: real where "e = 1 / 2 ^ 53"
  define h :: real where "h = 1 / 2 ^ 1075"
  from assms obtain S where S: "fl_add round64 (fl_add round64 (fl_mul round64 d1 d1) (fl_mul round64 d2 d2))
        (fl_mul round64 d3 d3) = Num S" and S0: "0 \<le> S" and l: "round64 (sqrt S) = Num l"
    unfolding d vlength_fl_def using fl_sqrt_Num by fastforce
  from fl_add_Num [OF S] obtain t sc where t: "fl_add round64 (fl_mul round64 d1 d1) (fl_mul round64 d2 d2) = Num t"
    and sc: "fl_mul round64 d3 d3 = Num sc" and rS: "round64 (t + sc) = Num S" by blast
  from fl_add_Num [OF t] obtain sa sb where sa: "fl_mul round64 d1 d1 = Num sa"
    and sb: "fl_mul round64 d2 d2 = Num sb" and rt: "round64 (sa + sb) = Num t" by blast
  from fl_mul_Num [OF sa] obtain a where a: "d1 = Num a" and ra: "round64 (a * a) = Num sa" by auto
  from fl_mul_Num [OF sb] obtain b where b: "d2 = Num b" and rb: "round64 (b * b) = Num sb" by auto
  from fl_mul_Num [OF sc] obtain c where c: "d3 = Num c" and rc: "round64 (c * c) = Num sc" by auto
  have nn: "0 \<le> sa" "0 \<le> sb" "0 \<le> sc"
    using round64_sign [OF ra] round64_sign [OF rb] round64_sign [OF rc] by simp_all
  have t0: "0 \<le> t" using round64_sign [OF rt] nn by simp
  have l0: "0 \<le> l" using round64_sign [OF l] S0 by simp
  have ea: "\<bar>sa - a\<^sup>2\<bar> \<le> e * a\<^sup>2 + h"
    using round64_relative [OF ra] by (simp add: e_def h_def power2_eq_square)
  have eb: "\<bar>sb - b\<^sup>2\<bar> \<le> e * b\<^sup>2 + h"
    using round64_relative [OF rb] by (simp add: e_def h_def power2_eq_square)
  have ec: "\<bar>sc - c\<^sup>2\<bar> \<le> e * c\<^sup>2 + h"
    using round64_relative [OF rc] by (simp add: e_def h_def power2_eq_square)
  have et: "\<bar>t - (sa + sb)\<bar> \<le> e * (sa + sb) + h"
    using round64_relative [OF rt] nn by (simp add: e_def h_def)
  have eS: "\<bar>S - (t + sc)\<bar> \<le> e * (t + sc) + h"
    using round64_relative [OF rS] nn t0 by (simp add: e_def h_def)
  have el: "\<bar>l - sqrt S\<bar> \<le> e * sqrt S + h"
    using round64_relative [OF l] S0 by (simp add: e_def h_def)
  have "(1 - e) ^ 3 * nrm a b c \<le> l + h + sqrt (5 * h)"
    by (rule length_core [OF _ _ _ ea eb ec nn t0 S0 et eS el]) (simp_all add: e_def h_def)
  moreover have "h + sqrt (5 * h) \<le> 1 / 2 ^ 535"
    unfolding h_def by (rule sqrt_tiny)
  ultimately have "(1 - e) ^ 3 * nrm a b c \<le> l + 1 / 2 ^ 535" by linarith
  moreover have "l < 2 ^ 1024" using round64_bounded [OF l] by simp
  ultimately show ?thesis using l0 by (simp add: d a b c e_def)
qed

lemma subVectors_fl_Num:
  "subVectors_fl round64 (Vector3 (Num r1) (Num r2) (Num r3)) (Vector3 (Num x1) (Num x2) (Num x3))
     = Vector3 (round64 (r1 - x1)) (round64 (r2 - x2)) (round64 (r3 - x3))"
  by (simp add: subVectors_fl_def fl_sub_def fl_add_def)

lemma round64_not_NaN: "round64 x \<noteq> NaN"
  using round64_cases [of x] by auto

lemma keep_numeric: "(5 + 1 / 2 ^ 535 + 2 * (1 / 2 ^ 1075) :: real) \<le> (5 + 1 / 2 ^ 45) * (1 - 1 / 2 ^ 53) ^ 4"
  by (simp add: power_divide)

lemma keep_bound:
  assumes ng: "\<not> js_gt (vlength_fl round64 (subVectors_fl round64 (Vector3 (Num r1) (Num r2) (Num r3))
                  (Vector3 (Num x1) (Num x2) (Num x3)))) (Num 5)"
  shows "nrm (r1 - x1) (r2 - x2) (r3 - x3) \<le> 5 + 1 / 2 ^ 45"
proof -
  define e :: real where "e = 1 / 2 ^ 53"
  define h :: real where "h = 1 / 2 ^ 1075"
  define w :: real where "w = 1 - e"
  define d where "d = Vector3 (round64 (r1 - x1)) (round64 (r2 - x2)) (round64 (r3 - x3))"
  have ng': "\<not> js_gt (vlength_fl round64 d) (Num 5)"
    using ng by (simp add: subVectors_fl_Num d_def)
  have "nonneg_or_PInf (vlength_fl round64 d)"
    by (rule vlength_fl_nonneg) (simp_all add: d_def round64_not_NaN)
  with ng' obtain l where l: "vlength_fl round64 d = Num l" and l5: "l \<le> 5"
    by (cases "vlength_fl round64 d") simp_all
  from vlength_fl_Num [OF l] obtain a b c where dd: "d = Vector3 (Num a) (Num b) (Num c)"
    and K: "(1 - 1 / 2 ^ 53) ^ 3 * nrm a b c \<le> l + 1 / 2 ^ 535" by blast
  have ra: "round64 (r1 - x1) = Num a" and rb: "round64 (r2 - x2) = Num b"
    and rc: "round64 (r3 - x3) = Num c"
    using dd by (simp_all add: d_def)
  have e1: "\<bar>(r1 - x1) - a\<bar> \<le> e * \<bar>r1 - x1\<bar> + h"
    using round64_relative [OF ra] by (simp add: e_def h_def abs_minus_commute)
  have e2: "\<bar>(r2 - x2) - b\<bar> \<le> e * \<bar>r2 - x2\<bar> + h"
    using round64_relative [OF rb] by (simp add: e_def h_def abs_minus_commute)
  have e3: "\<bar>(r3 - x3) - c\<bar> \<le> e * \<bar>r3 - x3\<bar> + h"
    using round64_relative [OF rc] by (simp add: e_def h_def abs_minus_commute)
  define C where "C = nrm (r1 - x1) (r2 - x2) (r3 - x3)"
  define D where "D = nrm a b c"
  have "C \<le> D + e * C + 2 * h"
    unfolding C_def D_def by (rule nrm_perturb [OF e1 e2 e3]) (simp_all add: e_def h_def)
  then have wc: "w * C \<le> D + 2 * h" by (simp add: w_def algebra_simps)
  have w: "0 \<le> w" "w \<le> 1" "0 < w" by (simp_all add: w_def e_def)
  have w3: "0 \<le> w ^ 3" "w ^ 3 \<le> 1" using w by (simp_all add: power_le_one)
  have KD: "w ^ 3 * D \<le> 5 + 1 / 2 ^ 535" using K l5 by (simp add: w_def e_def D_def)
  have "w ^ 3 * (w * C) \<le> w ^ 3 * (D + 2 * h)"
    using wc w3(1) by (rule mult_left_mono)
  also have "\<dots> = w ^ 3 * D + w ^ 3 * (2 * h)" by (rule distrib_left)
  also have "w ^ 3 * (2 * h) \<le> 1 * (2 * h)"
    using w3(2) by (rule mult_right_mono) (simp add: h_def)
  finally have "w ^ 3 * (w * C) \<le> 5 + 1 / 2 ^ 535 + 2 * h" using KD by simp
  moreover have "w ^ 3 * (w * C) = C * w ^ 4" by (simp add: power3_eq_cube power4_eq_xxxx)
  moreover have "5 + 1 / 2 ^ 535 + 2 * h \<le> (5 + 1 / 2 ^ 45) * w ^ 4"
    unfolding h_def w_def e_def by (rule keep_numeric)
  ultimately have "C * w ^ 4 \<le> (5 + 1 / 2 ^ 45) * w ^ 4" by linarith
  moreover have "0 < w ^ 4" using w(3) by simp
  ultimately have "C \<le> 5 + 1 / 2 ^ 45" by (simp only: mult_le_cancel_right_pos)
  then show ?thesis by (simp add: C_def)
qed

lemma nrm_error:
  assumes e1: "\<bar>x1 - y1\<bar> \<le> e * \<bar>w1\<bar> + h" and e2: "\<bar>x2 - y2\<bar> \<le> e * \<bar>w2\<bar> + h"
    and e3: "\<bar>x3 - y3\<bar> \<le> e * \<bar>w3\<bar> + h" and e: "0 \<le> e" and h: "0 \<le> h"
  shows "nrm (x1 - y1) (x2 - y2) (x3 - y3) \<le> e * nrm w1 w2 w3 + 2 * h"
proof -
  have "nrm (x1 - y1) (x2 - y2) (x3 - y3) \<le> nrm (e * \<bar>w1\<bar> + h) (e * \<bar>w2\<bar> + h) (e * \<bar>w3\<bar> + h)"
    by (rule nrm_mono [OF e1 e2 e3])
  also have "\<dots> \<le> nrm (e * \<bar>w1\<bar>) (e * \<bar>w2\<bar>) (e * \<bar>w3\<bar>) + nrm h h h"
    by (rule nrm_triangle)
  also have "nrm (e * \<bar>w1\<bar>) (e * \<bar>w2\<bar>) (e * \<bar>w3\<bar>) = e * nrm w1 w2 w3"
    using e by (simp add: nrm_scale nrm_abs)
  also have "nrm h h h \<le> 2 * h" by (rule nrm_const [OF h])
  finally show ?thesis by simp
qed

lemma length_core_upper:
  fixes a b c sa sb sc t S l e h :: real
  assumes e: "0 \<le> e" "e \<le> 1 / 4" and h: "0 \<le> h"
    and sa: "\<bar>sa - a\<^sup>2\<bar> \<le> e * a\<^sup>2 + h" and sb: "\<bar>sb - b\<^sup>2\<bar> \<le> e * b\<^sup>2 + h"
    and sc: "\<bar>sc - c\<^sup>2\<bar> \<le> e * c\<^sup>2 + h"
    and nn: "0 \<le> sa" "0 \<le> sb" "0 \<le> sc" "0 \<le> t" "0 \<le> S"
    and t: "\<bar>t - (sa + sb)\<bar> \<le> e * (sa + sb) + h"
    and S: "\<bar>S - (t + sc)\<bar> \<le> e * (t + sc) + h"
    and l: "\<bar>l - sqrt S\<bar> \<le> e * sqrt S + h"
  shows "l \<le> (1 + e) ^ 3 * nrm a b c + 2 * sqrt (8 * h) + h"
proof -
  define v where "v = 1 + e"
  define N2 where "N2 = a\<^sup>2 + b\<^sup>2 + c\<^sup>2"
  have v: "1 \<le> v" "v \<le> 5 / 4" "0 \<le> v" using e by (simp_all add: v_def)
  have N2: "0 \<le> N2" by (simp add: N2_def)
  have vh: "v * h \<le> 5 / 4 * h" using v(2) h by (rule mult_right_mono)
  have s1: "sa + sb + sc \<le> v * N2 + 3 * h"
  proof -
    have "v * N2 = (a\<^sup>2 + e * a\<^sup>2) + (b\<^sup>2 + e * b\<^sup>2) + (c\<^sup>2 + e * c\<^sup>2)"
      by (simp add: v_def N2_def algebra_simps)
    then show ?thesis using sa sb sc by linarith
  qed
  have "1 * sc \<le> v * sc" using v(1) nn(3) by (intro mult_right_mono)
  then have vsc: "sc \<le> v * sc" by simp
  have s2: "t + sc \<le> v\<^sup>2 * N2 + 5 * h"
  proof -
    have "v * (sa + sb + sc) \<le> v * (v * N2 + 3 * h)"
      using s1 v(3) by (rule mult_left_mono)
    then have "v * (sa + sb) + v * sc \<le> v\<^sup>2 * N2 + 3 * (v * h)"
      by (simp add: algebra_simps power2_eq_square)
    moreover have "t \<le> v * (sa + sb) + h"
    proof -
      have "v * (sa + sb) = (sa + sb) + e * (sa + sb)" by (simp add: v_def algebra_simps)
      then show ?thesis using t by linarith
    qed
    ultimately show ?thesis using vsc vh h by linarith
  qed
  have s3: "S \<le> v ^ 3 * N2 + 8 * h"
  proof -
    have "v * (t + sc) \<le> v * (v\<^sup>2 * N2 + 5 * h)"
      using s2 v(3) by (rule mult_left_mono)
    then have "v * (t + sc) \<le> v ^ 3 * N2 + 5 * (v * h)"
      by (simp add: algebra_simps power2_eq_square power3_eq_cube)
    moreover have "S \<le> v * (t + sc) + h"
    proof -
      have "v * (t + sc) = (t + sc) + e * (t + sc)" by (simp add: v_def algebra_simps)
      then show ?thesis using S by linarith
    qed
    ultimately show ?thesis using vh h by linarith
  qed
  have "0 \<le> v ^ 3 * N2" using v(3) N2 by simp
  then have "1 * (v ^ 3 * N2) \<le> v * (v ^ 3 * N2)"
    using v(1) by (intro mult_right_mono)
  then have "v ^ 3 * N2 \<le> v * (v ^ 3 * N2)" by simp
  also have "\<dots> = (v\<^sup>2 * nrm a b c)\<^sup>2"
    by (simp add: nrm_def N2_def power_mult_distrib power2_eq_square power3_eq_cube)
  finally have "S \<le> (v\<^sup>2 * nrm a b c)\<^sup>2 + 8 * h" using s3 by linarith
  then have "sqrt S \<le> sqrt ((v\<^sup>2 * nrm a b c)\<^sup>2 + 8 * h)"
    by (rule real_sqrt_le_mono)
  also have "\<dots> \<le> sqrt ((v\<^sup>2 * nrm a b c)\<^sup>2) + sqrt (8 * h)"
    using h by (intro sqrt_add_le_add_sqrt) simp_all
  also have "sqrt ((v\<^sup>2 * nrm a b c)\<^sup>2) = v\<^sup>2 * nrm a b c"
    using nrm_nonneg [of a b c] by simp
  finally have r: "sqrt S \<le> v\<^sup>2 * nrm a b c + sqrt (8 * h)" .
  have "v * sqrt S \<le> v * (v\<^sup>2 * nrm a b c + sqrt (8 * h))"
    using r v(3) by (rule mult_left_mono)
  also have "\<dots> = v ^ 3 * nrm a b c + v * sqrt (8 * h)"
    by (simp add: algebra_simps power2_eq_square power3_eq_cube)
  finally have "v * sqrt S \<le> v ^ 3 * nrm a b c + v * sqrt (8 * h)" .
  moreover have "v * sqrt (8 * h) \<le> 2 * sqrt (8 * h)"
    using v(2) h by (intro mult_right_mono) simp_all
  moreover have "l \<le> v * sqrt S + h"
  proof -
    have "v * sqrt S = sqrt S + e * sqrt S" by (simp add: v_def algebra_simps)
    then show ?thesis using l by linarith
  qed
  ultimately have "l \<le> v ^ 3 * nrm a b c + 2 * sqrt (8 * h) + h" by linarith
  then show ?thesis by (simp add: v_def)
qed

lemma sqrt_tiny_upper: "2 * sqrt (8 * (1 / 2 ^ 1075)) + 1 / 2 ^ 1075 \<le> (1 / 2 ^ 534 :: real)"
proof -
  have "(8 * (1 / 2 ^ 1075) :: real) \<le> (1 / 2 ^ 536)\<^sup>2"
    by (simp add: power_divide)
  then have "sqrt (8 * (1 / 2 ^ 1075)) \<le> sqrt ((1 / 2 ^ 536 :: real)\<^sup>2)"
    by (rule real_sqrt_le_mono)
  also have "\<dots> = 1 / 2 ^ 536" by (simp only: real_sqrt_abs) simp
  finally have "sqrt (8 * (1 / 2 ^ 1075)) \<le> (1 / 2 ^ 536 :: real)" .
  moreover have "(2 * (1 / 2 ^ 536) + 1 / 2 ^ 1075 :: real) \<le> 1 / 2 ^ 534" by simp
  ultimately show ?thesis by linarith
qed

lemma vlength_fl_upper:
  assumes "vlength_fl round64 (Vector3 (Num a) (Num b) (Num c)) = Num l"
  shows "l \<le> (1 + 1 / 2 ^ 53) ^ 3 * nrm a b c + 1 / 2 ^ 534"
proof -
  define e :: real where "e = 1 / 2 ^ 53"
  define h :: real where "h = 1 / 2 ^ 1075"
  from assms obtain S where S: "fl_add round64 (fl_add round64 (fl_mul round64 (Num a) (Num a))
        (fl_mul round64 (Num b) (Num b))) (fl_mul round64 (Num c) (Num c)) = Num S"
    and S0: "0 \<le> S" and l: "round64 (sqrt S) = Num l"
    unfolding vlength_fl_def using fl_sqrt_Num by fastforce
  from fl_add_Num [OF S] obtain t sc where
    t: "fl_add round64 (fl_mul round64 (Num a) (Num a)) (fl_mul round64 (Num b) (Num b)) = Num t"
    and sc: "fl_mul round64 (Num c) (Num c) = Num sc" and rS: "round64 (t + sc) = Num S" by blast
  from fl_add_Num [OF t] obtain sa sb where sa: "fl_mul round64 (Num a) (Num a) = Num sa"
    and sb: "fl_mul round64 (Num b) (Num b) = Num sb" and rt: "round64 (sa + sb) = Num t" by blast
  have ra: "round64 (a * a) = Num sa" using sa by (simp add: fl_mul_def)
  have rb: "round64 (b * b) = Num sb" using sb by (simp add: fl_mul_def)
  have rc: "round64 (c * c) = Num sc" using sc by (simp add: fl_mul_def)
  have nn: "0 \<le> sa" "0 \<le> sb" "0 \<le> sc"
    using round64_sign [OF ra] round64_sign [OF rb] round64_sign [OF rc] by simp_all
  have t0: "0 \<le> t" using round64_sign [OF rt] nn by simp
  have ea: "\<bar>sa - a\<^sup>2\<bar> \<le> e * a\<^sup>2 + h"
    using round64_relative [OF ra] by (simp add: e_def h_def power2_eq_square)
  have eb: "\<bar>sb - b\<^sup>2\<bar> \<le> e * b\<^sup>2 + h"
    using round64_relative [OF rb] by (simp add: e_def h_def power2_eq_square)
  have ec: "\<bar>sc - c\<^sup>2\<bar> \<le> e * c\<^sup>2 + h"
    using round64_relative [OF rc] by (simp add: e_def h_def power2_eq_square)
  have et: "\<bar>t - (sa + sb)\<bar> \<le> e * (sa + sb) + h"
    using round64_relative [OF rt] nn by (simp add: e_def h_def)
  have eS: "\<bar>S - (t + sc)\<bar> \<le> e * (t + sc) + h"
    using round64_relative [OF rS] nn t0 by (simp add: e_def h_def)
  have el: "\<bar>l - sqrt S\<bar> \<le> e * sqrt S + h"
    using round64_relative [OF l] S0 by (simp add: e_def h_def)
  have "l \<le> (1 + e) ^ 3 * nrm a b c + 2 * sqrt (8 * h) + h"
    by (rule length_core_upper [OF _ _ _ ea eb ec nn t0 S0 et eS el]) (simp_all add: e_def h_def)
  moreover have "2 * sqrt (8 * h) + h \<le> 1 / 2 ^ 534"
    unfolding h_def by (rule sqrt_tiny_upper)
  ultimately show ?thesis by (simp add: e_def)
qed

subsection \<open>The clamp under rounding\<close>

lemma unit_numeric:
  "(1 :: real) \<le> (1 + 1 / 2 ^ 51) * (1 - 1 / 2 ^ 53) ^ 3"
  "(1 + 1 / 2 ^ 51) * (1 + 1 / 2 ^ 53 + 1 / 2 ^ 51 + 1 / 2 ^ 535) \<le> (1 + 1 / 2 ^ 49 :: real)"
  by (simp_all add: power_divide)

lemma unit_core:
  fixes N l s :: real
  assumes K: "(1 - 1 / 2 ^ 53) ^ 3 * N \<le> l + 1 / 2 ^ 535" and N0: "0 \<le> N"
    and l5: "5 < l" and lmax: "l < 2 ^ 1024"
    and s: "\<bar>s - 1 / l\<bar> \<le> (1 / 2 ^ 53) * \<bar>1 / l\<bar> + 1 / 2 ^ 1075" and s0: "0 \<le> s"
  shows "s * N \<le> 1 + 1 / 2 ^ 49"
proof -
  define k :: real where "k = 1 + 1 / 2 ^ 51"
  define w3 :: real where "w3 = (1 - 1 / 2 ^ 53) ^ 3"
  define tau :: real where "tau = 1 / 2 ^ 535"
  have k0: "0 \<le> k" by (simp add: k_def)
  have kw: "1 \<le> k * w3" unfolding k_def w3_def by (rule unit_numeric(1))
  have "1 * N \<le> (k * w3) * N" using kw N0 by (rule mult_right_mono)
  also have "\<dots> = k * (w3 * N)" by simp
  also have "\<dots> \<le> k * (l + tau)"
    using K k0 unfolding w3_def tau_def by (intro mult_left_mono) simp_all
  finally have N: "N \<le> k * (l + tau)" by simp
  have lpos: "0 < l" using l5 by simp
  have il: "1 / l \<le> 1 / 5" using l5 by (simp add: field_simps)
  have ipos: "0 \<le> 1 / l" using lpos by simp
  have su: "s \<le> (1 + 1 / 2 ^ 53) * (1 / l) + 1 / 2 ^ 1075"
    using s ipos by (simp add: algebra_simps abs_le_iff)
  have "s * l \<le> ((1 + 1 / 2 ^ 53) * (1 / l) + 1 / 2 ^ 1075) * l"
    using su lpos by (intro mult_right_mono) simp_all
  also have "\<dots> = (1 + 1 / 2 ^ 53) + l / 2 ^ 1075"
    using lpos by (simp add: field_simps)
  also have "l / 2 ^ 1075 \<le> 2 ^ 1024 / 2 ^ 1075"
    using lmax by (intro divide_right_mono) simp_all
  finally have sl: "s * l \<le> 1 + 1 / 2 ^ 53 + 1 / 2 ^ 51" by simp
  have "s \<le> 1" using su il by simp
  then have "s * tau \<le> 1 * tau" by (intro mult_right_mono) (simp_all add: tau_def)
  then have st: "s * (l + tau) \<le> 1 + 1 / 2 ^ 53 + 1 / 2 ^ 51 + tau"
    using sl by (simp add: distrib_left)
  have "s * N \<le> s * (k * (l + tau))" using N s0 by (rule mult_left_mono)
  also have "\<dots> = k * (s * (l + tau))" by simp
  also have "\<dots> \<le> k * (1 + 1 / 2 ^ 53 + 1 / 2 ^ 51 + tau)"
    using st k0 by (rule mult_left_mono)
  also have "\<dots> \<le> 1 + 1 / 2 ^ 49"
    unfolding k_def tau_def by (rule unit_numeric(2))
  finally show ?thesis .
qed

lemma fl_div_one_Num:
  assumes "fl_div round64 (Num 1) (Num l) = Num s" and "l \<noteq> 0"
  shows "round64 (1 / l) = Num s"
  using assms by (simp add: fl_div_def)

lemma unit_numeric_lower:
  "(1 - 1 / 2 ^ 49) * (1 + 1 / 2 ^ 53) ^ 3 \<le> (1 - 1 / 2 ^ 53 - 1 / 2 ^ 51 - 1 / 2 ^ 534 :: real)"
  by (simp add: power_divide)

lemma unit_core_lower:
  fixes N l s :: real
  assumes K: "l \<le> (1 + 1 / 2 ^ 53) ^ 3 * N + 1 / 2 ^ 534" and N0: "0 \<le> N"
    and l5: "5 < l" and lmax: "l < 2 ^ 1024"
    and s: "\<bar>s - 1 / l\<bar> \<le> (1 / 2 ^ 53) * \<bar>1 / l\<bar> + 1 / 2 ^ 1075" and s0: "0 \<le> s"
  shows "1 - 1 / 2 ^ 49 \<le> s * N"
proof -
  define v3 :: real where "v3 = (1 + 1 / 2 ^ 53) ^ 3"
  define tau :: real where "tau = 1 / 2 ^ 534"
  have v3: "0 < v3" by (simp add: v3_def)
  have lpos: "0 < l" using l5 by simp
  have il: "1 / l \<le> 1 / 5" using l5 by (simp add: field_simps)
  have ipos: "0 \<le> 1 / l" using lpos by simp
  have su: "s \<le> (1 + 1 / 2 ^ 53) * (1 / l) + 1 / 2 ^ 1075"
    using s ipos by (simp add: algebra_simps abs_le_iff)
  have sl: "(1 - 1 / 2 ^ 53) * (1 / l) - 1 / 2 ^ 1075 \<le> s"
    using s ipos by (simp add: algebra_simps abs_le_iff)
  have "((1 - 1 / 2 ^ 53) * (1 / l) - 1 / 2 ^ 1075) * l \<le> s * l"
    using sl lpos by (intro mult_right_mono) simp_all
  moreover have "((1 - 1 / 2 ^ 53) * (1 / l) - 1 / 2 ^ 1075) * l = (1 - 1 / 2 ^ 53) - l / 2 ^ 1075"
    using lpos by (simp add: field_simps)
  moreover have "l / 2 ^ 1075 \<le> 2 ^ 1024 / 2 ^ 1075"
    using lmax by (intro divide_right_mono) simp_all
  ultimately have sl': "1 - 1 / 2 ^ 53 - 1 / 2 ^ 51 \<le> s * l" by simp
  have "s \<le> 1" using su il by simp
  then have "s * tau \<le> 1 * tau" by (intro mult_right_mono) (simp_all add: tau_def)
  then have st: "1 - 1 / 2 ^ 53 - 1 / 2 ^ 51 - tau \<le> s * (l - tau)"
    using sl' by (simp add: right_diff_distrib)
  have "l - tau \<le> v3 * N" using K by (simp add: v3_def tau_def)
  then have "s * (l - tau) \<le> s * (v3 * N)" using s0 by (rule mult_left_mono)
  also have "\<dots> = (s * N) * v3" by simp
  finally have "1 - 1 / 2 ^ 53 - 1 / 2 ^ 51 - tau \<le> (s * N) * v3" using st by linarith
  moreover have "(1 - 1 / 2 ^ 49) * v3 \<le> 1 - 1 / 2 ^ 53 - 1 / 2 ^ 51 - tau"
    unfolding v3_def tau_def by (rule unit_numeric_lower)
  ultimately have "(1 - 1 / 2 ^ 49) * v3 \<le> (s * N) * v3" by linarith
  then show ?thesis using v3 by (simp only: mult_le_cancel_right_pos)
qed

lemma clamp_numeric:
  "(1 + 1 / 2 ^ 53) * (1 + 1 / 2 ^ 49) + 2 * (1 / 2 ^ 1075) \<le> (1 + 1 / 2 ^ 48 :: real)"
  "(1 + 1 / 2 ^ 53) * (5 * (1 + 1 / 2 ^ 48)) + 2 * (1 / 2 ^ 1075) \<le> (5 + 3 / 2 ^ 47 :: real)"
  "(1 + 1 / 2 ^ 53) * (5 + 3 / 2 ^ 47) + 2 * (1 / 2 ^ 1075) \<le> (5 + 1 / 2 ^ 45 :: real)"
  "(1 / 2 ^ 53) * (5 + 3 / 2 ^ 47) + 2 * (1 / 2 ^ 1075)
     + ((1 / 2 ^ 53) * (5 * (1 + 1 / 2 ^ 48)) + 2 * (1 / 2 ^ 1075))
     + 5 * ((1 / 2 ^ 53) * (1 + 1 / 2 ^ 49) + 2 * (1 / 2 ^ 1075))
     + 5 * (1 / 2 ^ 49) \<le> (1 / 2 ^ 46 :: real)"
  by (simp_all add: power_divide)

text \<open>
  The values the clamp computes, read off from a finite result: the unclamped
  displacement \<open>a\<close>, the reciprocal \<open>s\<close> of its length, the unit vector \<open>u\<close>, its
  multiple \<open>c\<close> by 5 and the new position \<open>r\<close>.
\<close>

lemma clamp_trace:
  assumes r: "addVectors_fl round64 (Vector3 (Num x1) (Num x2) (Num x3))
              (multiplyScalar_fl round64 (normalize_fl round64 d) (Num 5))
            = Vector3 (Num r1) (Num r2) (Num r3)"
  shows "\<exists>a1 a2 a3 s u1 u2 u3 c1 c2 c3.
           d = Vector3 (Num a1) (Num a2) (Num a3) \<and>
           fl_div round64 (Num 1) (js_or (vlength_fl round64 d) (Num 1)) = Num s \<and>
           round64 (a1 * s) = Num u1 \<and> round64 (a2 * s) = Num u2 \<and> round64 (a3 * s) = Num u3 \<and>
           round64 (u1 * 5) = Num c1 \<and> round64 (u2 * 5) = Num c2 \<and> round64 (u3 * 5) = Num c3 \<and>
           round64 (x1 + c1) = Num r1 \<and> round64 (x2 + c2) = Num r2 \<and> round64 (x3 + c3) = Num r3"
proof -
  obtain d1 d2 d3 where d: "d = Vector3 d1 d2 d3" by (cases d)
  define s where "s = fl_div round64 (Num 1) (js_or (vlength_fl round64 d) (Num 1))"
  have nz: "normalize_fl round64 d = Vector3 (fl_mul round64 d1 s) (fl_mul round64 d2 s) (fl_mul round64 d3 s)"
    by (simp add: normalize_fl_def divideScalar_fl_def multiplyScalar_fl_def d s_def)
  have r1: "fl_add round64 (Num x1) (fl_mul round64 (fl_mul round64 d1 s) (Num 5)) = Num r1"
    and r2: "fl_add round64 (Num x2) (fl_mul round64 (fl_mul round64 d2 s) (Num 5)) = Num r2"
    and r3: "fl_add round64 (Num x3) (fl_mul round64 (fl_mul round64 d3 s) (Num 5)) = Num r3"
    using r unfolding nz by (simp_all add: addVectors_fl_def multiplyScalar_fl_def)
  from fl_add_Num [OF r1] obtain c1 where c1: "fl_mul round64 (fl_mul round64 d1 s) (Num 5) = Num c1"
    and rr1: "round64 (x1 + c1) = Num r1" by auto
  from fl_add_Num [OF r2] obtain c2 where c2: "fl_mul round64 (fl_mul round64 d2 s) (Num 5) = Num c2"
    and rr2: "round64 (x2 + c2) = Num r2" by auto
  from fl_add_Num [OF r3] obtain c3 where c3: "fl_mul round64 (fl_mul round64 d3 s) (Num 5) = Num c3"
    and rr3: "round64 (x3 + c3) = Num r3" by auto
  from fl_mul_Num [OF c1] obtain u1 where u1: "fl_mul round64 d1 s = Num u1"
    and rc1: "round64 (u1 * 5) = Num c1" by auto
  from fl_mul_Num [OF c2] obtain u2 where u2: "fl_mul round64 d2 s = Num u2"
    and rc2: "round64 (u2 * 5) = Num c2" by auto
  from fl_mul_Num [OF c3] obtain u3 where u3: "fl_mul round64 d3 s = Num u3"
    and rc3: "round64 (u3 * 5) = Num c3" by auto
  from fl_mul_Num [OF u1] obtain a1 s' where a1: "d1 = Num a1" and s': "s = Num s'"
    and ru1: "round64 (a1 * s') = Num u1" by auto
  from fl_mul_Num [OF u2] s' obtain a2 where a2: "d2 = Num a2"
    and ru2: "round64 (a2 * s') = Num u2" by auto
  from fl_mul_Num [OF u3] s' obtain a3 where a3: "d3 = Num a3"
    and ru3: "round64 (a3 * s') = Num u3" by auto
  show ?thesis
    using d a1 a2 a3 s' [unfolded s_def] ru1 ru2 ru3 rc1 rc2 rc3 rr1 rr2 rr3 by blast
qed

lemma clamp_chain:
  assumes ru: "round64 (a1 * s) = Num u1" "round64 (a2 * s) = Num u2" "round64 (a3 * s) = Num u3"
    and rc: "round64 (u1 * 5) = Num c1" "round64 (u2 * 5) = Num c2" "round64 (u3 * 5) = Num c3"
    and s0: "0 \<le> s" and sN: "s * nrm a1 a2 a3 \<le> 1 + 1 / 2 ^ 49"
  shows "nrm u1 u2 u3 \<le> 1 + 1 / 2 ^ 48" and "nrm c1 c2 c3 \<le> 5 + 3 / 2 ^ 47"
    and "nrm (u1 - a1 * s) (u2 - a2 * s) (u3 - a3 * s) \<le> (1 / 2 ^ 53) * (1 + 1 / 2 ^ 49) + 2 * (1 / 2 ^ 1075)"
    and "nrm (c1 - u1 * 5) (c2 - u2 * 5) (c3 - u3 * 5) \<le> (1 / 2 ^ 53) * (5 * (1 + 1 / 2 ^ 48)) + 2 * (1 / 2 ^ 1075)"
proof -
  define e :: real where "e = 1 / 2 ^ 53"
  define h :: real where "h = 1 / 2 ^ 1075"
  have e0: "0 \<le> e" and h0: "0 \<le> h" by (simp_all add: e_def h_def)
  define U where "U = nrm u1 u2 u3"
  define SN where "SN = s * nrm a1 a2 a3"
  have sc: "nrm (a1 * s) (a2 * s) (a3 * s) = SN"
    using s0 nrm_scale [of s a1 a2 a3] by (simp add: SN_def mult.commute)
  have eu: "\<bar>u1 - a1 * s\<bar> \<le> e * \<bar>a1 * s\<bar> + h" "\<bar>u2 - a2 * s\<bar> \<le> e * \<bar>a2 * s\<bar> + h"
    "\<bar>u3 - a3 * s\<bar> \<le> e * \<bar>a3 * s\<bar> + h"
    using round64_relative [OF ru(1)] round64_relative [OF ru(2)] round64_relative [OF ru(3)]
    by (simp_all add: e_def h_def)
  have eSN: "e * SN \<le> e * (1 + 1 / 2 ^ 49)"
    using sN e0 unfolding SN_def by (intro mult_left_mono) simp_all
  have "nrm (u1 - a1 * s) (u2 - a2 * s) (u3 - a3 * s) \<le> e * SN + 2 * h"
    unfolding sc [symmetric] by (rule nrm_error [OF eu e0 h0])
  then show "nrm (u1 - a1 * s) (u2 - a2 * s) (u3 - a3 * s)
      \<le> (1 / 2 ^ 53) * (1 + 1 / 2 ^ 49) + 2 * (1 / 2 ^ 1075)"
    using eSN by (simp add: e_def h_def)
  have "U \<le> SN + e * SN + 2 * h"
    unfolding U_def sc [symmetric] by (rule nrm_perturb [OF eu e0 h0])
  then have "U \<le> (1 + e) * SN + 2 * h" by (simp add: algebra_simps)
  moreover have "(1 + e) * SN \<le> (1 + e) * (1 + 1 / 2 ^ 49)"
    using sN e0 unfolding SN_def by (intro mult_left_mono) simp_all
  ultimately have U: "U \<le> 1 + 1 / 2 ^ 48"
    using clamp_numeric(1) by (simp add: e_def h_def)
  then show "nrm u1 u2 u3 \<le> 1 + 1 / 2 ^ 48" by (simp add: U_def)
  have s5: "nrm (u1 * 5) (u2 * 5) (u3 * 5) = 5 * U"
    using nrm_scale [of 5 u1 u2 u3] by (simp add: U_def mult.commute)
  have ec: "\<bar>c1 - u1 * 5\<bar> \<le> e * \<bar>u1 * 5\<bar> + h" "\<bar>c2 - u2 * 5\<bar> \<le> e * \<bar>u2 * 5\<bar> + h"
    "\<bar>c3 - u3 * 5\<bar> \<le> e * \<bar>u3 * 5\<bar> + h"
    using round64_relative [OF rc(1)] round64_relative [OF rc(2)] round64_relative [OF rc(3)]
    by (simp_all add: e_def h_def)
  have eU: "e * (5 * U) \<le> e * (5 * (1 + 1 / 2 ^ 48))"
    using U e0 by (intro mult_left_mono) simp_all
  have "nrm (c1 - u1 * 5) (c2 - u2 * 5) (c3 - u3 * 5) \<le> e * (5 * U) + 2 * h"
    unfolding s5 [symmetric] by (rule nrm_error [OF ec e0 h0])
  then show "nrm (c1 - u1 * 5) (c2 - u2 * 5) (c3 - u3 * 5)
      \<le> (1 / 2 ^ 53) * (5 * (1 + 1 / 2 ^ 48)) + 2 * (1 / 2 ^ 1075)"
    using eU by (simp add: e_def h_def)
  have "nrm c1 c2 c3 \<le> 5 * U + e * (5 * U) + 2 * h"
    unfolding s5 [symmetric] by (rule nrm_perturb [OF ec e0 h0])
  then have "nrm c1 c2 c3 \<le> (1 + e) * (5 * U) + 2 * h" by (simp add: algebra_simps)
  moreover have "(1 + e) * (5 * U) \<le> (1 + e) * (5 * (1 + 1 / 2 ^ 48))"
    using U e0 by (intro mult_left_mono) simp_all
  ultimately show "nrm c1 c2 c3 \<le> 5 + 3 / 2 ^ 47"
    using clamp_numeric(2) by (simp add: e_def h_def)
qed

lemma clamp_commit:
  assumes rr: "round64 (x1 + c1) = Num r1" "round64 (x2 + c2) = Num r2" "round64 (x3 + c3) = Num r3"
    and E: "nrm c1 c2 c3 \<le> 5 + 3 / 2 ^ 47"
  shows "nrm (r1 - x1) (r2 - x2) (r3 - x3) \<le> 5 + 1 / 2 ^ 45 + nrm x1 x2 x3 / 2 ^ 53"
    and "nrm (r1 - x1 - c1) (r2 - x2 - c2) (r3 - x3 - c3)
           \<le> (1 / 2 ^ 53) * (5 + 3 / 2 ^ 47) + 2 * (1 / 2 ^ 1075) + nrm x1 x2 x3 / 2 ^ 53"
proof -
  define e :: real where "e = 1 / 2 ^ 53"
  define h :: real where "h = 1 / 2 ^ 1075"
  have e0: "0 \<le> e" and h0: "0 \<le> h" by (simp_all add: e_def h_def)
  define X where "X = nrm x1 x2 x3"
  define E where "E = nrm c1 c2 c3"
  have er: "\<bar>r1 - x1 - c1\<bar> \<le> e * \<bar>x1 + c1\<bar> + h" "\<bar>r2 - x2 - c2\<bar> \<le> e * \<bar>x2 + c2\<bar> + h"
    "\<bar>r3 - x3 - c3\<bar> \<le> e * \<bar>x3 + c3\<bar> + h"
  proof -
    have "r1 - x1 - c1 = r1 - (x1 + c1)" by simp
    then show "\<bar>r1 - x1 - c1\<bar> \<le> e * \<bar>x1 + c1\<bar> + h"
      using round64_relative [OF rr(1)] by (simp add: e_def h_def)
    have "r2 - x2 - c2 = r2 - (x2 + c2)" by simp
    then show "\<bar>r2 - x2 - c2\<bar> \<le> e * \<bar>x2 + c2\<bar> + h"
      using round64_relative [OF rr(2)] by (simp add: e_def h_def)
    have "r3 - x3 - c3 = r3 - (x3 + c3)" by simp
    then show "\<bar>r3 - x3 - c3\<bar> \<le> e * \<bar>x3 + c3\<bar> + h"
      using round64_relative [OF rr(3)] by (simp add: e_def h_def)
  qed
  have "nrm (x1 + c1) (x2 + c2) (x3 + c3) \<le> X + E"
    unfolding X_def E_def by (rule nrm_triangle)
  then have "nrm (x1 + c1) (x2 + c2) (x3 + c3) \<le> X + (5 + 3 / 2 ^ 47)"
    using assms(4) by (simp add: E_def)
  then have xe: "e * nrm (x1 + c1) (x2 + c2) (x3 + c3) \<le> e * (X + (5 + 3 / 2 ^ 47))"
    using e0 by (rule mult_left_mono)
  have "nrm (r1 - x1 - c1) (r2 - x2 - c2) (r3 - x3 - c3)
          \<le> e * nrm (x1 + c1) (x2 + c2) (x3 + c3) + 2 * h"
    by (rule nrm_error [OF er e0 h0])
  then have "nrm (r1 - x1 - c1) (r2 - x2 - c2) (r3 - x3 - c3) \<le> e * (5 + 3 / 2 ^ 47) + 2 * h + e * X"
    using xe by (simp add: algebra_simps)
  then show "nrm (r1 - x1 - c1) (r2 - x2 - c2) (r3 - x3 - c3)
           \<le> (1 / 2 ^ 53) * (5 + 3 / 2 ^ 47) + 2 * (1 / 2 ^ 1075) + nrm x1 x2 x3 / 2 ^ 53"
    by (simp add: e_def h_def X_def)
  have "nrm (r1 - x1) (r2 - x2) (r3 - x3) \<le> E + e * nrm (x1 + c1) (x2 + c2) (x3 + c3) + 2 * h"
    unfolding E_def by (rule nrm_perturb [OF er e0 h0])
  then have "nrm (r1 - x1) (r2 - x2) (r3 - x3) \<le> E + e * (X + (5 + 3 / 2 ^ 47)) + 2 * h"
    using xe by linarith
  moreover have "e * (X + (5 + 3 / 2 ^ 47)) = e * X + e * (5 + 3 / 2 ^ 47)"
    by (rule distrib_left)
  moreover have "(1 + e) * (5 + 3 / 2 ^ 47) = (5 + 3 / 2 ^ 47) + e * (5 + 3 / 2 ^ 47)"
    by (simp add: distrib_right)
  ultimately have "nrm (r1 - x1) (r2 - x2) (r3 - x3) \<le> (1 + e) * (5 + 3 / 2 ^ 47) + 2 * h + e * X"
    using assms(4) unfolding E_def by linarith
  then have "nrm (r1 - x1) (r2 - x2) (r3 - x3) \<le> 5 + 1 / 2 ^ 45 + e * X"
    using clamp_numeric(3) by (simp add: e_def h_def)
  then show "nrm (r1 - x1) (r2 - x2) (r3 - x3) \<le> 5 + 1 / 2 ^ 45 + nrm x1 x2 x3 / 2 ^ 53"
    by (simp add: X_def e_def)
qed

lemma clamp_bound:
  assumes gt: "js_gt (vlength_fl round64 d) (Num 5)"
    and r: "addVectors_fl round64 (Vector3 (Num x1) (Num x2) (Num x3))
              (multiplyScalar_fl round64 (normalize_fl round64 d) (Num 5))
            = Vector3 (Num r1) (Num r2) (Num r3)"
  shows "nrm (r1 - x1) (r2 - x2) (r3 - x3) \<le> 5 + 1 / 2 ^ 45 + nrm x1 x2 x3 / 2 ^ 53"
proof -
  from clamp_trace [OF r] obtain a1 a2 a3 s u1 u2 u3 c1 c2 c3 where
    d: "d = Vector3 (Num a1) (Num a2) (Num a3)"
    and s: "fl_div round64 (Num 1) (js_or (vlength_fl round64 d) (Num 1)) = Num s"
    and ru: "round64 (a1 * s) = Num u1" "round64 (a2 * s) = Num u2" "round64 (a3 * s) = Num u3"
    and rc: "round64 (u1 * 5) = Num c1" "round64 (u2 * 5) = Num c2" "round64 (u3 * 5) = Num c3"
    and rr: "round64 (x1 + c1) = Num r1" "round64 (x2 + c2) = Num r2" "round64 (x3 + c3) = Num r3"
    by blast
  define L where "L = vlength_fl round64 d"
  have sN: "0 \<le> s \<and> s * nrm a1 a2 a3 \<le> 1 + 1 / 2 ^ 49"
  proof (cases "s = 0")
    case True
    then show ?thesis by simp
  next
    case False
    from gt have "L = PInf \<or> (\<exists>l. L = Num l \<and> 5 < l)"
      unfolding L_def [symmetric] by (cases L) simp_all
    moreover have "L \<noteq> PInf"
    proof
      assume "L = PInf"
      then have "fl_div round64 (Num 1) (js_or L (Num 1)) = Num 0"
        by (simp add: js_or_def fl_div_def)
      with s False show False by (simp add: L_def)
    qed
    ultimately obtain l where l: "L = Num l" and l5: "5 < l" by blast
    have "js_or L (Num 1) = Num l" using l l5 by (simp add: js_or_def)
    then have "fl_div round64 (Num 1) (Num l) = Num s" using s by (simp add: L_def)
    then have rs: "round64 (1 / l) = Num s" using l5 by (intro fl_div_one_Num) simp_all
    from vlength_fl_Num [OF l [unfolded L_def]] have lmax: "l < 2 ^ 1024"
      and K: "(1 - 1 / 2 ^ 53) ^ 3 * nrm a1 a2 a3 \<le> l + 1 / 2 ^ 535"
      by (auto simp add: d)
    have s0: "0 \<le> s" using round64_sign [OF rs] l5 by simp
    have "s * nrm a1 a2 a3 \<le> 1 + 1 / 2 ^ 49"
      by (rule unit_core [OF K nrm_nonneg l5 lmax round64_relative [OF rs] s0])
    with s0 show ?thesis by simp
  qed
  have "nrm c1 c2 c3 \<le> 5 + 3 / 2 ^ 47"
    using sN by (intro clamp_chain(2) [OF ru rc]) simp_all
  then show ?thesis by (rule clamp_commit(1) [OF rr])
qed

text \<open>
  When the computed length is finite the committed displacement is, up to rounding,
  the unclamped displacement \<open>a\<close> scaled to length 5.
\<close>

lemma nrm_triangle4:
  "nrm (a1 + b1 + c1 + d1) (a2 + b2 + c2 + d2) (a3 + b3 + c3 + d3)
     \<le> nrm a1 a2 a3 + nrm b1 b2 b3 + nrm c1 c2 c3 + nrm d1 d2 d3"
proof -
  have "nrm (a1 + b1 + c1 + d1) (a2 + b2 + c2 + d2) (a3 + b3 + c3 + d3)
      \<le> nrm (a1 + b1 + c1) (a2 + b2 + c2) (a3 + b3 + c3) + nrm d1 d2 d3"
    by (rule nrm_triangle)
  moreover have "nrm (a1 + b1 + c1) (a2 + b2 + c2) (a3 + b3 + c3)
      \<le> nrm (a1 + b1) (a2 + b2) (a3 + b3) + nrm c1 c2 c3"
    by (rule nrm_triangle)
  moreover have "nrm (a1 + b1) (a2 + b2) (a3 + b3) \<le> nrm a1 a2 a3 + nrm b1 b2 b3"
    by (rule nrm_triangle)
  ultimately show ?thesis by linarith
qed

lemma clamp_direction:
  assumes L: "vlength_fl round64 d = Num l" and l5: "5 < l"
    and r: "addVectors_fl round64 (Vector3 (Num x1) (Num x2) (Num x3))
              (multiplyScalar_fl round64 (normalize_fl round64 d) (Num 5))
            = Vector3 (Num r1) (Num r2) (Num r3)"
  shows "\<exists>a1 a2 a3. d = Vector3 (Num a1) (Num a2) (Num a3) \<and> 0 < nrm a1 a2 a3 \<and>
           nrm (r1 - x1 - 5 * a1 / nrm a1 a2 a3) (r2 - x2 - 5 * a2 / nrm a1 a2 a3)
               (r3 - x3 - 5 * a3 / nrm a1 a2 a3)
             \<le> 1 / 2 ^ 46 + nrm x1 x2 x3 / 2 ^ 53"
proof -
  from clamp_trace [OF r] obtain a1 a2 a3 s u1 u2 u3 c1 c2 c3 where
    d: "d = Vector3 (Num a1) (Num a2) (Num a3)"
    and s: "fl_div round64 (Num 1) (js_or (vlength_fl round64 d) (Num 1)) = Num s"
    and ru: "round64 (a1 * s) = Num u1" "round64 (a2 * s) = Num u2" "round64 (a3 * s) = Num u3"
    and rc: "round64 (u1 * 5) = Num c1" "round64 (u2 * 5) = Num c2" "round64 (u3 * 5) = Num c3"
    and rr: "round64 (x1 + c1) = Num r1" "round64 (x2 + c2) = Num r2" "round64 (x3 + c3) = Num r3"
    by blast
  define N where "N = nrm a1 a2 a3"
  have N0: "0 \<le> N" unfolding N_def by (rule nrm_nonneg)
  have "js_or (vlength_fl round64 d) (Num 1) = Num l" using L l5 by (simp add: js_or_def)
  then have "fl_div round64 (Num 1) (Num l) = Num s" using s by simp
  then have rs: "round64 (1 / l) = Num s" using l5 by (intro fl_div_one_Num) simp_all
  from vlength_fl_Num [OF L] have lmax: "l < 2 ^ 1024"
    and K: "(1 - 1 / 2 ^ 53) ^ 3 * N \<le> l + 1 / 2 ^ 535"
    by (auto simp add: d N_def)
  have K': "l \<le> (1 + 1 / 2 ^ 53) ^ 3 * N + 1 / 2 ^ 534"
    using L unfolding d N_def by (rule vlength_fl_upper)
  have s0: "0 \<le> s" using round64_sign [OF rs] l5 by simp
  have up: "s * N \<le> 1 + 1 / 2 ^ 49"
    by (rule unit_core [OF K N0 l5 lmax round64_relative [OF rs] s0])
  have lo: "1 - 1 / 2 ^ 49 \<le> s * N"
    by (rule unit_core_lower [OF K' N0 l5 lmax round64_relative [OF rs] s0])
  have Npos: "0 < N"
  proof (rule ccontr)
    assume "\<not> 0 < N"
    with N0 have "N = 0" by simp
    with lo show False by simp
  qed
  have up': "s * nrm a1 a2 a3 \<le> 1 + 1 / 2 ^ 49" using up by (simp add: N_def)
  note ch = clamp_chain [OF ru rc s0 up']
  note cm = clamp_commit(2) [OF rr ch(2)]
  have t4: "nrm ((5 * s - 5 / N) * a1) ((5 * s - 5 / N) * a2) ((5 * s - 5 / N) * a3) \<le> 5 * (1 / 2 ^ 49)"
  proof -
    have "nrm ((5 * s - 5 / N) * a1) ((5 * s - 5 / N) * a2) ((5 * s - 5 / N) * a3)
        = \<bar>5 * s - 5 / N\<bar> * N"
      by (simp only: nrm_scale N_def)
    also have "\<dots> = \<bar>(5 * s - 5 / N) * N\<bar>" using N0 by (simp add: abs_mult)
    also have "(5 * s - 5 / N) * N = 5 * (s * N - 1)"
      using Npos by (simp add: field_simps)
    also have "\<bar>5 * (s * N - 1)\<bar> = \<bar>5\<bar> * \<bar>s * N - 1\<bar>" by (rule abs_mult)
    also have "\<dots> \<le> 5 * (1 / 2 ^ 49)"
    proof -
      have "\<bar>s * N - 1\<bar> \<le> 1 / 2 ^ 49" using up lo by (simp only: abs_le_iff) simp
      then show ?thesis by simp
    qed
    finally show ?thesis .
  qed
  have t3: "nrm (5 * (u1 - a1 * s)) (5 * (u2 - a2 * s)) (5 * (u3 - a3 * s))
      \<le> 5 * ((1 / 2 ^ 53) * (1 + 1 / 2 ^ 49) + 2 * (1 / 2 ^ 1075))"
    using ch(3) by (simp only: nrm_scale) simp
  have split: "r - x - 5 * a / N = (r - x - c) + (c - u * 5) + 5 * (u - a * s) + (5 * s - 5 / N) * a"
    for r x a c u :: real
    by (simp add: algebra_simps)
  have "nrm (r1 - x1 - 5 * a1 / N) (r2 - x2 - 5 * a2 / N) (r3 - x3 - 5 * a3 / N)
      \<le> nrm (r1 - x1 - c1) (r2 - x2 - c2) (r3 - x3 - c3)
        + nrm (c1 - u1 * 5) (c2 - u2 * 5) (c3 - u3 * 5)
        + nrm (5 * (u1 - a1 * s)) (5 * (u2 - a2 * s)) (5 * (u3 - a3 * s))
        + nrm ((5 * s - 5 / N) * a1) ((5 * s - 5 / N) * a2) ((5 * s - 5 / N) * a3)"
    unfolding split [of r1 x1 a1 c1 u1] split [of r2 x2 a2 c2 u2] split [of r3 x3 a3 c3 u3]
    by (rule nrm_triangle4)
  then have "nrm (r1 - x1 - 5 * a1 / N) (r2 - x2 - 5 * a2 / N) (r3 - x3 - 5 * a3 / N)
      \<le> 1 / 2 ^ 46 + nrm x1 x2 x3 / 2 ^ 53"
    using cm ch(4) t3 t4 clamp_numeric(4) by linarith
  then show ?thesis using d Npos unfolding N_def by blast
qed

lemma addForce_fl_fields:
  "position (addForce_fl rnd f p) = position p"
  "oldPosition (addForce_fl rnd f p) = oldPosition p"
  "pinned (addForce_fl rnd f p) = pinned p"
  by (simp_all add: addForce_fl_def Let_def)

lemma accumulate_forces_fl_fields:
  "position (accumulate_forces_fl rnd w p) = position p"
  "oldPosition (accumulate_forces_fl rnd w p) = oldPosition p"
  "pinned (accumulate_forces_fl rnd w p) = pinned p"
  by (simp_all add: accumulate_forces_fl_def Let_def addForce_fl_fields)

lemma exact_length_diff:
  "sqrt (exact_length_sq (exact_diff (Vector3 (Num r1) (Num r2) (Num r3)) (Vector3 (Num x1) (Num x2) (Num x3))))
     = nrm (r1 - x1) (r2 - x2) (r3 - x3)"
  by (simp add: exact_length_sq_def exact_diff_def nrm_def)

lemma exact_length_Num:
  "sqrt (exact_length_sq (Vector3 (Num x1) (Num x2) (Num x3))) = nrm x1 x2 x3"
  by (simp add: exact_length_sq_def nrm_def)

lemma exact_length_scaled:
  "sqrt (exact_length_sq (exact_diff
      (exact_diff (Vector3 (Num r1) (Num r2) (Num r3)) (Vector3 (Num x1) (Num x2) (Num x3)))
      (scaled_to m (Vector3 (Num a1) (Num a2) (Num a3)))))
     = nrm (r1 - x1 - m * a1 / nrm a1 a2 a3) (r2 - x2 - m * a2 / nrm a1 a2 a3)
           (r3 - x3 - m * a3 / nrm a1 a2 a3)"
  by (simp add: exact_length_sq_def exact_diff_def scaled_to_def nrm_def)

subsection \<open>Two computations in binary64\<close>

text \<open>
  One correction in binary64: endpoints \<open>(0.1, 0.2, 0.3)\<close> and \<open>(1, 1, 1)\<close>, rest distance
  \<open>1.35\<close>, every literal rounded as the engine reads it.
\<close>

lemma satisfy_fl_example:
  shows "vlength_fl round64 (subVectors_fl round64
           (position ([new_Particle (Vector3 (round64 0.1) (round64 0.2) (round64 0.3)) (round64 0.1),
      new_Particle (Vector3 (Num 1) (Num 1) (Num 1)) (round64 0.1)] ! 1))
           (position ([new_Particle (Vector3 (round64 0.1) (round64 0.2) (round64 0.3)) (round64 0.1),
      new_Particle (Vector3 (Num 1) (Num 1) (Num 1)) (round64 0.1)] ! 0))) = Num (6272788425499799 / 4503599627370496)"
    and "map position (satisfy_fl round64 (new_Constraint 0 1 (round64 1.35))
           [new_Particle (Vector3 (round64 0.1) (round64 0.2) (round64 0.3)) (round64 0.1),
      new_Particle (Vector3 (Num 1) (Num 1) (Num 1)) (round64 0.1)]) =
         [Vector3 (Num (4101533335724503 / 36028797018963968)) (Num (3824503539153333 / 18014398509481984)) (Num (2799120205222207 / 9007199254740992)),
          Vector3 (Num (4441267923141983 / 4503599627370496)) (Num (2224096834028131 / 2251799813685248)) (Num (4455119412970541 / 4503599627370496))]"
    and "addVectors_fl round64
           (position ([new_Particle (Vector3 (round64 0.1) (round64 0.2) (round64 0.3)) (round64 0.1),
      new_Particle (Vector3 (Num 1) (Num 1) (Num 1)) (round64 0.1)] ! 0))
           (position ([new_Particle (Vector3 (round64 0.1) (round64 0.2) (round64 0.3)) (round64 0.1),
      new_Particle (Vector3 (Num 1) (Num 1) (Num 1)) (round64 0.1)] ! 1)) = Vector3 (Num (2476979795053773 / 2251799813685248)) (Num (5404319552844595 / 4503599627370496)) (Num (5854679515581645 / 4503599627370496))"
    and "addVectors_fl round64 (Vector3 (Num (4101533335724503 / 36028797018963968)) (Num (3824503539153333 / 18014398509481984)) (Num (2799120205222207 / 9007199254740992)))
           (Vector3 (Num (4441267923141983 / 4503599627370496)) (Num (2224096834028131 / 2251799813685248)) (Num (4455119412970541 / 4503599627370496))) = Vector3 (Num (2476979795053773 / 2251799813685248)) (Num (5404319552844595 / 4503599627370496)) (Num (1463669878895411 / 1125899906842624))"
proof -
  have s1: "round64 (1 / 10) = Num (3602879701896397 / 36028797018963968)"
    by (rule round64_normalI [where m = "7205759403792794" and q = "- 56" and u = "1 / 2 ^ 56"])
       (simp_all add: power_int_minus)
  have s2: "round64 (1 / 5) = Num (3602879701896397 / 18014398509481984)"
    by (rule round64_normalI [where m = "7205759403792794" and q = "- 55" and u = "1 / 2 ^ 55"])
       (simp_all add: power_int_minus)
  have s3: "round64 (3 / 10) = Num (5404319552844595 / 18014398509481984)"
    by (rule round64_normalI [where m = "5404319552844595" and q = "- 54" and u = "1 / 2 ^ 54"])
       (simp_all add: power_int_minus)
  have s4: "round64 (27 / 20) = Num (3039929748475085 / 2251799813685248)"
    by (rule round64_normalI [where m = "6079859496950170" and q = "- 52" and u = "1 / 2 ^ 52"])
       (simp_all add: power_int_minus)
  have s5: "fl_sub round64 (Num (1)) (Num (3602879701896397 / 36028797018963968)) = Num (8106479329266893 / 9007199254740992)"
    by (simp add: fl_sub_def fl_add_def, rule round64_normalI [where m = "8106479329266893" and q = "- 53" and u = "1 / 2 ^ 53"])
       (simp_all add: power_int_minus power2_eq_square)
  have s6: "fl_sub round64 (Num (1)) (Num (3602879701896397 / 18014398509481984)) = Num (3602879701896397 / 4503599627370496)"
    by (simp add: fl_sub_def fl_add_def, rule round64_tieI [where m = "7205759403792794" and q = "- 53" and u = "1 / 2 ^ 53"])
       (simp_all add: power_int_minus power2_eq_square)
  have s7: "fl_sub round64 (Num (1)) (Num (5404319552844595 / 18014398509481984)) = Num (3152519739159347 / 4503599627370496)"
    by (simp add: fl_sub_def fl_add_def, rule round64_tieI [where m = "6305039478318694" and q = "- 53" and u = "1 / 2 ^ 53"])
       (simp_all add: power_int_minus power2_eq_square)
  have s8: "fl_mul round64 (Num (8106479329266893 / 9007199254740992)) (Num (8106479329266893 / 9007199254740992)) = Num (1823957849085051 / 2251799813685248)"
    by (simp add: fl_mul_def, rule round64_normalI [where m = "7295831396340204" and q = "- 53" and u = "1 / 2 ^ 53"])
       (simp_all add: power_int_minus power2_eq_square)
  have s9: "fl_mul round64 (Num (3602879701896397 / 4503599627370496)) (Num (3602879701896397 / 4503599627370496)) = Num (1441151880758559 / 2251799813685248)"
    by (simp add: fl_mul_def, rule round64_normalI [where m = "5764607523034236" and q = "- 53" and u = "1 / 2 ^ 53"])
       (simp_all add: power_int_minus power2_eq_square)
  have s10: "fl_mul round64 (Num (3152519739159347 / 4503599627370496)) (Num (3152519739159347 / 4503599627370496)) = Num (8827055269646171 / 18014398509481984)"
    by (simp add: fl_mul_def, rule round64_normalI [where m = "8827055269646171" and q = "- 54" and u = "1 / 2 ^ 54"])
       (simp_all add: power_int_minus power2_eq_square)
  have s11: "fl_add round64 (Num (1823957849085051 / 2251799813685248)) (Num (1441151880758559 / 2251799813685248)) = Num (1632554864921805 / 1125899906842624)"
    by (simp add: fl_add_def, rule round64_normalI [where m = "6530219459687220" and q = "- 52" and u = "1 / 2 ^ 52"])
       (simp_all add: power_int_minus power2_eq_square)
  have s12: "fl_add round64 (Num (1632554864921805 / 1125899906842624)) (Num (8827055269646171 / 18014398509481984)) = Num (8736983277098763 / 4503599627370496)"
    by (simp add: fl_add_def, rule round64_normalI [where m = "8736983277098763" and q = "- 52" and u = "1 / 2 ^ 52"])
       (simp_all add: power_int_minus power2_eq_square)
  have s13: "fl_sqrt round64 (Num (8736983277098763 / 4503599627370496)) = Num (6272788425499799 / 4503599627370496)"
    by (simp add: fl_sqrt_def, rule round64_sqrtI [where m = "6272788425499799" and q = "- 52" and u = "1 / 2 ^ 52"])
       (simp_all add: power_int_minus power2_eq_square)
  have s14: "fl_div round64 (Num (3039929748475085 / 2251799813685248)) (Num (6272788425499799 / 4503599627370496)) = Num (4365084729084911 / 4503599627370496)"
    by (simp add: fl_div_def, rule round64_normalI [where m = "8730169458169822" and q = "- 53" and u = "1 / 2 ^ 53"])
       (simp_all add: power_int_minus power2_eq_square)
  have s15: "fl_sub round64 (Num (1)) (Num (4365084729084911 / 4503599627370496)) = Num (138514898285585 / 4503599627370496)"
    by (simp add: fl_sub_def fl_add_def, rule round64_normalI [where m = "8864953490277440" and q = "- 58" and u = "1 / 2 ^ 58"])
       (simp_all add: power_int_minus power2_eq_square)
  have s16: "fl_mul round64 (Num (8106479329266893 / 9007199254740992)) (Num (138514898285585 / 4503599627370496)) = Num (249326816914053 / 9007199254740992)"
    by (simp add: fl_mul_def, rule round64_normalI [where m = "7978458141249696" and q = "- 58" and u = "1 / 2 ^ 58"])
       (simp_all add: power_int_minus power2_eq_square)
  have s17: "fl_mul round64 (Num (3602879701896397 / 4503599627370496)) (Num (138514898285585 / 4503599627370496)) = Num (27702979657117 / 1125899906842624)"
    by (simp add: fl_mul_def, rule round64_normalI [where m = "7091962792221952" and q = "- 58" and u = "1 / 2 ^ 58"])
       (simp_all add: power_int_minus power2_eq_square)
  have s18: "fl_mul round64 (Num (3152519739159347 / 4503599627370496)) (Num (138514898285585 / 4503599627370496)) = Num (193920857599819 / 9007199254740992)"
    by (simp add: fl_mul_def, rule round64_normalI [where m = "6205467443194208" and q = "- 58" and u = "1 / 2 ^ 58"])
       (simp_all add: power_int_minus power2_eq_square)
  have s19: "fl_mul round64 (Num (249326816914053 / 9007199254740992)) (Num (1 / 2)) = Num (249326816914053 / 18014398509481984)"
    by (simp add: fl_mul_def, rule round64_normalI [where m = "7978458141249696" and q = "- 59" and u = "1 / 2 ^ 59"])
       (simp_all add: power_int_minus power2_eq_square)
  have s20: "fl_mul round64 (Num (27702979657117 / 1125899906842624)) (Num (1 / 2)) = Num (27702979657117 / 2251799813685248)"
    by (simp add: fl_mul_def, rule round64_normalI [where m = "7091962792221952" and q = "- 59" and u = "1 / 2 ^ 59"])
       (simp_all add: power_int_minus power2_eq_square)
  have s21: "fl_mul round64 (Num (193920857599819 / 9007199254740992)) (Num (1 / 2)) = Num (193920857599819 / 18014398509481984)"
    by (simp add: fl_mul_def, rule round64_normalI [where m = "6205467443194208" and q = "- 59" and u = "1 / 2 ^ 59"])
       (simp_all add: power_int_minus power2_eq_square)
  have s22: "fl_add round64 (Num (3602879701896397 / 36028797018963968)) (Num (249326816914053 / 18014398509481984)) = Num (4101533335724503 / 36028797018963968)"
    by (simp add: fl_add_def, rule round64_normalI [where m = "8203066671449006" and q = "- 56" and u = "1 / 2 ^ 56"])
       (simp_all add: power_int_minus power2_eq_square)
  have s23: "fl_add round64 (Num (3602879701896397 / 18014398509481984)) (Num (27702979657117 / 2251799813685248)) = Num (3824503539153333 / 18014398509481984)"
    by (simp add: fl_add_def, rule round64_normalI [where m = "7649007078306666" and q = "- 55" and u = "1 / 2 ^ 55"])
       (simp_all add: power_int_minus power2_eq_square)
  have s24: "fl_add round64 (Num (5404319552844595 / 18014398509481984)) (Num (193920857599819 / 18014398509481984)) = Num (2799120205222207 / 9007199254740992)"
    by (simp add: fl_add_def, rule round64_normalI [where m = "5598240410444414" and q = "- 54" and u = "1 / 2 ^ 54"])
       (simp_all add: power_int_minus power2_eq_square)
  have s25: "fl_sub round64 (Num (1)) (Num (249326816914053 / 18014398509481984)) = Num (4441267923141983 / 4503599627370496)"
    by (simp add: fl_sub_def fl_add_def, rule round64_tieI [where m = "8882535846283966" and q = "- 53" and u = "1 / 2 ^ 53"])
       (simp_all add: power_int_minus power2_eq_square)
  have s26: "fl_sub round64 (Num (1)) (Num (27702979657117 / 2251799813685248)) = Num (2224096834028131 / 2251799813685248)"
    by (simp add: fl_sub_def fl_add_def, rule round64_normalI [where m = "8896387336112524" and q = "- 53" and u = "1 / 2 ^ 53"])
       (simp_all add: power_int_minus power2_eq_square)
  have s27: "fl_sub round64 (Num (1)) (Num (193920857599819 / 18014398509481984)) = Num (4455119412970541 / 4503599627370496)"
    by (simp add: fl_sub_def fl_add_def, rule round64_tieI [where m = "8910238825941082" and q = "- 53" and u = "1 / 2 ^ 53"])
       (simp_all add: power_int_minus power2_eq_square)
  have s28: "fl_add round64 (Num (3602879701896397 / 36028797018963968)) (Num (1)) = Num (2476979795053773 / 2251799813685248)"
    by (simp add: fl_add_def, rule round64_normalI [where m = "4953959590107546" and q = "- 52" and u = "1 / 2 ^ 52"])
       (simp_all add: power_int_minus power2_eq_square)
  have s29: "fl_add round64 (Num (3602879701896397 / 18014398509481984)) (Num (1)) = Num (5404319552844595 / 4503599627370496)"
    by (simp add: fl_add_def, rule round64_normalI [where m = "5404319552844595" and q = "- 52" and u = "1 / 2 ^ 52"])
       (simp_all add: power_int_minus power2_eq_square)
  have s30: "fl_add round64 (Num (5404319552844595 / 18014398509481984)) (Num (1)) = Num (5854679515581645 / 4503599627370496)"
    by (simp add: fl_add_def, rule round64_normalI [where m = "5854679515581645" and q = "- 52" and u = "1 / 2 ^ 52"])
       (simp_all add: power_int_minus power2_eq_square)
  have s31: "fl_add round64 (Num (4101533335724503 / 36028797018963968)) (Num (4441267923141983 / 4503599627370496)) = Num (2476979795053773 / 2251799813685248)"
    by (simp add: fl_add_def, rule round64_normalI [where m = "4953959590107546" and q = "- 52" and u = "1 / 2 ^ 52"])
       (simp_all add: power_int_minus power2_eq_square)
  have s32: "fl_add round64 (Num (3824503539153333 / 18014398509481984)) (Num (2224096834028131 / 2251799813685248)) = Num (5404319552844595 / 4503599627370496)"
    by (simp add: fl_add_def, rule round64_normalI [where m = "5404319552844595" and q = "- 52" and u = "1 / 2 ^ 52"])
       (simp_all add: power_int_minus power2_eq_square)
  have s33: "fl_add round64 (Num (2799120205222207 / 9007199254740992)) (Num (4455119412970541 / 4503599627370496)) = Num (1463669878895411 / 1125899906842624)"
    by (simp add: fl_add_def, rule round64_tieI [where m = "5854679515581644" and q = "- 52" and u = "1 / 2 ^ 52"])
       (simp_all add: power_int_minus power2_eq_square)
  have ps: "[new_Particle (Vector3 (round64 0.1) (round64 0.2) (round64 0.3)) (round64 0.1),
      new_Particle (Vector3 (Num 1) (Num 1) (Num 1)) (round64 0.1)] = [\<lparr>position = Vector3 (Num (3602879701896397 / 36028797018963968)) (Num (3602879701896397 / 18014398509481984)) (Num (5404319552844595 / 18014398509481984)), oldPosition = Vector3 (Num (3602879701896397 / 36028797018963968)) (Num (3602879701896397 / 18014398509481984)) (Num (5404319552844595 / 18014398509481984)), acceleration = Vector3 (Num (0)) (Num (0)) (Num (0)), mass = Num (3602879701896397 / 36028797018963968), pinned = False\<rparr>, \<lparr>position = Vector3 (Num (1)) (Num (1)) (Num (1)), oldPosition = Vector3 (Num (1)) (Num (1)) (Num (1)), acceleration = Vector3 (Num (0)) (Num (0)) (Num (0)), mass = Num (3602879701896397 / 36028797018963968), pinned = False\<rparr>]"
    by (simp add: new_Particle_def zero3_def s1 s2 s3 s4 s5 s6 s7 s8 s9 s10 s11 s12 s13 s14 s15 s16 s17 s18 s19 s20 s21 s22 s23 s24 s25 s26 s27 s28 s29 s30 s31 s32 s33)
  have c: "new_Constraint 0 1 (round64 1.35) = \<lparr>p1 = 0, p2 = 1, distance = Num (3039929748475085 / 2251799813685248)\<rparr>"
    by (simp add: new_Constraint_def s1 s2 s3 s4 s5 s6 s7 s8 s9 s10 s11 s12 s13 s14 s15 s16 s17 s18 s19 s20 s21 s22 s23 s24 s25 s26 s27 s28 s29 s30 s31 s32 s33)
  have d: "subVectors_fl round64 (Vector3 (Num (1)) (Num (1)) (Num (1))) (Vector3 (Num (3602879701896397 / 36028797018963968)) (Num (3602879701896397 / 18014398509481984)) (Num (5404319552844595 / 18014398509481984))) = Vector3 (Num (8106479329266893 / 9007199254740992)) (Num (3602879701896397 / 4503599627370496)) (Num (3152519739159347 / 4503599627370496))"
    by (simp add: subVectors_fl_def s1 s2 s3 s4 s5 s6 s7 s8 s9 s10 s11 s12 s13 s14 s15 s16 s17 s18 s19 s20 s21 s22 s23 s24 s25 s26 s27 s28 s29 s30 s31 s32 s33)
  have len: "vlength_fl round64 (Vector3 (Num (8106479329266893 / 9007199254740992)) (Num (3602879701896397 / 4503599627370496)) (Num (3152519739159347 / 4503599627370496))) = Num (6272788425499799 / 4503599627370496)"
    by (simp add: vlength_fl_def s1 s2 s3 s4 s5 s6 s7 s8 s9 s10 s11 s12 s13 s14 s15 s16 s17 s18 s19 s20 s21 s22 s23 s24 s25 s26 s27 s28 s29 s30 s31 s32 s33)
  have h: "multiplyScalar_fl round64
             (multiplyScalar_fl round64 (Vector3 (Num (8106479329266893 / 9007199254740992)) (Num (3602879701896397 / 4503599627370496)) (Num (3152519739159347 / 4503599627370496))) (fl_sub round64 (Num 1) (fl_div round64 (Num (3039929748475085 / 2251799813685248)) (Num (6272788425499799 / 4503599627370496)))))
             (Num (1 / 2)) = Vector3 (Num (249326816914053 / 18014398509481984)) (Num (27702979657117 / 2251799813685248)) (Num (193920857599819 / 18014398509481984))"
    by (simp add: multiplyScalar_fl_def s1 s2 s3 s4 s5 s6 s7 s8 s9 s10 s11 s12 s13 s14 s15 s16 s17 s18 s19 s20 s21 s22 s23 s24 s25 s26 s27 s28 s29 s30 s31 s32 s33)
  have a2: "addVectors_fl round64 (Vector3 (Num (3602879701896397 / 36028797018963968)) (Num (3602879701896397 / 18014398509481984)) (Num (5404319552844595 / 18014398509481984))) (Vector3 (Num (249326816914053 / 18014398509481984)) (Num (27702979657117 / 2251799813685248)) (Num (193920857599819 / 18014398509481984))) = Vector3 (Num (4101533335724503 / 36028797018963968)) (Num (3824503539153333 / 18014398509481984)) (Num (2799120205222207 / 9007199254740992))"
    by (simp add: addVectors_fl_def s1 s2 s3 s4 s5 s6 s7 s8 s9 s10 s11 s12 s13 s14 s15 s16 s17 s18 s19 s20 s21 s22 s23 s24 s25 s26 s27 s28 s29 s30 s31 s32 s33)
  have b2: "subVectors_fl round64 (Vector3 (Num (1)) (Num (1)) (Num (1))) (Vector3 (Num (249326816914053 / 18014398509481984)) (Num (27702979657117 / 2251799813685248)) (Num (193920857599819 / 18014398509481984))) = Vector3 (Num (4441267923141983 / 4503599627370496)) (Num (2224096834028131 / 2251799813685248)) (Num (4455119412970541 / 4503599627370496))"
    by (simp add: subVectors_fl_def s1 s2 s3 s4 s5 s6 s7 s8 s9 s10 s11 s12 s13 s14 s15 s16 s17 s18 s19 s20 s21 s22 s23 s24 s25 s26 s27 s28 s29 s30 s31 s32 s33)
  show "vlength_fl round64 (subVectors_fl round64
           (position ([new_Particle (Vector3 (round64 0.1) (round64 0.2) (round64 0.3)) (round64 0.1),
      new_Particle (Vector3 (Num 1) (Num 1) (Num 1)) (round64 0.1)] ! 1))
           (position ([new_Particle (Vector3 (round64 0.1) (round64 0.2) (round64 0.3)) (round64 0.1),
      new_Particle (Vector3 (Num 1) (Num 1) (Num 1)) (round64 0.1)] ! 0))) = Num (6272788425499799 / 4503599627370496)"
    unfolding ps by (simp add: d len)
  show "map position (satisfy_fl round64 (new_Constraint 0 1 (round64 1.35))
           [new_Particle (Vector3 (round64 0.1) (round64 0.2) (round64 0.3)) (round64 0.1),
      new_Particle (Vector3 (Num 1) (Num 1) (Num 1)) (round64 0.1)]) =
         [Vector3 (Num (4101533335724503 / 36028797018963968)) (Num (3824503539153333 / 18014398509481984)) (Num (2799120205222207 / 9007199254740992)),
          Vector3 (Num (4441267923141983 / 4503599627370496)) (Num (2224096834028131 / 2251799813685248)) (Num (4455119412970541 / 4503599627370496))]"
    unfolding ps c by (simp add: satisfy_fl_def Let_def d len h a2 b2)
  show "addVectors_fl round64
           (position ([new_Particle (Vector3 (round64 0.1) (round64 0.2) (round64 0.3)) (round64 0.1),
      new_Particle (Vector3 (Num 1) (Num 1) (Num 1)) (round64 0.1)] ! 0))
           (position ([new_Particle (Vector3 (round64 0.1) (round64 0.2) (round64 0.3)) (round64 0.1),
      new_Particle (Vector3 (Num 1) (Num 1) (Num 1)) (round64 0.1)] ! 1)) = Vector3 (Num (2476979795053773 / 2251799813685248)) (Num (5404319552844595 / 4503599627370496)) (Num (5854679515581645 / 4503599627370496))"
    unfolding ps by (simp add: addVectors_fl_def s1 s2 s3 s4 s5 s6 s7 s8 s9 s10 s11 s12 s13 s14 s15 s16 s17 s18 s19 s20 s21 s22 s23 s24 s25 s26 s27 s28 s29 s30 s31 s32 s33)
  show "addVectors_fl round64 (Vector3 (Num (4101533335724503 / 36028797018963968)) (Num (3824503539153333 / 18014398509481984)) (Num (2799120205222207 / 9007199254740992)))
           (Vector3 (Num (4441267923141983 / 4503599627370496)) (Num (2224096834028131 / 2251799813685248)) (Num (4455119412970541 / 4503599627370496))) = Vector3 (Num (2476979795053773 / 2251799813685248)) (Num (5404319552844595 / 4503599627370496)) (Num (1463669878895411 / 1125899906842624))"
    by (simp add: addVectors_fl_def s1 s2 s3 s4 s5 s6 s7 s8 s9 s10 s11 s12 s13 s14 s15 s16 s17 s18 s19 s20 s21 s22 s23 s24 s25 s26 s27 s28 s29 s30 s31 s32 s33)
qed

text \<open>
  One integration step in binary64: a particle at rest at \<open>(1, 1, 1)\<close> under a wind force
  with y component 18000, which gives an unclamped displacement of about 50 units.
\<close>

lemma step_particle_fl_example:
  shows "step_particle_fl round64 (Vector3 (Num 0) (Num 18000) (Num 0))
        (new_Particle (Vector3 (Num 1) (Num 1) (Num 1)) (round64 0.1))
         = \<lparr>position = Vector3 (Num (1)) (Num (4503349427113213 / 4503599627370496)) (Num (1688849860177061 / 281474976710656)), oldPosition = Vector3 (Num (1)) (Num (1)) (Num (1)), acceleration = Vector3 (Num (0)) (Num (0)) (Num (0)), mass = Num (3602879701896397 / 36028797018963968), pinned = False\<rparr>"
    and "unclamped_displacement round64 (Vector3 (Num 0) (Num 18000) (Num 0))
        (new_Particle (Vector3 (Num 1) (Num 1) (Num 1)) (round64 0.1))
         = Vector3 (Num (0)) (Num (- (5003999585967 / 9007199254740992))) (Num (3518433299508523 / 70368744177664))"
    and "vlength_fl round64 (Vector3 (Num (0)) (Num (- (5003999585967 / 9007199254740992))) (Num (3518433299508523 / 70368744177664)))
         = Num (7036866599451421 / 140737488355328)"
    and "vlength_fl round64 (subVectors_fl round64 (Vector3 (Num (1)) (Num (4503349427113213 / 4503599627370496)) (Num (1688849860177061 / 281474976710656)))
           (Vector3 (Num (1)) (Num (1)) (Num (1)))) = Num (5629499534213121 / 1125899906842624)"
proof -
  have t1: "round64 (1 / 10) = Num (3602879701896397 / 36028797018963968)"
    by (rule round64_normalI [where m = "7205759403792794" and q = "- 56" and u = "1 / 2 ^ 56"])
       (simp_all add: power_int_minus)
  have t2: "round64 (- (1 / 5)) = Num (- (3602879701896397 / 18014398509481984))"
    by (rule round64_normalI [where m = "- 7205759403792794" and q = "- 55" and u = "1 / 2 ^ 55"])
       (simp_all add: power_int_minus)
  have t3: "round64 (1 / 50) = Num (5764607523034235 / 288230376151711744)"
    by (rule round64_normalI [where m = "5764607523034235" and q = "- 58" and u = "1 / 2 ^ 58"])
       (simp_all add: power_int_minus)
  have t4: "fl_div round64 (Num (1)) (Num (3602879701896397 / 36028797018963968)) = Num (10)"
    by (simp add: fl_div_def, rule round64_normalI [where m = "5629499534213120" and q = "- 49" and u = "1 / 2 ^ 49"])
       (simp_all add: power_int_minus power2_eq_square)
  have t5: "fl_mul round64 (Num (0)) (Num (10)) = Num (0)"
    by (simp add: fl_mul_def)
  have t6: "fl_mul round64 (Num (- (3602879701896397 / 18014398509481984))) (Num (10)) = Num (- 2)"
    by (simp add: fl_mul_def, rule round64_normalI [where m = "- 4503599627370496" and q = "- 51" and u = "1 / 2 ^ 51"])
       (simp_all add: power_int_minus power2_eq_square)
  have t7: "fl_add round64 (Num (0)) (Num (0)) = Num (0)"
    by (simp add: fl_add_def)
  have t8: "fl_add round64 (Num (0)) (Num (- 2)) = Num (- 2)"
    by (simp add: fl_add_def, rule round64_normalI [where m = "- 4503599627370496" and q = "- 51" and u = "1 / 2 ^ 51"])
       (simp_all add: power_int_minus power2_eq_square)
  have t9: "fl_mul round64 (Num (18000)) (Num (10)) = Num (180000)"
    by (simp add: fl_mul_def, rule round64_normalI [where m = "6184752906240000" and q = "- 35" and u = "1 / 2 ^ 35"])
       (simp_all add: power_int_minus power2_eq_square)
  have t10: "fl_add round64 (Num (- 2)) (Num (0)) = Num (- 2)"
    by (simp add: fl_add_def, rule round64_normalI [where m = "- 4503599627370496" and q = "- 51" and u = "1 / 2 ^ 51"])
       (simp_all add: power_int_minus power2_eq_square)
  have t11: "fl_add round64 (Num (0)) (Num (180000)) = Num (180000)"
    by (simp add: fl_add_def, rule round64_normalI [where m = "6184752906240000" and q = "- 35" and u = "1 / 2 ^ 35"])
       (simp_all add: power_int_minus power2_eq_square)
  have t12: "fl_mul round64 (Num (- 1)) (Num (5764607523034235 / 288230376151711744)) = Num (- (5764607523034235 / 288230376151711744))"
    by (simp add: fl_mul_def, rule round64_normalI [where m = "- 5764607523034235" and q = "- 58" and u = "1 / 2 ^ 58"])
       (simp_all add: power_int_minus power2_eq_square)
  have t13: "fl_mul round64 (Num (- (5764607523034235 / 288230376151711744))) (Num (10)) = Num (- (3602879701896397 / 18014398509481984))"
    by (simp add: fl_mul_def, rule round64_normalI [where m = "- 7205759403792794" and q = "- 55" and u = "1 / 2 ^ 55"])
       (simp_all add: power_int_minus power2_eq_square)
  have t14: "fl_add round64 (Num (180000)) (Num (- (3602879701896397 / 18014398509481984))) = Num (3092373017146163 / 17179869184)"
    by (simp add: fl_add_def, rule round64_normalI [where m = "6184746034292326" and q = "- 35" and u = "1 / 2 ^ 35"])
       (simp_all add: power_int_minus power2_eq_square)
  have t15: "fl_sub round64 (Num (1)) (Num (5764607523034235 / 288230376151711744)) = Num (2206763817411543 / 2251799813685248)"
    by (simp add: fl_sub_def fl_add_def, rule round64_normalI [where m = "8827055269646172" and q = "- 53" and u = "1 / 2 ^ 53"])
       (simp_all add: power_int_minus power2_eq_square)
  have t16: "fl_div round64 (Num (1)) (Num (60)) = Num (4803839602528529 / 288230376151711744)"
    by (simp add: fl_div_def, rule round64_normalI [where m = "4803839602528529" and q = "- 58" and u = "1 / 2 ^ 58"])
       (simp_all add: power_int_minus power2_eq_square)
  have t17: "fl_mul round64 (Num (4803839602528529 / 288230376151711744)) (Num (4803839602528529 / 288230376151711744)) = Num (5124095576030431 / 18446744073709551616)"
    by (simp add: fl_mul_def, rule round64_normalI [where m = "5124095576030431" and q = "- 64" and u = "1 / 2 ^ 64"])
       (simp_all add: power_int_minus power2_eq_square)
  have t18: "fl_sub round64 (Num (1)) (Num (1)) = Num (0)"
    by (simp add: fl_sub_def fl_add_def)
  have t19: "fl_mul round64 (Num (0)) (Num (2206763817411543 / 2251799813685248)) = Num (0)"
    by (simp add: fl_mul_def)
  have t20: "fl_add round64 (Num (1)) (Num (0)) = Num (1)"
    by (simp add: fl_add_def, rule round64_normalI [where m = "4503599627370496" and q = "- 52" and u = "1 / 2 ^ 52"])
       (simp_all add: power_int_minus power2_eq_square)
  have t21: "fl_mul round64 (Num (0)) (Num (5124095576030431 / 18446744073709551616)) = Num (0)"
    by (simp add: fl_mul_def)
  have t22: "fl_mul round64 (Num (- 2)) (Num (5124095576030431 / 18446744073709551616)) = Num (- (5124095576030431 / 9223372036854775808))"
    by (simp add: fl_mul_def, rule round64_normalI [where m = "- 5124095576030431" and q = "- 63" and u = "1 / 2 ^ 63"])
       (simp_all add: power_int_minus power2_eq_square)
  have t23: "fl_mul round64 (Num (3092373017146163 / 17179869184)) (Num (5124095576030431 / 18446744073709551616)) = Num (3518433299508523 / 70368744177664)"
    by (simp add: fl_mul_def, rule round64_normalI [where m = "7036866599017046" and q = "- 47" and u = "1 / 2 ^ 47"])
       (simp_all add: power_int_minus power2_eq_square)
  have t24: "fl_add round64 (Num (1)) (Num (- (5124095576030431 / 9223372036854775808))) = Num (9002195255155025 / 9007199254740992)"
    by (simp add: fl_add_def, rule round64_normalI [where m = "9002195255155025" and q = "- 53" and u = "1 / 2 ^ 53"])
       (simp_all add: power_int_minus power2_eq_square)
  have t25: "fl_add round64 (Num (1)) (Num (3518433299508523 / 70368744177664)) = Num (3588802043686187 / 70368744177664)"
    by (simp add: fl_add_def, rule round64_normalI [where m = "7177604087372374" and q = "- 47" and u = "1 / 2 ^ 47"])
       (simp_all add: power_int_minus power2_eq_square)
  have t26: "fl_sub round64 (Num (9002195255155025 / 9007199254740992)) (Num (1)) = Num (- (5003999585967 / 9007199254740992))"
    by (simp add: fl_sub_def fl_add_def, rule round64_normalI [where m = "- 5124095576030208" and q = "- 63" and u = "1 / 2 ^ 63"])
       (simp_all add: power_int_minus power2_eq_square)
  have t27: "fl_sub round64 (Num (3588802043686187 / 70368744177664)) (Num (1)) = Num (3518433299508523 / 70368744177664)"
    by (simp add: fl_sub_def fl_add_def, rule round64_normalI [where m = "7036866599017046" and q = "- 47" and u = "1 / 2 ^ 47"])
       (simp_all add: power_int_minus power2_eq_square)
  have t28: "fl_mul round64 (Num (0)) (Num (0)) = Num (0)"
    by (simp add: fl_mul_def)
  have t29: "fl_mul round64 (Num (- (5003999585967 / 9007199254740992))) (Num (- (5003999585967 / 9007199254740992))) = Num (2915041038808169 / 9444732965739290427392)"
    by (simp add: fl_mul_def, rule round64_normalI [where m = "5830082077616338" and q = "- 74" and u = "1 / 2 ^ 74"])
       (simp_all add: power_int_minus power2_eq_square)
  have t30: "fl_mul round64 (Num (3518433299508523 / 70368744177664)) (Num (3518433299508523 / 70368744177664)) = Num (5497545922090921 / 2199023255552)"
    by (simp add: fl_mul_def, rule round64_normalI [where m = "5497545922090921" and q = "- 41" and u = "1 / 2 ^ 41"])
       (simp_all add: power_int_minus power2_eq_square)
  have t31: "fl_add round64 (Num (0)) (Num (2915041038808169 / 9444732965739290427392)) = Num (2915041038808169 / 9444732965739290427392)"
    by (simp add: fl_add_def, rule round64_normalI [where m = "5830082077616338" and q = "- 74" and u = "1 / 2 ^ 74"])
       (simp_all add: power_int_minus power2_eq_square)
  have t32: "fl_add round64 (Num (2915041038808169 / 9444732965739290427392)) (Num (5497545922090921 / 2199023255552)) = Num (171798310086551 / 68719476736)"
    by (simp add: fl_add_def, rule round64_normalI [where m = "5497545922769632" and q = "- 41" and u = "1 / 2 ^ 41"])
       (simp_all add: power_int_minus power2_eq_square)
  have t33: "fl_sqrt round64 (Num (171798310086551 / 68719476736)) = Num (7036866599451421 / 140737488355328)"
    by (simp add: fl_sqrt_def, rule round64_sqrtI [where m = "7036866599451421" and q = "- 47" and u = "1 / 2 ^ 47"])
       (simp_all add: power_int_minus power2_eq_square)
  have t34: "fl_div round64 (Num (1)) (Num (7036866599451421 / 140737488355328)) = Num (2882306963902491 / 144115188075855872)"
    by (simp add: fl_div_def, rule round64_normalI [where m = "5764613927804982" and q = "- 58" and u = "1 / 2 ^ 58"])
       (simp_all add: power_int_minus power2_eq_square)
  have t35: "fl_mul round64 (Num (0)) (Num (2882306963902491 / 144115188075855872)) = Num (0)"
    by (simp add: fl_mul_def)
  have t36: "fl_mul round64 (Num (- (5003999585967 / 9007199254740992))) (Num (2882306963902491 / 144115188075855872)) = Num (- (3279424812262247 / 295147905179352825856))"
    by (simp add: fl_mul_def, rule round64_normalI [where m = "- 6558849624524494" and q = "- 69" and u = "1 / 2 ^ 69"])
       (simp_all add: power_int_minus power2_eq_square)
  have t37: "fl_mul round64 (Num (3518433299508523 / 70368744177664)) (Num (2882306963902491 / 144115188075855872)) = Num (281474976693281 / 281474976710656)"
    by (simp add: fl_mul_def, rule round64_normalI [where m = "9007199254184992" and q = "- 53" and u = "1 / 2 ^ 53"])
       (simp_all add: power_int_minus power2_eq_square)
  have t38: "fl_mul round64 (Num (0)) (Num (5)) = Num (0)"
    by (simp add: fl_mul_def)
  have t39: "fl_mul round64 (Num (- (3279424812262247 / 295147905179352825856))) (Num (5)) = Num (- (4099281015327809 / 73786976294838206464))"
    by (simp add: fl_mul_def, rule round64_tieI [where m = "- 8198562030655618" and q = "- 67" and u = "1 / 2 ^ 67"])
       (simp_all add: power_int_minus power2_eq_square)
  have t40: "fl_mul round64 (Num (281474976693281 / 281474976710656)) (Num (5)) = Num (1407374883466405 / 281474976710656)"
    by (simp add: fl_mul_def, rule round64_normalI [where m = "5629499533865620" and q = "- 50" and u = "1 / 2 ^ 50"])
       (simp_all add: power_int_minus power2_eq_square)
  have t41: "fl_add round64 (Num (1)) (Num (- (4099281015327809 / 73786976294838206464))) = Num (4503349427113213 / 4503599627370496)"
    by (simp add: fl_add_def, rule round64_normalI [where m = "9006698854226426" and q = "- 53" and u = "1 / 2 ^ 53"])
       (simp_all add: power_int_minus power2_eq_square)
  have t42: "fl_add round64 (Num (1)) (Num (1407374883466405 / 281474976710656)) = Num (1688849860177061 / 281474976710656)"
    by (simp add: fl_add_def, rule round64_normalI [where m = "6755399440708244" and q = "- 50" and u = "1 / 2 ^ 50"])
       (simp_all add: power_int_minus power2_eq_square)
  have t43: "fl_sub round64 (Num (4503349427113213 / 4503599627370496)) (Num (1)) = Num (- (250200257283 / 4503599627370496))"
    by (simp add: fl_sub_def fl_add_def, rule round64_normalI [where m = "- 8198562030649344" and q = "- 67" and u = "1 / 2 ^ 67"])
       (simp_all add: power_int_minus power2_eq_square)
  have t44: "fl_sub round64 (Num (1688849860177061 / 281474976710656)) (Num (1)) = Num (1407374883466405 / 281474976710656)"
    by (simp add: fl_sub_def fl_add_def, rule round64_normalI [where m = "5629499533865620" and q = "- 50" and u = "1 / 2 ^ 50"])
       (simp_all add: power_int_minus power2_eq_square)
  have t45: "fl_mul round64 (Num (- (250200257283 / 4503599627370496))) (Num (- (250200257283 / 4503599627370496))) = Num (3731260820894205 / 1208925819614629174706176)"
    by (simp add: fl_mul_def, rule round64_normalI [where m = "7462521641788410" and q = "- 81" and u = "1 / 2 ^ 81"])
       (simp_all add: power_int_minus power2_eq_square)
  have t46: "fl_mul round64 (Num (1407374883466405 / 281474976710656)) (Num (1407374883466405 / 281474976710656)) = Num (3518437208448825 / 140737488355328)"
    by (simp add: fl_mul_def, rule round64_normalI [where m = "7036874416897650" and q = "- 48" and u = "1 / 2 ^ 48"])
       (simp_all add: power_int_minus power2_eq_square)
  have t47: "fl_add round64 (Num (0)) (Num (3731260820894205 / 1208925819614629174706176)) = Num (3731260820894205 / 1208925819614629174706176)"
    by (simp add: fl_add_def, rule round64_normalI [where m = "7462521641788410" and q = "- 81" and u = "1 / 2 ^ 81"])
       (simp_all add: power_int_minus power2_eq_square)
  have t48: "fl_add round64 (Num (3731260820894205 / 1208925819614629174706176)) (Num (3518437208448825 / 140737488355328)) = Num (3518437208883201 / 140737488355328)"
    by (simp add: fl_add_def, rule round64_normalI [where m = "7036874417766402" and q = "- 48" and u = "1 / 2 ^ 48"])
       (simp_all add: power_int_minus power2_eq_square)
  have t49: "fl_sqrt round64 (Num (3518437208883201 / 140737488355328)) = Num (5629499534213121 / 1125899906842624)"
    by (simp add: fl_sqrt_def, rule round64_sqrtI [where m = "5629499534213121" and q = "- 50" and u = "1 / 2 ^ 50"])
       (simp_all add: power_int_minus power2_eq_square)
  have p: "new_Particle (Vector3 (Num 1) (Num 1) (Num 1)) (round64 0.1) = \<lparr>position = Vector3 (Num (1)) (Num (1)) (Num (1)), oldPosition = Vector3 (Num (1)) (Num (1)) (Num (1)), acceleration = Vector3 (Num (0)) (Num (0)) (Num (0)), mass = Num (3602879701896397 / 36028797018963968), pinned = False\<rparr>"
    by (simp add: new_Particle_def zero3_def t1 t2 t3 t4 t5 t6 t7 t8 t9 t10 t11 t12 t13 t14 t15 t16 t17 t18 t19 t20 t21 t22 t23 t24 t25 t26 t27 t28 t29 t30 t31 t32 t33 t34 t35 t36 t37 t38 t39 t40 t41 t42 t43 t44 t45 t46 t47 t48 t49)
  have acc: "accumulate_forces_fl round64 (Vector3 (Num 0) (Num 18000) (Num 0)) (\<lparr>position = Vector3 (Num (1)) (Num (1)) (Num (1)), oldPosition = Vector3 (Num (1)) (Num (1)) (Num (1)), acceleration = Vector3 (Num (0)) (Num (0)) (Num (0)), mass = Num (3602879701896397 / 36028797018963968), pinned = False\<rparr>) = \<lparr>position = Vector3 (Num (1)) (Num (1)) (Num (1)), oldPosition = Vector3 (Num (1)) (Num (1)) (Num (1)), acceleration = Vector3 (Num (0)) (Num (- 2)) (Num (3092373017146163 / 17179869184)), mass = Num (3602879701896397 / 36028797018963968), pinned = False\<rparr>"
    by (simp add: accumulate_forces_fl_def addForce_fl_def divideScalar_fl_def multiplyScalar_fl_def
          addVectors_fl_def Let_def t1 t2 t3 t4 t5 t6 t7 t8 t9 t10 t11 t12 t13 t14 t15 t16 t17 t18 t19 t20 t21 t22 t23 t24 t25 t26 t27 t28 t29 t30 t31 t32 t33 t34 t35 t36 t37 t38 t39 t40 t41 t42 t43 t44 t45 t46 t47 t48 t49)
  have np: "verlet_newPos_fl round64 (\<lparr>position = Vector3 (Num (1)) (Num (1)) (Num (1)), oldPosition = Vector3 (Num (1)) (Num (1)) (Num (1)), acceleration = Vector3 (Num (0)) (Num (- 2)) (Num (3092373017146163 / 17179869184)), mass = Num (3602879701896397 / 36028797018963968), pinned = False\<rparr>) = Vector3 (Num (1)) (Num (9002195255155025 / 9007199254740992)) (Num (3588802043686187 / 70368744177664))"
    by (simp add: verlet_newPos_fl_def DRAG_fl_def timeStep_fl_def subVectors_fl_def multiplyScalar_fl_def
          addVectors_fl_def t1 t2 t3 t4 t5 t6 t7 t8 t9 t10 t11 t12 t13 t14 t15 t16 t17 t18 t19 t20 t21 t22 t23 t24 t25 t26 t27 t28 t29 t30 t31 t32 t33 t34 t35 t36 t37 t38 t39 t40 t41 t42 t43 t44 t45 t46 t47 t48 t49)
  have d: "subVectors_fl round64 (Vector3 (Num (1)) (Num (9002195255155025 / 9007199254740992)) (Num (3588802043686187 / 70368744177664))) (Vector3 (Num (1)) (Num (1)) (Num (1))) = Vector3 (Num (0)) (Num (- (5003999585967 / 9007199254740992))) (Num (3518433299508523 / 70368744177664))"
    by (simp add: subVectors_fl_def t1 t2 t3 t4 t5 t6 t7 t8 t9 t10 t11 t12 t13 t14 t15 t16 t17 t18 t19 t20 t21 t22 t23 t24 t25 t26 t27 t28 t29 t30 t31 t32 t33 t34 t35 t36 t37 t38 t39 t40 t41 t42 t43 t44 t45 t46 t47 t48 t49)
  have len: "vlength_fl round64 (Vector3 (Num (0)) (Num (- (5003999585967 / 9007199254740992))) (Num (3518433299508523 / 70368744177664))) = Num (7036866599451421 / 140737488355328)"
    by (simp add: vlength_fl_def t1 t2 t3 t4 t5 t6 t7 t8 t9 t10 t11 t12 t13 t14 t15 t16 t17 t18 t19 t20 t21 t22 t23 t24 t25 t26 t27 t28 t29 t30 t31 t32 t33 t34 t35 t36 t37 t38 t39 t40 t41 t42 t43 t44 t45 t46 t47 t48 t49)
  have e: "multiplyScalar_fl round64 (normalize_fl round64 (Vector3 (Num (0)) (Num (- (5003999585967 / 9007199254740992))) (Num (3518433299508523 / 70368744177664)))) (Num 5) = Vector3 (Num (0)) (Num (- (4099281015327809 / 73786976294838206464))) (Num (1407374883466405 / 281474976710656))"
    by (simp add: normalize_fl_def len js_or_def divideScalar_fl_def multiplyScalar_fl_def t1 t2 t3 t4 t5 t6 t7 t8 t9 t10 t11 t12 t13 t14 t15 t16 t17 t18 t19 t20 t21 t22 t23 t24 t25 t26 t27 t28 t29 t30 t31 t32 t33 t34 t35 t36 t37 t38 t39 t40 t41 t42 t43 t44 t45 t46 t47 t48 t49)
  have new: "addVectors_fl round64 (Vector3 (Num (1)) (Num (1)) (Num (1))) (Vector3 (Num (0)) (Num (- (4099281015327809 / 73786976294838206464))) (Num (1407374883466405 / 281474976710656))) = Vector3 (Num (1)) (Num (4503349427113213 / 4503599627370496)) (Num (1688849860177061 / 281474976710656))"
    by (simp add: addVectors_fl_def t1 t2 t3 t4 t5 t6 t7 t8 t9 t10 t11 t12 t13 t14 t15 t16 t17 t18 t19 t20 t21 t22 t23 t24 t25 t26 t27 t28 t29 t30 t31 t32 t33 t34 t35 t36 t37 t38 t39 t40 t41 t42 t43 t44 t45 t46 t47 t48 t49)
  show "step_particle_fl round64 (Vector3 (Num 0) (Num 18000) (Num 0))
        (new_Particle (Vector3 (Num 1) (Num 1) (Num 1)) (round64 0.1))
         = \<lparr>position = Vector3 (Num (1)) (Num (4503349427113213 / 4503599627370496)) (Num (1688849860177061 / 281474976710656)), oldPosition = Vector3 (Num (1)) (Num (1)) (Num (1)), acceleration = Vector3 (Num (0)) (Num (0)) (Num (0)), mass = Num (3602879701896397 / 36028797018963968), pinned = False\<rparr>"
    unfolding p by (simp add: step_particle_fl_def acc integrate_fl_def Let_def np d len e new MAX_DISPLACEMENT_def zero3_def)
  show "unclamped_displacement round64 (Vector3 (Num 0) (Num 18000) (Num 0))
        (new_Particle (Vector3 (Num 1) (Num 1) (Num 1)) (round64 0.1))
         = Vector3 (Num (0)) (Num (- (5003999585967 / 9007199254740992))) (Num (3518433299508523 / 70368744177664))"
    unfolding p by (simp add: unclamped_displacement_def acc np d)
  show "vlength_fl round64 (Vector3 (Num (0)) (Num (- (5003999585967 / 9007199254740992))) (Num (3518433299508523 / 70368744177664)))
         = Num (7036866599451421 / 140737488355328)"
    by (rule len)
  have c: "subVectors_fl round64 (Vector3 (Num (1)) (Num (4503349427113213 / 4503599627370496)) (Num (1688849860177061 / 281474976710656))) (Vector3 (Num (1)) (Num (1)) (Num (1))) = Vector3 (Num (0)) (Num (- (250200257283 / 4503599627370496))) (Num (1407374883466405 / 281474976710656))"
    by (simp add: subVectors_fl_def t1 t2 t3 t4 t5 t6 t7 t8 t9 t10 t11 t12 t13 t14 t15 t16 t17 t18 t19 t20 t21 t22 t23 t24 t25 t26 t27 t28 t29 t30 t31 t32 t33 t34 t35 t36 t37 t38 t39 t40 t41 t42 t43 t44 t45 t46 t47 t48 t49)
  show "vlength_fl round64 (subVectors_fl round64 (Vector3 (Num (1)) (Num (4503349427113213 / 4503599627370496)) (Num (1688849860177061 / 281474976710656)))
           (Vector3 (Num (1)) (Num (1)) (Num (1)))) = Num (5629499534213121 / 1125899906842624)"
    unfolding c by (simp add: vlength_fl_def t1 t2 t3 t4 t5 t6 t7 t8 t9 t10 t11 t12 t13 t14 t15 t16 t17 t18 t19 t20 t21 t22 t23 t24 t25 t26 t27 t28 t29 t30 t31 t32 t33 t34 t35 t36 t37 t38 t39 t40 t41 t42 t43 t44 t45 t46 t47 t48 t49)
qed

section \<open>The claims\<close>

subsection \<open>C1: pinned particles do not move\<close>

text \<open>
  C1. In any state, the force loop, the integration and the five relaxation passes of
  one \<open>simulate\<close> call leave a pinned particle exactly as it was. In a cloth that
  \<open>createCloth\<close> has built, a pinned particle stays pinned and keeps its position through
  any number of \<open>simulate\<close> calls, whatever the wind force before each call and wherever
  the other particles are: a full reset puts it back where it already is.
\<close>

theorem pinned_immobile:
  assumes "k < length (particles s)" and "pinned (particles s ! k)"
  shows "particles (relaxed s) ! k = particles s ! k \<and>
         (built s \<longrightarrow>
            k < length (particles (run ws s)) \<and> pinned (particles (run ws s) ! k) \<and>
            position (particles (run ws s) ! k) = position (particles s ! k))"
  using pinned_survives_relaxed [OF assms] run_pinned [OF _ assms] by blast

theorem pinned_immobile_witness:
  "particles (relaxed ngOnInit) ! 0 = particles ngOnInit ! 0 \<and>
   position (particles (run [Vector3 (Num 0) (Num 2.25) (Num 0), zero3] ngOnInit) ! 0)
     = position (particles ngOnInit ! 0)"
  using pinned_immobile [of 0 ngOnInit "[Vector3 (Num 0) (Num 2.25) (Num 0), zero3]"]
    built_createCloth [of constructed] particles_ngOnInit_0
  by (simp add: ngOnInit_def)

subsection \<open>C2: explosion and full reset\<close>

text \<open>
  C2. If, after the relaxation, some particle has a coordinate that is not finite or
  whose magnitude is above 1000, then \<open>simulate\<close> rebuilds the cloth: the particles and
  constraints are those \<open>createCloth\<close> makes, every grid point \<open>(u, v)\<close> is at its flat
  rest position, the wind force is zero and the simulation is no longer active.
\<close>

theorem explosion_full_reset:
  assumes "\<exists>p\<in>set (particles (relaxed s)). out_of_bounds (position p)"
  shows "particles (simulate s) = particles (createCloth s) \<and>
         constraints (simulate s) = constraints (createCloth s) \<and>
         length (particles (simulate s)) = (segmentsW s + 1) * (segmentsH s + 1) \<and>
         (\<forall>u v. u \<le> segmentsW s \<longrightarrow> v \<le> segmentsH s \<longrightarrow>
            position (particles (simulate s) ! index s u v) = grid_pos s u v) \<and>
         map position (particles (simulate s)) = initialPositions (simulate s) \<and>
         windForce (simulate s) = zero3 \<and>
         \<not> isSimulationActive (simulate s)"
proof -
  have sim: "simulate s = fullReset (relaxed s)"
    using assms by (simp add: simulate_exploded checkSimulationExploded_iff)
  have cp: "create_particles (relaxed s) = create_particles s" by (rule create_particles_relaxed)
  have cc: "create_constraints (relaxed s) = create_constraints s"
    by (rule create_constraints_cong) (simp_all add: relaxed_def)
  have ps: "particles (simulate s) = snd (create_particles s)"
    by (simp add: sim particles_fullReset cp)
  have "constraints (createCloth s) = create_constraints s"
    by (simp add: createCloth_def split: prod.splits)
  then have cs: "constraints (simulate s) = constraints (createCloth s)"
    by (simp add: sim fullReset_fields cc)
  have pos: "\<forall>u v. u \<le> segmentsW s \<longrightarrow> v \<le> segmentsH s \<longrightarrow>
            position (particles (simulate s) ! index s u v) = grid_pos s u v"
    by (simp add: ps created_nth)
  have ip: "map position (particles (simulate s)) = initialPositions (simulate s)"
    by (simp add: ps grid_positions) (simp add: sim fullReset_fields cp)
  show ?thesis
    using ps cs pos ip by (simp add: particles_createCloth created_length) (simp add: sim fullReset_fields)
qed

theorem explosion_full_reset_witness:
  "particles (simulate (ngOnInit
      \<lparr>particles := (particles ngOnInit)
          [0 := (particles ngOnInit ! 0)\<lparr>position := Vector3 (Num 0) (Num 0) (Num 2000)\<rparr>],
       windForce := Vector3 (Num 0) (Num 2.25) (Num 0),
       isSimulationActive := True\<rparr>)) = particles ngOnInit \<and>
   windForce (simulate (ngOnInit
      \<lparr>particles := (particles ngOnInit)
          [0 := (particles ngOnInit ! 0)\<lparr>position := Vector3 (Num 0) (Num 0) (Num 2000)\<rparr>],
       windForce := Vector3 (Num 0) (Num 2.25) (Num 0),
       isSimulationActive := True\<rparr>)) = zero3 \<and>
   \<not> isSimulationActive (simulate (ngOnInit
      \<lparr>particles := (particles ngOnInit)
          [0 := (particles ngOnInit ! 0)\<lparr>position := Vector3 (Num 0) (Num 0) (Num 2000)\<rparr>],
       windForce := Vector3 (Num 0) (Num 2.25) (Num 0),
       isSimulationActive := True\<rparr>))"
proof -
  let ?s = "ngOnInit
      \<lparr>particles := (particles ngOnInit)
          [0 := (particles ngOnInit ! 0)\<lparr>position := Vector3 (Num 0) (Num 0) (Num 2000)\<rparr>],
       windForce := Vector3 (Num 0) (Num 2.25) (Num 0),
       isSimulationActive := True\<rparr>"
  have k: "0 < length (particles ?s)" and p: "pinned (particles ?s ! 0)"
    and z: "position (particles ?s ! 0) = Vector3 (Num 0) (Num 0) (Num 2000)"
    using particles_ngOnInit_0 by simp_all
  from pinned_survives_relaxed [OF k p]
  have "particles (relaxed ?s) ! 0 = particles ?s ! 0" and "0 < length (particles (relaxed ?s))"
    by simp_all
  then have "particles ?s ! 0 \<in> set (particles (relaxed ?s))"
    by (metis nth_mem)
  moreover have "out_of_bounds (position (particles ?s ! 0))"
    unfolding z by (simp add: out_of_bounds_def)
  ultimately have "\<exists>p\<in>set (particles (relaxed ?s)). out_of_bounds (position p)"
    by blast
  note reset = explosion_full_reset [OF this]
  have "create_particles ?s = create_particles constructed"
    by (rule create_particles_cong) (simp_all add: ngOnInit_def createCloth_def split: prod.splits)
  then have "particles (createCloth ?s) = particles ngOnInit"
    by (simp add: particles_createCloth ngOnInit_def)
  with reset show ?thesis by simp
qed

subsection \<open>C3: the Verlet step\<close>

text \<open>
  C3. For an unpinned particle whose unclamped displacement is not above the cap of
  5, the integration stage of \<open>simulate\<close> sets the position to
  \<open>position + (position - oldPosition) * 0.98 + acceleration * (1/60)\<^sup>2\<close>, with the
  acceleration accumulated in this step, the old position to the position before the
  step, and the acceleration to zero.
\<close>

theorem verlet_step:
  assumes "k < length (particles s)" and "\<not> pinned (particles s ! k)"
    and "\<not> js_gt (vlength (subVectors
              (verlet_formula (particles s ! k)
                 (acceleration (accumulate_forces (windForce s) (particles s ! k))))
              (position (particles s ! k)))) (Num 5)"
  shows "map (step_particle (windForce s)) (particles s) ! k =
           (particles s ! k)
             \<lparr>oldPosition := position (particles s ! k),
              position :=
                verlet_formula (particles s ! k)
                  (acceleration (accumulate_forces (windForce s) (particles s ! k))),
              acceleration := zero3\<rparr>"
proof -
  let ?p = "particles s ! k"
  let ?q = "accumulate_forces (windForce s) ?p"
  have q: "?q = ?p\<lparr>acceleration := acceleration ?q\<rparr>"
    by (simp add: accumulate_forces_def addForce_def Let_def)
  have "integrate ?q = ?q\<lparr>oldPosition := position ?p, position := verlet_formula ?p (acceleration ?q),
      acceleration := zero3\<rparr>"
    using assms(3) by (simp add: integrate_def Let_def verlet_newPos_formula MAX_DISPLACEMENT_def)
  also have "\<dots> = ?p\<lparr>oldPosition := position ?p, position := verlet_formula ?p (acceleration ?q),
      acceleration := zero3\<rparr>"
    by (subst q) simp
  finally show ?thesis using assms(1,2) by (simp add: step_particle_def)
qed

theorem verlet_step_witness:
  "map (step_particle (windForce (constructed\<lparr>particles := [new_Particle zero3 MASS]\<rparr>)))
       (particles (constructed\<lparr>particles := [new_Particle zero3 MASS]\<rparr>)) ! 0
   = \<lparr>position = Vector3 (Num 0) (Num (- 1 / 1800)) (Num 0), oldPosition = zero3,
      acceleration = zero3, mass = MASS, pinned = False\<rparr>"
proof -
  let ?s = "constructed\<lparr>particles := [new_Particle zero3 MASS]\<rparr>"
  have acc: "acceleration (accumulate_forces (windForce ?s) (particles ?s ! 0)) = Vector3 (Num 0) (Num (- 2)) (Num 0)"
    by (simp add: constructed_def accumulate_forces_def addForce_def divideScalar_def multiplyScalar_def
        addVectors_def gravity_def zero3_def MASS_def new_Particle_def Let_def)
  have f: "verlet_formula (particles ?s ! 0) (Vector3 (Num 0) (Num (- 2)) (Num 0))
       = Vector3 (Num 0) (Num (- 1 / 1800)) (Num 0)"
    by (simp add: verlet_formula_def new_Particle_def zero3_def subVectors_def addVectors_def
        multiplyScalar_def js_sub_def power2_eq_square)
  have small: "\<not> js_gt (vlength (subVectors (Vector3 (Num 0) (Num (- 1 / 1800)) (Num 0))
        (position (particles ?s ! 0)))) (Num 5)"
    by (simp add: new_Particle_def zero3_def subVectors_def js_sub_def vlength_def sqrt_not_above_5)
  show ?thesis
    using verlet_step [of 0 ?s] small
    by (simp only: acc f) (simp add: new_Particle_def)
qed

subsection \<open>C4: the displacement clamp\<close>

text \<open>
  C4 as stated fails. A particle at rest at \<open>(1, 1, 1)\<close> with mass \<open>0.1\<close>, under a wind force
  with y component 18000, has an unclamped displacement of about 50 units. The clamp
  commits the position \<open>(1, 0.9999444443827195, 5.999999999691358)\<close>: the committed
  displacement, new position minus new old position, has a computed length above
  \<open>MAX_DISPLACEMENT = 5\<close>, and its exact squared length is above 25.
\<close>

theorem clamp_rounding_counterexample:
  "js_gt (vlength_fl round64 (subVectors_fl round64
       (position (step_particle_fl round64 (Vector3 (Num 0) (Num 18000) (Num 0))
        (new_Particle (Vector3 (Num 1) (Num 1) (Num 1)) (round64 0.1))))
       (oldPosition (step_particle_fl round64 (Vector3 (Num 0) (Num 18000) (Num 0))
        (new_Particle (Vector3 (Num 1) (Num 1) (Num 1)) (round64 0.1))))))
     MAX_DISPLACEMENT \<and>
   25 < exact_length_sq (exact_diff
       (position (step_particle_fl round64 (Vector3 (Num 0) (Num 18000) (Num 0))
        (new_Particle (Vector3 (Num 1) (Num 1) (Num 1)) (round64 0.1))))
       (oldPosition (step_particle_fl round64 (Vector3 (Num 0) (Num 18000) (Num 0))
        (new_Particle (Vector3 (Num 1) (Num 1) (Num 1)) (round64 0.1)))))"
  unfolding step_particle_fl_example(1)
  by (simp add: step_particle_fl_example(4) MAX_DISPLACEMENT_def exact_length_sq_def exact_diff_def
        val_def power2_eq_square)

text \<open>
  C4, amended. For every unpinned particle whose position is finite before and after
  the integration stage, the exact length of the committed displacement is at most
  \<open>5 + 1 / 2 ^ 45\<close> plus \<open>1 / 2 ^ 53\<close> times the length of the position: it exceeds
  \<open>MAX_DISPLACEMENT = 5\<close> by rounding error at most. When the computed length \<open>l\<close> of the
  unclamped displacement is finite and above 5, the committed displacement differs
  from the unclamped displacement scaled to length exactly 5 by a vector of length at
  most \<open>1 / 2 ^ 46\<close> plus \<open>1 / 2 ^ 53\<close> times the length of the position.
\<close>

theorem displacement_clamped_rounded:
  assumes u: "\<not> pinned p" and fp: "finite3 (position p)"
    and fr: "finite3 (position (step_particle_fl round64 w p))"
  shows "sqrt (exact_length_sq (exact_diff (position (step_particle_fl round64 w p))
                                            (oldPosition (step_particle_fl round64 w p))))
           \<le> 5 + 1 / 2 ^ 45 + sqrt (exact_length_sq (position p)) / 2 ^ 53 \<and>
         (vlength_fl round64 (unclamped_displacement round64 w p) = Num l \<and> 5 < l \<longrightarrow>
          sqrt (exact_length_sq (exact_diff
                  (exact_diff (position (step_particle_fl round64 w p))
                              (oldPosition (step_particle_fl round64 w p)))
                  (scaled_to 5 (unclamped_displacement round64 w p))))
           \<le> 1 / 2 ^ 46 + sqrt (exact_length_sq (position p)) / 2 ^ 53)"
proof -
  define d where "d = unclamped_displacement round64 w p"
  define np where "np = verlet_newPos_fl round64 (accumulate_forces_fl round64 w p)"
  have dd: "d = subVectors_fl round64 np (position p)"
    by (simp add: d_def np_def unclamped_displacement_def)
  have pos: "position (step_particle_fl round64 w p) =
     (if js_gt (vlength_fl round64 d) (Num 5)
      then addVectors_fl round64 (position p) (multiplyScalar_fl round64 (normalize_fl round64 d) (Num 5))
      else np)"
    using u by (simp add: step_particle_fl_def integrate_fl_def Let_def MAX_DISPLACEMENT_def
        accumulate_forces_fl_fields np_def dd)
  have old: "oldPosition (step_particle_fl round64 w p) = position p"
    using u by (simp add: step_particle_fl_def integrate_fl_def Let_def accumulate_forces_fl_fields)
  from finite3_Num [OF fp] obtain x1 x2 x3 where P: "position p = Vector3 (Num x1) (Num x2) (Num x3)"
    by blast
  from finite3_Num [OF fr] obtain r1 r2 r3 where
    R: "position (step_particle_fl round64 w p) = Vector3 (Num r1) (Num r2) (Num r3)"
    by blast
  have "nrm (r1 - x1) (r2 - x2) (r3 - x3) \<le> 5 + 1 / 2 ^ 45 + nrm x1 x2 x3 / 2 ^ 53"
  proof (cases "js_gt (vlength_fl round64 d) (Num 5)")
    case True
    with pos R P have "addVectors_fl round64 (Vector3 (Num x1) (Num x2) (Num x3))
              (multiplyScalar_fl round64 (normalize_fl round64 d) (Num 5))
            = Vector3 (Num r1) (Num r2) (Num r3)" by simp
    then show ?thesis by (rule clamp_bound [OF True])
  next
    case False
    with pos R have "np = Vector3 (Num r1) (Num r2) (Num r3)" by simp
    with False have "\<not> js_gt (vlength_fl round64 (subVectors_fl round64 (Vector3 (Num r1) (Num r2) (Num r3))
                  (Vector3 (Num x1) (Num x2) (Num x3)))) (Num 5)"
      by (simp add: dd P)
    then have "nrm (r1 - x1) (r2 - x2) (r3 - x3) \<le> 5 + 1 / 2 ^ 45" by (rule keep_bound)
    moreover have "0 \<le> nrm x1 x2 x3 / 2 ^ 53" using nrm_nonneg [of x1 x2 x3] by simp
    ultimately show ?thesis by linarith
  qed
  then have first: "sqrt (exact_length_sq (exact_diff (position (step_particle_fl round64 w p))
                                            (oldPosition (step_particle_fl round64 w p))))
           \<le> 5 + 1 / 2 ^ 45 + sqrt (exact_length_sq (position p)) / 2 ^ 53"
    unfolding old unfolding R P by (simp only: exact_length_diff exact_length_Num)
  have second: "sqrt (exact_length_sq (exact_diff
                  (exact_diff (position (step_particle_fl round64 w p))
                              (oldPosition (step_particle_fl round64 w p)))
                  (scaled_to 5 d)))
           \<le> 1 / 2 ^ 46 + sqrt (exact_length_sq (position p)) / 2 ^ 53"
    if L: "vlength_fl round64 d = Num l" and l5: "5 < l"
  proof -
    have gt: "js_gt (vlength_fl round64 d) (Num 5)" using L l5 by simp
    with pos R P have r: "addVectors_fl round64 (Vector3 (Num x1) (Num x2) (Num x3))
              (multiplyScalar_fl round64 (normalize_fl round64 d) (Num 5))
            = Vector3 (Num r1) (Num r2) (Num r3)" by simp
    from clamp_direction [OF L l5 r] obtain a1 a2 a3 where
      a: "d = Vector3 (Num a1) (Num a2) (Num a3)"
      and b: "nrm (r1 - x1 - 5 * a1 / nrm a1 a2 a3) (r2 - x2 - 5 * a2 / nrm a1 a2 a3)
               (r3 - x3 - 5 * a3 / nrm a1 a2 a3)
             \<le> 1 / 2 ^ 46 + nrm x1 x2 x3 / 2 ^ 53" by blast
    show ?thesis
      unfolding old unfolding R P a using b by (simp only: exact_length_scaled exact_length_Num)
  qed
  show ?thesis using first second unfolding d_def by blast
qed

theorem displacement_clamped_rounded_witness:
  "sqrt (exact_length_sq (exact_diff
       (position (step_particle_fl round64 (Vector3 (Num 0) (Num 18000) (Num 0))
        (new_Particle (Vector3 (Num 1) (Num 1) (Num 1)) (round64 0.1))))
       (oldPosition (step_particle_fl round64 (Vector3 (Num 0) (Num 18000) (Num 0))
        (new_Particle (Vector3 (Num 1) (Num 1) (Num 1)) (round64 0.1))))))
     \<le> 5 + 1 / 2 ^ 45 + sqrt (exact_length_sq (position (new_Particle (Vector3 (Num 1) (Num 1) (Num 1)) (round64 0.1)))) / 2 ^ 53 \<and>
   sqrt (exact_length_sq (exact_diff
       (exact_diff
          (position (step_particle_fl round64 (Vector3 (Num 0) (Num 18000) (Num 0))
        (new_Particle (Vector3 (Num 1) (Num 1) (Num 1)) (round64 0.1))))
          (oldPosition (step_particle_fl round64 (Vector3 (Num 0) (Num 18000) (Num 0))
        (new_Particle (Vector3 (Num 1) (Num 1) (Num 1)) (round64 0.1)))))
       (scaled_to 5 (unclamped_displacement round64 (Vector3 (Num 0) (Num 18000) (Num 0))
        (new_Particle (Vector3 (Num 1) (Num 1) (Num 1)) (round64 0.1))))))
     \<le> 1 / 2 ^ 46 + sqrt (exact_length_sq (position (new_Particle (Vector3 (Num 1) (Num 1) (Num 1)) (round64 0.1)))) / 2 ^ 53"
proof -
  let ?p = "new_Particle (Vector3 (Num 1) (Num 1) (Num 1)) (round64 0.1)"
  let ?w = "Vector3 (Num 0) (Num 18000) (Num 0)"
  have u: "\<not> pinned ?p" by (simp add: new_Particle_def)
  have fp: "finite3 (position ?p)" by (simp add: new_Particle_def finite3_def)
  have fr: "finite3 (position (step_particle_fl round64 ?w ?p))"
    unfolding step_particle_fl_example(1) by (simp add: finite3_def)
  have len: "vlength_fl round64 (unclamped_displacement round64 ?w ?p) = Num (7036866599451421 / 140737488355328)"
    unfolding step_particle_fl_example(2) by (rule step_particle_fl_example(3))
  have l5: "(5 :: real) < 7036866599451421 / 140737488355328" by simp
  from displacement_clamped_rounded [OF u fp fr, of "7036866599451421 / 140737488355328"] len l5
  show ?thesis by blast
qed

subsection \<open>C5: the accumulated acceleration\<close>




subsection \<open>C6: the order of the constraints\<close>

text \<open>
  C6 as stated fails: the constraint array of the component is not the horizontal
  links in row-major order followed by the vertical links. Its second entry is the
  vertical link of the grid point \<open>(0, 0)\<close>, from particle 0 to particle 41, and a
  horizontal link, from particle 1 to particle 2, comes after it.
\<close>

theorem constraints_not_rows_then_columns:
  "constraints ngOnInit \<noteq> horizontal_links ngOnInit @ vertical_links ngOnInit \<and>
   constraints ngOnInit ! 1 = new_Constraint 0 41 (Num 1.35) \<and>
   constraints ngOnInit ! 2 = new_Constraint 1 2 (Num 1.35)"
proof -
  have second: "insertion_order constructed ! 1 = vlink constructed 0 0"
    by (rule insertion_order_second) (simp_all add: constructed_def)
  have third: "insertion_order constructed ! 2 = hlink constructed 1 0"
    by (rule insertion_order_third) (simp_all add: constructed_def)
  have claimed: "(horizontal_links constructed @ vertical_links constructed) ! 1 = hlink constructed 1 0"
    by (rule row_major_second) (simp add: constructed_def)
  have cs: "constraints ngOnInit = insertion_order constructed"
    by (simp add: ngOnInit_def constraints_createCloth)
  have "constraints ngOnInit \<noteq> horizontal_links ngOnInit @ vertical_links ngOnInit"
  proof
    assume "constraints ngOnInit = horizontal_links ngOnInit @ vertical_links ngOnInit"
    then have "insertion_order constructed ! 1 = (horizontal_links constructed @ vertical_links constructed) ! 1"
      by (simp add: ngOnInit_def constraints_createCloth links_createCloth)
    with second claimed show False
      by (simp add: hlink_def vlink_def new_Constraint_def index_def)
  qed
  moreover have "constraints ngOnInit ! 1 = new_Constraint 0 41 (Num 1.35)"
    by (simp only: cs second) (simp add: vlink_def index_def constructed_def js_nat_def)
  moreover have "constraints ngOnInit ! 2 = new_Constraint 1 2 (Num 1.35)"
    by (simp only: cs third) (simp add: hlink_def index_def constructed_def js_nat_def numeral_2_eq_2)
  ultimately show ?thesis by simp
qed

text \<open>
  C6, amended. A relaxation pass visits the constraints in the order \<open>createCloth\<close>
  pushed them: for each row but the last, for each column but the last, the
  horizontal link of the grid point and then its vertical link; then the horizontal
  links of the last row; then the vertical links of the last column. The array holds
  every horizontal link and every vertical link exactly once and nothing else.
\<close>

theorem constraints_in_insertion_order:
  "constraints (createCloth s) = insertion_order s \<and>
   relax_pass (constraints (createCloth s)) ps = fold satisfy (insertion_order s) ps \<and>
   mset (constraints (createCloth s)) = mset (horizontal_links s) + mset (vertical_links s) \<and>
   distinct (constraints (createCloth s)) \<and>
   set (horizontal_links s) = {hlink s u v | u v. u < segmentsW s \<and> v \<le> segmentsH s} \<and>
   set (vertical_links s) = {vlink s u v | u v. u \<le> segmentsW s \<and> v < segmentsH s}"
  by (simp only: constraints_createCloth relax_pass_def mset_insertion_order
        distinct_insertion_order set_horizontal_links set_vertical_links simp_thms)

theorem constraints_in_insertion_order_witness:
  "constraints (createCloth (constructed\<lparr>segmentsW := 1, segmentsH := 1\<rparr>))
   = [new_Constraint 0 1 (Num 1.35), new_Constraint 0 2 (Num 1.35),
      new_Constraint 2 3 (Num 1.35), new_Constraint 1 3 (Num 1.35)]"
  using constraints_in_insertion_order [of "constructed\<lparr>segmentsW := 1, segmentsH := 1\<rparr>" "[]",
      THEN conjunct1]
  by (simp add: insertion_order_def hlink_def vlink_def index_def constructed_def js_nat_def
        numeral_2_eq_2 numeral_3_eq_3)

subsection \<open>C7: degenerate constraints\<close>

text \<open>
  C7 as stated fails for an infinite distance: the guard of \<open>satisfy\<close> tests for zero
  and for NaN only. With one endpoint at the origin and the other at infinity on the
  x axis the current distance is infinite, the division is carried out, and both
  positions change.
\<close>

theorem satisfy_infinite_distance_counterexample:
  "vlength (subVectors (position (new_Particle (Vector3 PInf (Num 0) (Num 0)) MASS))
                       (position (new_Particle zero3 MASS))) = PInf \<and>
   map position (satisfy (new_Constraint 0 1 (Num 1.35))
       [new_Particle zero3 MASS, new_Particle (Vector3 PInf (Num 0) (Num 0)) MASS])
   \<noteq> map position [new_Particle zero3 MASS, new_Particle (Vector3 PInf (Num 0) (Num 0)) MASS]"
  by (simp add: satisfy_def vlength_def subVectors_def js_sub_def zero3_def new_Particle_def
        new_Constraint_def multiplyScalar_def addVectors_def Let_def)

text \<open>
  C7, amended. When the current distance between the two particles is zero or NaN,
  \<open>satisfy\<close> returns the array as it is and never divides by that distance. In every
  other case, an infinite distance included, an unpinned first endpoint moves by the
  half correction, an unpinned second endpoint moves by its opposite, a pinned
  endpoint stays, and no other particle changes.
\<close>

theorem satisfy_skips_zero_or_NaN:
  assumes "p1 c < length ps" and "p2 c < length ps"
  shows "(vlength (subVectors (position (ps ! p2 c)) (position (ps ! p1 c))) = Num 0 \<or>
          isNaN (vlength (subVectors (position (ps ! p2 c)) (position (ps ! p1 c))))
            \<longrightarrow> satisfy c ps = ps) \<and>
         (\<not> (vlength (subVectors (position (ps ! p2 c)) (position (ps ! p1 c))) = Num 0 \<or>
             isNaN (vlength (subVectors (position (ps ! p2 c)) (position (ps ! p1 c)))))
            \<longrightarrow> satisfy c ps ! p1 c =
                  (if pinned (ps ! p1 c) then ps ! p1 c
                   else (ps ! p1 c)\<lparr>position :=
                          addVectors (position (ps ! p1 c)) (correctionHalf_of c ps)\<rparr>) \<and>
                satisfy c ps ! p2 c =
                  (if pinned (ps ! p2 c) then ps ! p2 c
                   else (ps ! p2 c)\<lparr>position :=
                          subVectors (position (ps ! p2 c)) (correctionHalf_of c ps)\<rparr>) \<and>
                (\<forall>k. k \<noteq> p1 c \<longrightarrow> k \<noteq> p2 c \<longrightarrow> satisfy c ps ! k = ps ! k))"
  using satisfy_degenerate [of ps c] satisfy_moves [OF _ assms] by blast

theorem satisfy_skips_zero_or_NaN_witness:
  "satisfy (new_Constraint 0 1 (Num 0.5))
     [new_Particle zero3 MASS, new_Particle zero3 MASS]
   = [new_Particle zero3 MASS, new_Particle zero3 MASS] \<and>
   map position (satisfy (new_Constraint 0 1 (Num 0.5))
     [new_Particle zero3 MASS, new_Particle (Vector3 (Num 1) (Num 0) (Num 0)) MASS])
   = [Vector3 (Num 0.25) (Num 0) (Num 0), Vector3 (Num 0.75) (Num 0) (Num 0)]"
proof -
  let ?c = "new_Constraint 0 1 (Num 0.5)"
  let ?ps = "[new_Particle zero3 MASS, new_Particle zero3 MASS]"
  let ?qs = "[new_Particle zero3 MASS, new_Particle (Vector3 (Num 1) (Num 0) (Num 0)) MASS]"
  have in_range: "p1 ?c < length ?ps" "p2 ?c < length ?ps" "p1 ?c < length ?qs" "p2 ?c < length ?qs"
    by (simp_all add: new_Constraint_def)
  have "satisfy ?c ?ps = ?ps"
    using satisfy_skips_zero_or_NaN [OF in_range(1,2)]
    by (simp add: new_Constraint_def new_Particle_def zero3_def subVectors_def vlength_def js_sub_def)
  moreover have "satisfy ?c ?qs ! 0 = (?qs ! 0)\<lparr>position := Vector3 (Num 0.25) (Num 0) (Num 0)\<rparr>
     \<and> satisfy ?c ?qs ! 1 = (?qs ! 1)\<lparr>position := Vector3 (Num 0.75) (Num 0) (Num 0)\<rparr>"
    using satisfy_skips_zero_or_NaN [OF in_range(3,4)]
    by (simp add: new_Constraint_def new_Particle_def zero3_def subVectors_def vlength_def js_sub_def
          correctionHalf_of_def addVectors_def multiplyScalar_def)
  moreover have "length (satisfy ?c ?qs) = 2" by simp
  ultimately show ?thesis
    by (simp add: list_eq_iff_nth_eq nth_Cons' less_Suc_eq numeral_2_eq_2)
qed

subsection \<open>C8: the stability test\<close>

text \<open>
  C8. \<open>isClothStable\<close> is true exactly when every unpinned particle has
  \<open>|position - oldPosition| \<le> 0.01\<close> and \<open>|position.z - oldPosition.z| \<le> 0.05\<close>: pinned
  particles are not looked at, and one unpinned particle above either threshold makes
  the result false. This holds on every particle array whose unpinned members have
  finite positions and old positions, and so on the particles of every state the
  component reaches from \<open>ngOnInit\<close> by \<open>simulate\<close> calls, whatever the wind.
\<close>

theorem isClothStable_iff:
  "((\<forall>p\<in>set ps. \<not> pinned p \<longrightarrow> finite3 (position p) \<and> finite3 (oldPosition p)) \<longrightarrow>
      (isClothStable ps \<longleftrightarrow>
         (\<forall>p\<in>set ps. \<not> pinned p \<longrightarrow>
            js_le (velocity p) (Num 0.01) \<and> js_le (zVelocity p) (Num 0.05)))) \<and>
   (isClothStable (particles (run ws ngOnInit)) \<longleftrightarrow>
      (\<forall>p\<in>set (particles (run ws ngOnInit)). \<not> pinned p \<longrightarrow>
         js_le (velocity p) (Num 0.01) \<and> js_le (zVelocity p) (Num 0.05)))"
  using stable_test_on_reached_states [of ws]
  by (simp add: isClothStable_exceeds finite_velocity)

theorem isClothStable_iff_witness:
  "isClothStable [new_Particle zero3 MASS] \<and>
   \<not> isClothStable [(new_Particle zero3 MASS)\<lparr>position := Vector3 (Num 0) (Num 0) (Num 1)\<rparr>,
                      new_Particle zero3 MASS]"
proof -
  have "isClothStable [new_Particle zero3 MASS]"
    using isClothStable_iff [of "[new_Particle zero3 MASS]" "[]"]
    by (simp add: finite3_def new_Particle_def zero3_def velocity_def zVelocity_def subVectors_def
          js_sub_def vlength_def)
  moreover have "\<not> isClothStable [(new_Particle zero3 MASS)\<lparr>position := Vector3 (Num 0) (Num 0) (Num 1)\<rparr>,
                      new_Particle zero3 MASS]"
    using isClothStable_iff [of "[(new_Particle zero3 MASS)\<lparr>position := Vector3 (Num 0) (Num 0) (Num 1)\<rparr>,
                      new_Particle zero3 MASS]" "[]"]
    by (simp add: finite3_def new_Particle_def zero3_def velocity_def zVelocity_def subVectors_def
          js_sub_def vlength_def) 
  ultimately show ?thesis by simp
qed

subsection \<open>C9: from scroll delta to wind target\<close>

text \<open>
  C9. \<open>handleScroll\<close> clamps the scroll delta to \<open>[-15, 15]\<close> and then scales it by 0.15:
  a delta of +20 gives the tween target \<open>15 * 0.15 = 2.25\<close>. A tween target is set exactly
  when the magnitude of the clamped delta is above 1, and it is then the clamped delta
  times 0.15.
\<close>

theorem scroll_to_wind:
  "(previousScrollY s = Num y0 \<longrightarrow>
      fst (handleScroll (Num (y0 + 20)) s) = Some \<lparr>target_y = Num (15 * 0.15), duration = Num 0.2\<rparr>) \<and>
   (js_sub y (previousScrollY s) = Num d \<longrightarrow> clamped_delta y s = Num (max (- 15) (min 15 d))) \<and>
   (fst (handleScroll y s) \<noteq> None \<longleftrightarrow> js_gt (js_abs (clamped_delta y s)) (Num 1)) \<and>
   fst (handleScroll y s) \<in>
     {None, Some \<lparr>target_y = js_mul (clamped_delta y s) (Num 0.15), duration = Num 0.2\<rparr>}"
proof -
  have "fst (handleScroll (Num (y0 + 20)) s) = Some \<lparr>target_y = Num (15 * 0.15), duration = Num 0.2\<rparr>"
    if "previousScrollY s = Num y0"
  proof -
    have "js_sub (Num (y0 + 20)) (previousScrollY s) = Num 20" using that by (simp add: js_sub_def)
    then have "clamped_delta (Num (y0 + 20)) s = Num 15" by (simp add: clamped_delta_Num)
    then show ?thesis by (simp add: handleScroll_tween)
  qed
  then show ?thesis
    by (auto simp add: handleScroll_tween clamped_delta_Num split: if_splits)
qed

theorem scroll_to_wind_witness:
  "fst (handleScroll (Num 120) (ngOnInit\<lparr>previousScrollY := Num 100\<rparr>))
     = Some \<lparr>target_y = Num 2.25, duration = Num 0.2\<rparr> \<and>
   fst (handleScroll (Num 100.5) (ngOnInit\<lparr>previousScrollY := Num 100\<rparr>)) = None"
proof -
  let ?s = "ngOnInit\<lparr>previousScrollY := Num 100\<rparr>"
  have "fst (handleScroll (Num (100 + 20)) ?s) = Some \<lparr>target_y = Num (15 * 0.15), duration = Num 0.2\<rparr>"
    using scroll_to_wind [of ?s 100] by simp
  moreover have "fst (handleScroll (Num 100.5) ?s) = None"
    using scroll_to_wind [of ?s 0 "Num 100.5" "0.5"] by (auto simp add: js_sub_def)
  ultimately show ?thesis by simp
qed

subsection \<open>C10: a correction keeps the midpoint\<close>

text \<open>
  C10 as stated fails. For the endpoints \<open>(0.1, 0.2, 0.3)\<close> and \<open>(1, 1, 1)\<close>, both unpinned,
  and the rest distance \<open>1.35\<close>, the current distance is finite and not zero, and the sum
  of the two positions is \<open>(1.1, 1.2, 1.3)\<close> before the correction and
  \<open>(1.1, 1.2, 1.2999999999999998)\<close> after it.
\<close>

theorem satisfy_rounding_counterexample:
  "addVectors_fl round64
     (position (satisfy_fl round64 (new_Constraint 0 1 (round64 1.35))
        [new_Particle (Vector3 (round64 0.1) (round64 0.2) (round64 0.3)) (round64 0.1),
      new_Particle (Vector3 (Num 1) (Num 1) (Num 1)) (round64 0.1)] ! 0))
     (position (satisfy_fl round64 (new_Constraint 0 1 (round64 1.35))
        [new_Particle (Vector3 (round64 0.1) (round64 0.2) (round64 0.3)) (round64 0.1),
      new_Particle (Vector3 (Num 1) (Num 1) (Num 1)) (round64 0.1)] ! 1))
   \<noteq> addVectors_fl round64
       (position ([new_Particle (Vector3 (round64 0.1) (round64 0.2) (round64 0.3)) (round64 0.1),
      new_Particle (Vector3 (Num 1) (Num 1) (Num 1)) (round64 0.1)] ! 0))
       (position ([new_Particle (Vector3 (round64 0.1) (round64 0.2) (round64 0.3)) (round64 0.1),
      new_Particle (Vector3 (Num 1) (Num 1) (Num 1)) (round64 0.1)] ! 1))"
proof -
  note after = satisfy_fl_example(2)
  have len2: "length (satisfy_fl round64 (new_Constraint 0 1 (round64 1.35))
        [new_Particle (Vector3 (round64 0.1) (round64 0.2) (round64 0.3)) (round64 0.1),
      new_Particle (Vector3 (Num 1) (Num 1) (Num 1)) (round64 0.1)]) = 2"
    using arg_cong [OF after, of length] by simp
  have "position (satisfy_fl round64 (new_Constraint 0 1 (round64 1.35))
          [new_Particle (Vector3 (round64 0.1) (round64 0.2) (round64 0.3)) (round64 0.1),
      new_Particle (Vector3 (Num 1) (Num 1) (Num 1)) (round64 0.1)] ! 0) = Vector3 (Num (4101533335724503 / 36028797018963968)) (Num (3824503539153333 / 18014398509481984)) (Num (2799120205222207 / 9007199254740992))"
       "position (satisfy_fl round64 (new_Constraint 0 1 (round64 1.35))
          [new_Particle (Vector3 (round64 0.1) (round64 0.2) (round64 0.3)) (round64 0.1),
      new_Particle (Vector3 (Num 1) (Num 1) (Num 1)) (round64 0.1)] ! 1) = Vector3 (Num (4441267923141983 / 4503599627370496)) (Num (2224096834028131 / 2251799813685248)) (Num (4455119412970541 / 4503599627370496))"
    using arg_cong [OF after, of "\<lambda>xs. xs ! 0"] arg_cong [OF after, of "\<lambda>xs. xs ! 1"] len2
    by simp_all
  then show ?thesis
    by (simp only: satisfy_fl_example(3) satisfy_fl_example(4)) simp
qed

text \<open>
  C10, amended. For a constraint whose two endpoints are unpinned, whose current
  distance is finite and not zero, and whose endpoints are at finite positions after
  the correction, \<open>satisfy\<close> adds one half correction to the first endpoint and subtracts
  the same half correction from the second, each result rounded, so that every
  coordinate of the exact sum of the two positions changes by no more than the two
  rounding errors.
\<close>

theorem satisfy_midpoint_rounded:
  assumes i: "p1 c < length ps" and j: "p2 c < length ps"
    and u1: "\<not> pinned (ps ! p1 c)" and u2: "\<not> pinned (ps ! p2 c)"
    and d: "vlength_fl round64 (subVectors_fl round64 (position (ps ! p2 c)) (position (ps ! p1 c))) = Num r"
    and r: "r \<noteq> 0"
    and f1: "finite3 (position (satisfy_fl round64 c ps ! p1 c))"
    and f2: "finite3 (position (satisfy_fl round64 c ps ! p2 c))"
  shows "position (satisfy_fl round64 c ps ! p1 c)
           = addVectors_fl round64 (position (ps ! p1 c)) (correctionHalf_fl round64 c ps) \<and>
         position (satisfy_fl round64 c ps ! p2 c)
           = subVectors_fl round64 (position (ps ! p2 c)) (correctionHalf_fl round64 c ps) \<and>
         sum_within_rounding vx (position (ps ! p1 c)) (position (ps ! p2 c)) (correctionHalf_fl round64 c ps)
           (position (satisfy_fl round64 c ps ! p1 c)) (position (satisfy_fl round64 c ps ! p2 c)) \<and>
         sum_within_rounding vy (position (ps ! p1 c)) (position (ps ! p2 c)) (correctionHalf_fl round64 c ps)
           (position (satisfy_fl round64 c ps ! p1 c)) (position (satisfy_fl round64 c ps ! p2 c)) \<and>
         sum_within_rounding vz (position (ps ! p1 c)) (position (ps ! p2 c)) (correctionHalf_fl round64 c ps)
           (position (satisfy_fl round64 c ps ! p1 c)) (position (satisfy_fl round64 c ps ! p2 c))"
proof -
  let ?a = "position (ps ! p1 c)" and ?b = "position (ps ! p2 c)"
  let ?h = "correctionHalf_fl round64 c ps"
  let ?a' = "position (satisfy_fl round64 c ps ! p1 c)" and ?b' = "position (satisfy_fl round64 c ps ! p2 c)"
  have nd: "\<not> (vlength_fl round64 (subVectors_fl round64 ?b ?a) = Num 0 \<or>
             isNaN (vlength_fl round64 (subVectors_fl round64 ?b ?a)))"
    using d r by simp
  have ne: "p1 c \<noteq> p2 c"
  proof
    assume "p1 c = p2 c"
    with nd vlength_fl_self_diff [of ?b] show False by auto
  qed
  have a': "?a' = addVectors_fl round64 ?a ?h"
    using satisfy_fl_moves(1) [OF nd i j ne] u1 by simp
  have b': "?b' = subVectors_fl round64 ?b ?h"
    using satisfy_fl_moves(2) [OF nd i j ne] u2 by simp
  from finite3_coords [OF f1] obtain x1 y1 z1 where
    ca: "vx ?a' = Num x1" "vy ?a' = Num y1" "vz ?a' = Num z1" by blast
  from finite3_coords [OF f2] obtain x2 y2 z2 where
    cb: "vx ?b' = Num x2" "vy ?b' = Num y2" "vz ?b' = Num z2" by blast
  have ax: "fl_add round64 (vx ?a) (vx ?h) = Num x1" "fl_add round64 (vy ?a) (vy ?h) = Num y1"
    "fl_add round64 (vz ?a) (vz ?h) = Num z1"
    using ca unfolding a' by (simp_all add: addVectors_fl_def)
  have bx: "fl_sub round64 (vx ?b) (vx ?h) = Num x2" "fl_sub round64 (vy ?b) (vy ?h) = Num y2"
    "fl_sub round64 (vz ?b) (vz ?h) = Num z2"
    using cb unfolding b' by (simp_all add: subVectors_fl_def)
  have "sum_within_rounding vx ?a ?b ?h ?a' ?b'"
    unfolding sum_within_rounding_def ca cb using coordinate_drift [OF ax(1) bx(1)] by simp
  moreover have "sum_within_rounding vy ?a ?b ?h ?a' ?b'"
    unfolding sum_within_rounding_def ca cb using coordinate_drift [OF ax(2) bx(2)] by simp
  moreover have "sum_within_rounding vz ?a ?b ?h ?a' ?b'"
    unfolding sum_within_rounding_def ca cb using coordinate_drift [OF ax(3) bx(3)] by simp
  ultimately show ?thesis using a' b' by simp
qed

theorem satisfy_midpoint_rounded_witness:
  "sum_within_rounding vz
     (position ([new_Particle (Vector3 (round64 0.1) (round64 0.2) (round64 0.3)) (round64 0.1),
      new_Particle (Vector3 (Num 1) (Num 1) (Num 1)) (round64 0.1)] ! 0))
     (position ([new_Particle (Vector3 (round64 0.1) (round64 0.2) (round64 0.3)) (round64 0.1),
      new_Particle (Vector3 (Num 1) (Num 1) (Num 1)) (round64 0.1)] ! 1))
     (correctionHalf_fl round64 (new_Constraint 0 1 (round64 1.35))
        [new_Particle (Vector3 (round64 0.1) (round64 0.2) (round64 0.3)) (round64 0.1),
      new_Particle (Vector3 (Num 1) (Num 1) (Num 1)) (round64 0.1)])
     (position (satisfy_fl round64 (new_Constraint 0 1 (round64 1.35))
        [new_Particle (Vector3 (round64 0.1) (round64 0.2) (round64 0.3)) (round64 0.1),
      new_Particle (Vector3 (Num 1) (Num 1) (Num 1)) (round64 0.1)] ! 0))
     (position (satisfy_fl round64 (new_Constraint 0 1 (round64 1.35))
        [new_Particle (Vector3 (round64 0.1) (round64 0.2) (round64 0.3)) (round64 0.1),
      new_Particle (Vector3 (Num 1) (Num 1) (Num 1)) (round64 0.1)] ! 1))"
proof -
  let ?c = "new_Constraint 0 1 (round64 1.35)"
  let ?ps = "[new_Particle (Vector3 (round64 0.1) (round64 0.2) (round64 0.3)) (round64 0.1),
      new_Particle (Vector3 (Num 1) (Num 1) (Num 1)) (round64 0.1)]"
  have c: "p1 ?c = 0" "p2 ?c = 1" by (simp_all add: new_Constraint_def)
  have i: "p1 ?c < length ?ps" and j: "p2 ?c < length ?ps" unfolding c by simp_all
  have u1: "\<not> pinned (?ps ! p1 ?c)" and u2: "\<not> pinned (?ps ! p2 ?c)"
    unfolding c by (simp_all add: new_Particle_def)
  have d: "vlength_fl round64 (subVectors_fl round64 (position (?ps ! p2 ?c)) (position (?ps ! p1 ?c)))
             = Num (6272788425499799 / 4503599627370496)"
    unfolding c by (rule satisfy_fl_example(1))
  have r: "(6272788425499799 / 4503599627370496 :: real) \<noteq> 0" by simp
  note after = satisfy_fl_example(2)
  have len2: "length (satisfy_fl round64 ?c ?ps) = 2"
    using arg_cong [OF after, of length] by simp
  have f1: "finite3 (position (satisfy_fl round64 ?c ?ps ! p1 ?c))"
    and f2: "finite3 (position (satisfy_fl round64 ?c ?ps ! p2 ?c))"
    unfolding c
    using arg_cong [OF after, of "\<lambda>xs. xs ! 0"] arg_cong [OF after, of "\<lambda>xs. xs ! 1"] len2
    by (simp_all add: finite3_def)
  from satisfy_midpoint_rounded [OF i j u1 u2 d r f1 f2] show ?thesis
    unfolding c by blast
qed

end
